(* ===== verification/NuPrelude.thy ===== *)
theory NuPrelude
  imports Main "HOL-Library.Sublist" "HOL-Library.Word"
begin

text \<open>
  Shared vocabulary of the development: the Go values every component exchanges
  (machine integers, error values, results), the named collections of facts the
  component theories feed to the simplifier, and generic lemmas on lists, options
  and maps that more than one component uses.
\<close>

section \<open>Fact collections\<close>

named_theorems nu_defs "definitions unfolded when a model is evaluated on a concrete input"
named_theorems nu_inv "definitions of the invariant clauses of the subscription system"
named_theorems nu_frame "fields that an operation leaves unchanged"

section \<open>Go values\<close>

text \<open>
  Go's \<^verbatim>\<open>int\<close> on the 64-bit platforms the program is built for is a 64-bit
  two's-complement integer; it is read with \<^const>\<open>sint\<close>. A Go \<^verbatim>\<open>string\<close> is
  a byte sequence, which is what \<^typ>\<open>string\<close> is here. An \<^verbatim>\<open>error\<close> is either the
  \<^verbatim>\<open>*strconv.NumError\<close> that \<^verbatim>\<open>strconv.Atoi\<close> returns (function name, offending
  input, cause) or a plain message made by \<^verbatim>\<open>errors.New\<close> or reported by the
  network and mail libraries.
\<close>

type_synonym go_int = "64 word"

datatype num_err = ErrSyntax | ErrRange

datatype go_error = NumError string string num_err | ErrorString string

type_synonym 'a result = "go_error + 'a"

abbreviation Ok :: "'a \<Rightarrow> 'a result" where
  "Ok \<equiv> Inr"

abbreviation Err :: "go_error \<Rightarrow> 'a result" where
  "Err \<equiv> Inl"

definition max_int64 :: int where
  "max_int64 = 2 ^ 63 - 1"

definition min_int64 :: int where
  "min_int64 = - (2 ^ 63)"

definition in_int64 :: "int \<Rightarrow> bool" where
  "in_int64 i \<longleftrightarrow> min_int64 \<le> i \<and> i \<le> max_int64"

section \<open>Machine integers\<close>

lemma sint_in_int64 [simp]: "in_int64 (sint (w :: go_int))"
  using sint_ge [of w] sint_lt [of w]
  by (simp add: in_int64_def min_int64_def max_int64_def)

lemma sint_word_of_int_int64 [simp]:
  "in_int64 i \<Longrightarrow> sint (word_of_int i :: go_int) = i"
  by (simp add: in_int64_def min_int64_def max_int64_def sint_sbintrunc'
      signed_take_bit_int_eq_self)

lemma sint_word_of_nat_int64 [simp]:
  "in_int64 (int n) \<Longrightarrow> sint (word_of_nat n :: go_int) = int n"
  "in_int64 (- int n) \<Longrightarrow> sint (- word_of_nat n :: go_int) = - int n"
  using sint_word_of_int_int64 [of "int n"] sint_word_of_int_int64 [of "- int n"] by simp_all

lemma word_of_int_inj_int64:
  "in_int64 i \<Longrightarrow> in_int64 j \<Longrightarrow> (word_of_int i :: go_int) = word_of_int j \<longleftrightarrow> i = j"
  by (metis sint_word_of_int_int64)

section \<open>Lists\<close>

lemma takeWhile_dropWhile_cases:
  "dropWhile P xs = [] \<or> (\<exists>y ys. dropWhile P xs = y # ys \<and> \<not> P y)"
  by (metis hd_dropWhile list.exhaust list.sel(1))

lemma prefix_drop_append [simp]: "prefix l s \<Longrightarrow> l @ drop (length l) s = s"
  by (auto simp: prefix_def)

lemma list_all_takeWhile [simp]: "list_all P (takeWhile P xs)"
  by (induction xs) auto

section \<open>Maps\<close>

lemma map_upd_eq_SomeD:
  "(m(k \<mapsto> v)) k' = Some v' \<Longrightarrow> (k' = k \<and> v' = v) \<or> (k' \<noteq> k \<and> m k' = Some v')"
  by (auto split: if_splits)

lemma ran_map_upd_fresh: "v \<notin> ran m \<Longrightarrow> m k' = Some v' \<Longrightarrow> v' \<noteq> v"
  by (auto simp: ran_def)

end
