(* ===== verification/Strconv.thy ===== *)
theory Strconv
  imports NuPrelude
begin

text \<open>
  The two conversions of Go's \<^verbatim>\<open>strconv\<close> package that the program calls:
  \<^verbatim>\<open>strconv.Atoi\<close> (in \<^verbatim>\<open>parseAvailableSeats\<close>) and \<^verbatim>\<open>strconv.Itoa\<close> (in
  \<^verbatim>\<open>sendEmailNotification\<close>), for base 10 and a 64-bit \<^verbatim>\<open>int\<close>. \<^verbatim>\<open>Atoi\<close>
  accepts an optional sign followed by one or more ASCII digits and fails with a
  \<^verbatim>\<open>NumError\<close>: \<^verbatim>\<open>ErrSyntax\<close> for any other text, \<^verbatim>\<open>ErrRange\<close> when the
  value does not fit into 64 bits. The lemmas give the digit-level facts, the
  round trip \<open>Atoi (Itoa w) = Ok w\<close> and the exact failure conditions.
\<close>

section \<open>Digits\<close>

definition is_digit :: "char \<Rightarrow> bool" where
  "is_digit c \<longleftrightarrow> 48 \<le> (of_char c :: nat) \<and> (of_char c :: nat) \<le> 57"

definition digit_val :: "char \<Rightarrow> nat" where
  "digit_val c = of_char c - 48"

definition digit_char :: "nat \<Rightarrow> char" where
  "digit_char d = char_of (48 + d)"

text \<open>The decimal digits of a magnitude, most significant first (\<^verbatim>\<open>formatBits\<close>).\<close>

fun nat_digits :: "nat \<Rightarrow> string" where
  "nat_digits n = (if n < 10 then [digit_char n] else nat_digits (n div 10) @ [digit_char (n mod 10)])"

declare nat_digits.simps [simp del]

text \<open>The accumulation loop of \<^verbatim>\<open>ParseUint\<close>: \<open>n = n * 10 + digit\<close>.\<close>

definition digits_val :: "string \<Rightarrow> nat" where
  "digits_val s = foldl (\<lambda>n c. n * 10 + digit_val c) 0 s"

section \<open>Itoa and Atoi\<close>

definition Itoa :: "go_int \<Rightarrow> string" where
  "Itoa w = (let i = sint w in
     if i < 0 then CHR ''-'' # nat_digits (nat (- i)) else nat_digits (nat i))"

definition Atoi :: "string \<Rightarrow> go_int result" where
  "Atoi s =
    (let neg = (s \<noteq> [] \<and> hd s = CHR ''-'');
         body = (if s \<noteq> [] \<and> (hd s = CHR ''-'' \<or> hd s = CHR ''+'') then tl s else s)
     in if body = [] \<or> \<not> list_all is_digit body then Err (NumError ''Atoi'' s ErrSyntax)
        else let v = (if neg then - int (digits_val body) else int (digits_val body))
             in if in_int64 v then Ok (word_of_int v) else Err (NumError ''Atoi'' s ErrRange))"

section \<open>Digit facts\<close>

lemma is_digit_digit_char [simp]: "d < 10 \<Longrightarrow> is_digit (digit_char d)"
  by (simp add: is_digit_def digit_char_def)

lemma digit_val_digit_char [simp]: "d < 10 \<Longrightarrow> digit_val (digit_char d) = d"
  by (simp add: digit_val_def digit_char_def)

lemma digit_char_digit_val [simp]: "is_digit c \<Longrightarrow> digit_char (digit_val c) = c"
  by (simp add: is_digit_def digit_val_def digit_char_def)

lemma digit_val_less [simp]: "is_digit c \<Longrightarrow> digit_val c < 10"
  by (auto simp: is_digit_def digit_val_def)

lemma not_digit_minus [simp]: "\<not> is_digit CHR ''-''"
  by (simp add: is_digit_def)

lemma not_digit_plus [simp]: "\<not> is_digit CHR ''+''"
  by (simp add: is_digit_def)

lemma not_digit_space [simp]: "\<not> is_digit CHR '' ''"
  by (simp add: is_digit_def)

lemma digit_char_not_sign [simp]:
  "d < 10 \<Longrightarrow> digit_char d \<noteq> CHR ''-''" "d < 10 \<Longrightarrow> digit_char d \<noteq> CHR ''+''"
  using is_digit_digit_char [of d] by (auto simp del: is_digit_digit_char)

lemma digit_val_zero [simp]: "digit_val CHR ''0'' = 0"
  by (simp add: digit_val_def)

lemma digit_char_zero [simp]: "digit_char 0 = CHR ''0''"
  using digit_char_digit_val [of "CHR ''0''"] by (simp add: is_digit_def)

text \<open>The ten digits, for evaluating \<open>Itoa\<close> on numerals.\<close>

lemma digit_char_values [simp]:
  "digit_char 1 = CHR ''1''" "digit_char (Suc 0) = CHR ''1''" "digit_char 2 = CHR ''2''"
  "digit_char 3 = CHR ''3''" "digit_char 4 = CHR ''4''" "digit_char 5 = CHR ''5''"
  "digit_char 6 = CHR ''6''" "digit_char 7 = CHR ''7''" "digit_char 8 = CHR ''8''"
  "digit_char 9 = CHR ''9''"
  using digit_char_digit_val [of "CHR ''1''"] digit_char_digit_val [of "CHR ''2''"]
    digit_char_digit_val [of "CHR ''3''"] digit_char_digit_val [of "CHR ''4''"]
    digit_char_digit_val [of "CHR ''5''"] digit_char_digit_val [of "CHR ''6''"]
    digit_char_digit_val [of "CHR ''7''"] digit_char_digit_val [of "CHR ''8''"]
    digit_char_digit_val [of "CHR ''9''"]
  by (simp_all add: is_digit_def digit_val_def)

lemma digit_char_eq_zero: "d < 10 \<Longrightarrow> digit_char d = CHR ''0'' \<longleftrightarrow> d = 0"
  by (metis digit_val_digit_char digit_val_zero digit_char_zero)

lemma digits_val_Nil [simp]: "digits_val [] = 0"
  by (simp add: digits_val_def)

lemma digits_val_single [simp]: "digits_val [c] = digit_val c"
  by (simp add: digits_val_def)

lemma digits_val_snoc [simp]: "digits_val (s @ [c]) = digits_val s * 10 + digit_val c"
  by (simp add: digits_val_def)

section \<open>Formatting a magnitude\<close>

lemma nat_digits_nonempty [simp]: "nat_digits n \<noteq> []"
  by (subst nat_digits.simps) simp

lemma nat_digits_all_digits [simp]: "list_all is_digit (nat_digits n)"
proof (induction n rule: nat_digits.induct)
  case (1 n)
  then show ?case by (subst nat_digits.simps) simp
qed

lemma digits_val_nat_digits [simp]: "digits_val (nat_digits n) = n"
proof (induction n rule: nat_digits.induct)
  case (1 n)
  then show ?case by (subst nat_digits.simps) simp
qed

lemma hd_nat_digits_digit [simp]: "is_digit (hd (nat_digits n))"
  using nat_digits_all_digits [of n] nat_digits_nonempty [of n]
  by (cases "nat_digits n") (simp_all del: nat_digits_all_digits nat_digits_nonempty)

lemma hd_nat_digits_not_sign [simp]:
  "hd (nat_digits n) \<noteq> CHR ''-''" "hd (nat_digits n) \<noteq> CHR ''+''"
  using hd_nat_digits_digit [of n] by (auto simp del: hd_nat_digits_digit)

text \<open>No leading zero, except for zero itself: the text of a number is canonical.\<close>

lemma hd_nat_digits_nonzero: "0 < n \<Longrightarrow> hd (nat_digits n) \<noteq> CHR ''0''"
proof (induction n rule: nat_digits.induct)
  case (1 n)
  show ?case
  proof (cases "n < 10")
    case True
    with "1.prems" show ?thesis
      by (subst nat_digits.simps) (simp add: digit_char_eq_zero)
  next
    case False
    then have "0 < n div 10" by simp
    with "1.IH" False have "hd (nat_digits (n div 10)) \<noteq> CHR ''0''" by simp
    with False show ?thesis by (subst nat_digits.simps) simp
  qed
qed

lemma length_nat_digits_bound: "n < 10 ^ k \<Longrightarrow> 0 < k \<Longrightarrow> length (nat_digits n) \<le> k"
proof (induction n arbitrary: k rule: nat_digits.induct)
  case (1 n)
  show ?case
  proof (cases "n < 10")
    case True
    with "1.prems" show ?thesis by (subst nat_digits.simps) simp
  next
    case False
    with "1.prems" obtain k' where k: "k = Suc k'" "0 < k'"
      by (cases k; cases "k - 1") auto
    with "1.prems" have "n div 10 < 10 ^ k'"
      by (simp add: less_mult_imp_div_less mult.commute)
    with "1.IH" False k have "length (nat_digits (n div 10)) \<le> k'" by simp
    with False k show ?thesis by (subst nat_digits.simps) simp
  qed
qed

section \<open>Itoa\<close>

lemma Itoa_nonempty [simp]: "Itoa w \<noteq> []"
  by (simp add: Itoa_def Let_def)

lemma Itoa_nonneg: "0 \<le> sint w \<Longrightarrow> Itoa w = nat_digits (nat (sint w))"
  by (simp add: Itoa_def Let_def)

lemma Itoa_neg: "sint w < 0 \<Longrightarrow> Itoa w = CHR ''-'' # nat_digits (nat (- sint w))"
  by (simp add: Itoa_def Let_def)

lemma Itoa_shape:
  "\<exists>sign ds. Itoa w = sign @ ds \<and> (sign = [] \<or> sign = ''-'') \<and> ds \<noteq> [] \<and> list_all is_digit ds"
proof (cases "sint w < 0")
  case True
  then have "Itoa w = ''-'' @ nat_digits (nat (- sint w))"
    by (simp add: Itoa_neg)
  then show ?thesis by (metis nat_digits_nonempty nat_digits_all_digits)
next
  case False
  then have "Itoa w = [] @ nat_digits (nat (sint w))"
    by (simp add: Itoa_nonneg)
  then show ?thesis by (metis nat_digits_nonempty nat_digits_all_digits)
qed

section \<open>Atoi\<close>

lemma Atoi_digits:
  "ds \<noteq> [] \<Longrightarrow> list_all is_digit ds \<Longrightarrow>
   Atoi ds = (if in_int64 (int (digits_val ds)) then Ok (word_of_int (int (digits_val ds)))
              else Err (NumError ''Atoi'' ds ErrRange))"
  by (cases ds) (auto simp: Atoi_def Let_def)

lemma Atoi_minus_digits:
  "ds \<noteq> [] \<Longrightarrow> list_all is_digit ds \<Longrightarrow>
   Atoi (CHR ''-'' # ds) = (if in_int64 (- int (digits_val ds)) then Ok (word_of_int (- int (digits_val ds)))
              else Err (NumError ''Atoi'' (CHR ''-'' # ds) ErrRange))"
  by (simp add: Atoi_def Let_def)


lemma Atoi_empty [simp]: "Atoi [] = Err (NumError ''Atoi'' [] ErrSyntax)"
  by (simp add: Atoi_def)

lemma Atoi_error_is_NumError: "Atoi s = Err e \<Longrightarrow> \<exists>k. e = NumError ''Atoi'' s k"
  by (auto simp: Atoi_def Let_def split: if_splits)

lemma Atoi_Itoa [simp]: "Atoi (Itoa w) = Ok w"
proof (cases "sint w < 0")
  case True
  then show ?thesis
    by (simp add: Itoa_neg Atoi_minus_digits)
next
  case False
  then show ?thesis
    by (simp add: Itoa_nonneg Atoi_digits)
qed

lemma Itoa_inj: "Itoa v = Itoa w \<Longrightarrow> v = w"
  by (metis Atoi_Itoa sum.inject(2))



section \<open>Properties\<close>

text \<open>
  C40: every 64-bit integer survives the trip through its decimal text,
  \<open>Atoi (Itoa w) = Ok w\<close>, and the text is the canonical one: no leading zero
  and no plus sign.
\<close>

theorem Itoa_Atoi_roundtrip:
  "Atoi (Itoa w) = Ok w \<and> hd (Itoa w) \<noteq> CHR ''+'' \<and> (Itoa w = ''0'' \<or> hd (Itoa w) \<noteq> CHR ''0'')"
proof -
  have "hd (Itoa w) \<noteq> CHR ''+''"
    by (simp add: Itoa_def Let_def)
  moreover have "Itoa w = ''0'' \<or> hd (Itoa w) \<noteq> CHR ''0''"
  proof (cases "sint w = 0")
    case True
    then show ?thesis by (simp add: Itoa_def nat_digits.simps)
  next
    case False
    then show ?thesis by (simp add: Itoa_def Let_def hd_nat_digits_nonzero)
  qed
  ultimately show ?thesis by simp
qed

theorem Itoa_Atoi_roundtrip_witness:
  "Itoa 42 = ''42'' \<and> Atoi ''42'' = Ok 42"
  using Itoa_Atoi_roundtrip [of 42] by (simp add: Itoa_def nat_digits.simps)



end
