(* ===== verification/SeatsParser.thy ===== *)
theory SeatsParser
  imports Strconv
begin

text \<open>
  \<^verbatim>\<open>parseAvailableSeats\<close>: the regular expression of the program, a backtracking
  matcher with the leftmost-first preference of Go's \<^verbatim>\<open>regexp\<close> package,
  \<^verbatim>\<open>FindStringSubmatch\<close> for a pattern with one capture group, and the parser
  built from them. A scanner written without regular expressions (\<open>group_at\<close>,
  \<open>scan_seats\<close>) serves as the reference: the lemmas show that the matcher
  agrees with it on every input, and give the behaviour of the parser on pages
  that carry a seat count, on pages that do not, and on counts that do not fit
  into an \<^verbatim>\<open>int\<close>.
\<close>

section \<open>Regular expressions and their backtracking matcher\<close>

datatype rexp = Lit string | Digit | Opt rexp | Plus rexp | Seq rexp rexp

text \<open>
  \<open>rmatch r s\<close> lists what is left of \<open>s\<close> after each way of matching \<open>r\<close> at
  its start, most preferred first: \<^verbatim>\<open>?\<close> and \<^verbatim>\<open>+\<close> are greedy. An iteration
  of \<^verbatim>\<open>+\<close> that consumes nothing is dropped, so the search ends.
\<close>

function rmatch :: "rexp \<Rightarrow> string \<Rightarrow> string list" where
  "rmatch (Lit l) s = (if prefix l s then [drop (length l) s] else [])"
| "rmatch Digit s = (case s of [] \<Rightarrow> [] | c # r \<Rightarrow> if is_digit c then [r] else [])"
| "rmatch (Opt r) s = rmatch r s @ [s]"
| "rmatch (Seq r1 r2) s = concat (map (rmatch r2) (rmatch r1 s))"
| "rmatch (Plus r) s =
     concat (map (\<lambda>s'. rmatch (Plus r) s' @ [s'])
                 (filter (\<lambda>s'. length s' < length s) (rmatch r s)))"
  by pat_completeness auto
termination
  by (relation "measures [size \<circ> fst, length \<circ> snd]") auto

declare rmatch.simps(5) [simp del]

text \<open>
  A pattern \<^verbatim>\<open>before(group)after\<close> with one capture group. A match at the
  start of \<open>s\<close> yields the whole matched text and the text of the group, as the
  slice that \<^verbatim>\<open>FindStringSubmatch\<close> returns.
\<close>

record pattern =
  p_before :: rexp
  p_group :: rexp
  p_after :: rexp

definition match_splits :: "pattern \<Rightarrow> string \<Rightarrow> (string \<times> string \<times> string) list" where
  "match_splits p s =
     concat (map (\<lambda>r1. concat (map (\<lambda>r2. map (\<lambda>r3. (r1, r2, r3)) (rmatch (p_after p) r2))
                                     (rmatch (p_group p) r1)))
                 (rmatch (p_before p) s))"

definition match_at :: "pattern \<Rightarrow> string \<Rightarrow> string list option" where
  "match_at p s = (case match_splits p s of
       [] \<Rightarrow> None
     | (r1, r2, r3) # _ \<Rightarrow>
         Some [take (length s - length r3) s, take (length r1 - length r2) r1])"

fun FindStringSubmatch :: "pattern \<Rightarrow> string \<Rightarrow> string list option" where
  "FindStringSubmatch p [] = match_at p []"
| "FindStringSubmatch p (c # s) =
     (case match_at p (c # s) of Some m \<Rightarrow> Some m | None \<Rightarrow> FindStringSubmatch p s)"

section \<open>The parser\<close>

definition dquote :: char where
  "dquote = CHR 0x22"

definition seats_prefix :: string where
  "seats_prefix = ''Enrollment Seats Available:</span> <span dir='' @ [dquote] @ ''ltr'' @ [dquote] @ ''> ''"

definition seats_suffix :: string where
  "seats_suffix = '' </span>''"

definition seats_re :: pattern where
  "seats_re = \<lparr>p_before = Lit seats_prefix,
               p_group = Seq (Opt (Lit ''-'')) (Plus Digit),
               p_after = Lit seats_suffix\<rparr>"

definition parseAvailableSeats :: "string \<Rightarrow> go_int result" where
  "parseAvailableSeats htmlStr =
     (case FindStringSubmatch seats_re htmlStr of
        None \<Rightarrow> Err (ErrorString ''could not find available seats in HTML'')
      | Some matches \<Rightarrow>
          if length matches < 2 then Err (ErrorString ''could not find available seats in HTML'')
          else Atoi (matches ! 1))"

section \<open>The reference scanner\<close>

text \<open>
  What the pattern means, written as a scan: at a position the fixed text must
  follow, then an optional minus sign, then the longest run of digits, which must
  not be empty, then the closing text. The search tries the positions from left
  to right. A count is an optional minus sign followed by digits.
\<close>

definition seats_sign :: "string \<Rightarrow> string" where
  "seats_sign r = (if r \<noteq> [] \<and> hd r = CHR ''-'' then ''-'' else [])"

definition group_at :: "string \<Rightarrow> string option" where
  "group_at s =
     (if prefix seats_prefix s
      then (let r = drop (length seats_prefix) s;
                sign = seats_sign r;
                ds = takeWhile is_digit (drop (length sign) r)
            in if ds \<noteq> [] \<and> prefix seats_suffix (dropWhile is_digit (drop (length sign) r))
               then Some (sign @ ds) else None)
      else None)"

fun scan_seats :: "string \<Rightarrow> string option" where
  "scan_seats [] = None"
| "scan_seats (c # s) = (case group_at (c # s) of Some g \<Rightarrow> Some g | None \<Rightarrow> scan_seats s)"

definition is_count :: "string \<Rightarrow> bool" where
  "is_count g \<longleftrightarrow> (let ds = (if g \<noteq> [] \<and> hd g = CHR ''-'' then tl g else g)
                  in ds \<noteq> [] \<and> list_all is_digit ds)"

section \<open>Shape of the results\<close>

lemma match_at_length: "match_at p s = Some m \<Longrightarrow> length m = 2"
  by (auto simp: match_at_def split: list.splits)

lemma FindStringSubmatch_length: "FindStringSubmatch p s = Some m \<Longrightarrow> length m = 2"
  by (induction s) (auto dest: match_at_length split: option.splits)

lemma parseAvailableSeats_found:
  "FindStringSubmatch seats_re htmlStr = Some m \<Longrightarrow> parseAvailableSeats htmlStr = Atoi (m ! 1)"
  by (auto simp: parseAvailableSeats_def dest: FindStringSubmatch_length)

lemma parseAvailableSeats_not_found:
  "FindStringSubmatch seats_re htmlStr = None \<Longrightarrow>
   parseAvailableSeats htmlStr = Err (ErrorString ''could not find available seats in HTML'')"
  by (simp add: parseAvailableSeats_def)

section \<open>The matcher in closed form\<close>

lemma rmatch_Plus_Digit_Nil [simp]: "rmatch (Plus Digit) [] = []"
  by (subst rmatch.simps(5)) simp

lemma rmatch_Plus_Digit_Cons [simp]:
  "rmatch (Plus Digit) (c # r) = (if is_digit c then rmatch (Plus Digit) r @ [r] else [])"
  by (subst rmatch.simps(5)) simp

lemma rmatch_Opt_minus:
  "rmatch (Opt (Lit ''-'')) s = (if s \<noteq> [] \<and> hd s = CHR ''-'' then [tl s, s] else [s])"
  by (cases s) auto

text \<open>
  After a greedy run of digits only the longest run can be followed by a literal
  that does not start with a digit.
\<close>

lemma digits_then_literal:
  assumes "l \<noteq> []" "\<not> is_digit (hd l)"
  shows "concat (map (\<lambda>r2. map (F r2) (rmatch (Lit l) r2)) (rmatch (Plus Digit) s)) =
     (if takeWhile is_digit s \<noteq> [] \<and> prefix l (dropWhile is_digit s)
      then [F (dropWhile is_digit s) (drop (length l) (dropWhile is_digit s))] else [])"
proof (induction s)
  case Nil
  then show ?case by simp
next
  case (Cons c r)
  have "prefix l r \<Longrightarrow> r \<noteq> [] \<and> \<not> is_digit (hd r)"
    using assms by (cases l; cases r) auto
  then have "prefix l r \<Longrightarrow> takeWhile is_digit r = [] \<and> dropWhile is_digit r = r"
    by (cases r) auto
  with Cons show ?case
    by (cases r) (auto split: if_splits)
qed

lemma take_length_diff: "s = a @ r \<Longrightarrow> take (length s - length r) s = a"
  by simp

lemma seats_suffix_literal [simp]: "seats_suffix \<noteq> []" "\<not> is_digit (hd seats_suffix)"
  by (simp_all add: seats_suffix_def)

lemma rmatch_sign_digits:
  "rmatch (Seq (Opt (Lit ''-'')) (Plus Digit)) r = rmatch (Plus Digit) (drop (length (seats_sign r)) r)"
  by (cases r) (auto simp: seats_sign_def)

lemma rmatch_group:
  "concat (map (\<lambda>r2. map (F r2) (rmatch (Lit seats_suffix) r2))
      (rmatch (Seq (Opt (Lit ''-'')) (Plus Digit)) r)) =
   (if takeWhile is_digit (drop (length (seats_sign r)) r) \<noteq> [] \<and>
       prefix seats_suffix (dropWhile is_digit (drop (length (seats_sign r)) r))
    then [F (dropWhile is_digit (drop (length (seats_sign r)) r))
            (drop (length seats_suffix) (dropWhile is_digit (drop (length (seats_sign r)) r)))]
    else [])"
  unfolding rmatch_sign_digits by (rule digits_then_literal) simp_all

lemma match_splits_seats:
  "match_splits seats_re s =
     (if prefix seats_prefix s
      then (let r = drop (length seats_prefix) s; r1 = drop (length (seats_sign r)) r in
            if takeWhile is_digit r1 \<noteq> [] \<and> prefix seats_suffix (dropWhile is_digit r1)
            then [(r, dropWhile is_digit r1, drop (length seats_suffix) (dropWhile is_digit r1))]
            else [])
      else [])"
proof -
  have "match_splits seats_re s =
      concat (map (\<lambda>r1. concat (map (\<lambda>r2. map (\<lambda>r3. (r1, r2, r3)) (rmatch (Lit seats_suffix) r2))
                                      (rmatch (Seq (Opt (Lit ''-'')) (Plus Digit)) r1)))
                  (rmatch (Lit seats_prefix) s))"
    by (simp add: match_splits_def seats_re_def del: rmatch.simps)
  also have "\<dots> = concat (map (\<lambda>r1.
        if takeWhile is_digit (drop (length (seats_sign r1)) r1) \<noteq> [] \<and>
           prefix seats_suffix (dropWhile is_digit (drop (length (seats_sign r1)) r1))
        then [(r1, dropWhile is_digit (drop (length (seats_sign r1)) r1),
               drop (length seats_suffix) (dropWhile is_digit (drop (length (seats_sign r1)) r1)))]
        else []) (rmatch (Lit seats_prefix) s))"
    unfolding rmatch_group ..
  finally show ?thesis by (simp add: Let_def)
qed

lemma seats_sign_split: "seats_sign r @ drop (length (seats_sign r)) r = r"
  by (cases r) (auto simp: seats_sign_def)

lemma match_at_seats:
  "match_at seats_re s = map_option (\<lambda>g. [seats_prefix @ g @ seats_suffix, g]) (group_at s)"
proof (cases "match_splits seats_re s")
  case Nil
  then show ?thesis
    by (auto simp: match_at_def group_at_def match_splits_seats Let_def split: if_splits)
next
  case (Cons x xs)
  define r where "r = drop (length seats_prefix) s"
  define r1 where "r1 = drop (length (seats_sign r)) r"
  define r2 where "r2 = dropWhile is_digit r1"
  from Cons have p: "prefix seats_prefix s" and d: "takeWhile is_digit r1 \<noteq> []"
    and q: "prefix seats_suffix r2" and x: "x = (r, r2, drop (length seats_suffix) r2)"
    by (auto simp: match_splits_seats Let_def r_def r1_def r2_def split: if_splits)
  from p have s: "s = seats_prefix @ r" by (auto simp: r_def prefix_def)
  have r: "r = (seats_sign r @ takeWhile is_digit r1) @ r2"
    using seats_sign_split [of r] by (simp add: r1_def r2_def)
  from q have r2: "r2 = seats_suffix @ drop (length seats_suffix) r2" by (auto simp: prefix_def)
  have "s = (seats_prefix @ (seats_sign r @ takeWhile is_digit r1) @ seats_suffix) @ drop (length seats_suffix) r2"
    using s r r2 by (metis append.assoc)
  then have whole: "take (length s - length (drop (length seats_suffix) r2)) s =
      seats_prefix @ (seats_sign r @ takeWhile is_digit r1) @ seats_suffix"
    by (rule take_length_diff)
  from r have group: "take (length r - length r2) r = seats_sign r @ takeWhile is_digit r1"
    by (rule take_length_diff)
  from Cons x p d q whole group show ?thesis
    by (simp add: match_at_def group_at_def Let_def r_def [symmetric] r1_def [symmetric]
        r2_def [symmetric])
qed

lemma FindStringSubmatch_seats:
  "FindStringSubmatch seats_re s =
     map_option (\<lambda>g. [seats_prefix @ g @ seats_suffix, g]) (scan_seats s)"
proof (induction s)
  case Nil
  then show ?case by (simp add: match_at_seats group_at_def seats_prefix_def)
next
  case (Cons c s)
  then show ?case by (simp add: match_at_seats split: option.splits)
qed

lemma parseAvailableSeats_scan:
  "parseAvailableSeats html =
     (case scan_seats html of
        None \<Rightarrow> Err (ErrorString ''could not find available seats in HTML'')
      | Some g \<Rightarrow> Atoi g)"
  by (simp add: parseAvailableSeats_def FindStringSubmatch_seats split: option.splits)

section \<open>Pages that carry a count\<close>

lemma is_countI:
  "sign = [] \<or> sign = ''-'' \<Longrightarrow> ds \<noteq> [] \<Longrightarrow> list_all is_digit ds \<Longrightarrow> is_count (sign @ ds)"
  by (cases ds) (auto simp: is_count_def)

lemma is_countE:
  assumes "is_count g"
  obtains sign ds where "g = sign @ ds" "sign = [] \<or> sign = ''-''" "ds \<noteq> []" "list_all is_digit ds"
proof (cases "g \<noteq> [] \<and> hd g = CHR ''-''")
  case True
  then have "g = ''-'' @ tl g" by (cases g) auto
  moreover from True assms have "tl g \<noteq> []" "list_all is_digit (tl g)"
    by (auto simp: is_count_def Let_def)
  ultimately show ?thesis using that [of "''-''" "tl g"] by blast
next
  case False
  with assms have "g \<noteq> []" "list_all is_digit g" by (auto simp: is_count_def Let_def)
  then show ?thesis using that [of "[]" g] by simp
qed

lemma is_count_Itoa [simp]: "is_count (Itoa w)"
  using Itoa_shape [of w] by (metis is_countI)

lemma takeWhile_digits_then:
  "list_all is_digit ds \<Longrightarrow> (r = [] \<or> \<not> is_digit (hd r)) \<Longrightarrow>
   takeWhile is_digit (ds @ r) = ds \<and> dropWhile is_digit (ds @ r) = r"
  by (induction ds; cases r) auto

lemma group_at_count:
  assumes "is_count g"
  shows "group_at (seats_prefix @ g @ seats_suffix @ rest) = Some g"
proof -
  from assms obtain sign ds where g: "g = sign @ ds" "sign = [] \<or> sign = ''-''" "ds \<noteq> []"
    "list_all is_digit ds" by (rule is_countE)
  from g(2-4) have sign: "seats_sign (g @ seats_suffix @ rest) = sign"
    by (cases ds) (auto simp: g(1) seats_sign_def)
  from g(4) have "takeWhile is_digit (ds @ seats_suffix @ rest) = ds \<and>
      dropWhile is_digit (ds @ seats_suffix @ rest) = seats_suffix @ rest"
    by (rule takeWhile_digits_then) (simp add: seats_suffix_def)
  with g(1,3) sign show ?thesis
    by (simp add: group_at_def Let_def)
qed

lemma group_at_SomeD:
  assumes "group_at s = Some g"
  shows "is_count g \<and> (\<exists>rest. s = seats_prefix @ g @ seats_suffix @ rest)"
proof -
  define r where "r = drop (length seats_prefix) s"
  define r1 where "r1 = drop (length (seats_sign r)) r"
  from assms have p: "prefix seats_prefix s" and d: "takeWhile is_digit r1 \<noteq> []"
    and q: "prefix seats_suffix (dropWhile is_digit r1)" and g: "g = seats_sign r @ takeWhile is_digit r1"
    by (auto simp: group_at_def Let_def r_def r1_def split: if_splits)
  have "is_count g"
    unfolding g by (rule is_countI) (auto simp: seats_sign_def d list_all_iff dest: set_takeWhileD)
  moreover from p have "s = seats_prefix @ r" by (auto simp: r_def prefix_def)
  moreover have "r = g @ dropWhile is_digit r1"
    using seats_sign_split [of r] by (simp add: g r1_def)
  moreover from q obtain rest where "dropWhile is_digit r1 = seats_suffix @ rest"
    by (auto simp: prefix_def)
  ultimately show ?thesis by auto
qed

lemma group_at_not_E: "c \<noteq> CHR ''E'' \<Longrightarrow> group_at (c # s) = None"
  by (simp add: group_at_def seats_prefix_def)

lemma scan_seats_skip: "list_all (\<lambda>c. c \<noteq> CHR ''E'') pre \<Longrightarrow> scan_seats (pre @ s) = scan_seats s"
  by (induction pre) (simp_all add: group_at_not_E)

lemma scan_seats_hit: "group_at s = Some g \<Longrightarrow> scan_seats s = Some g"
  by (cases s) (auto simp: group_at_def seats_prefix_def)

lemma scan_seats_None_iff:
  "scan_seats s = None \<longleftrightarrow> (\<forall>pre t. s = pre @ t \<longrightarrow> group_at t = None)"
proof (induction s)
  case Nil
  then show ?case by (simp add: group_at_def seats_prefix_def)
next
  case (Cons c s)
  show ?case
  proof
    assume n: "scan_seats (c # s) = None"
    then have here: "group_at (c # s) = None" and later: "scan_seats s = None"
      by (auto split: option.splits)
    show "\<forall>pre t. c # s = pre @ t \<longrightarrow> group_at t = None"
    proof (intro allI impI)
      fix pre t assume "c # s = pre @ t"
      then show "group_at t = None"
        using here later Cons.IH by (cases pre) auto
    qed
  next
    assume a: "\<forall>pre t. c # s = pre @ t \<longrightarrow> group_at t = None"
    then have "group_at (c # s) = None" by (metis append_Nil)
    moreover from a have "\<forall>pre t. s = pre @ t \<longrightarrow> group_at t = None"
      by (metis append_Cons)
    ultimately show "scan_seats (c # s) = None" using Cons.IH by simp
  qed
qed

lemma parseAvailableSeats_count:
  "is_count g \<Longrightarrow> parseAvailableSeats (seats_prefix @ g @ seats_suffix @ rest) = Atoi g"
  by (simp add: parseAvailableSeats_scan scan_seats_hit group_at_count)

lemma parseAvailableSeats_Itoa:
  "parseAvailableSeats (seats_prefix @ Itoa n @ seats_suffix @ rest) = Ok n"
  by (simp add: parseAvailableSeats_count)

section \<open>Properties\<close>

text \<open>
  C32: the regular-expression search agrees with the reference scanner on every
  input: \<^verbatim>\<open>FindStringSubmatch\<close> returns the leftmost occurrence with the
  longest digit run, and \<^verbatim>\<open>parseAvailableSeats\<close> is the scanner followed by
  \<^verbatim>\<open>Atoi\<close>.
\<close>

theorem parse_agrees_with_scanner:
  "FindStringSubmatch seats_re html =
     map_option (\<lambda>g. [seats_prefix @ g @ seats_suffix, g]) (scan_seats html) \<and>
   parseAvailableSeats html =
     (case scan_seats html of
        None \<Rightarrow> Err (ErrorString ''could not find available seats in HTML'')
      | Some g \<Rightarrow> Atoi g)"
  by (simp add: FindStringSubmatch_seats parseAvailableSeats_scan)

theorem parse_agrees_with_scanner_witness:
  "scan_seats (seats_prefix @ ''5'' @ seats_suffix) = Some ''5'' \<and>
   parseAvailableSeats (seats_prefix @ ''5'' @ seats_suffix) = Ok 5"
proof -
  have "scan_seats (seats_prefix @ ''5'' @ seats_suffix) = Some ''5''"
    by (simp add: seats_prefix_def group_at_def seats_sign_def seats_suffix_def is_digit_def dquote_def)
  with parse_agrees_with_scanner [of "seats_prefix @ ''5'' @ seats_suffix"] show ?thesis
    by (simp add: Atoi_def is_digit_def digits_val_def digit_val_def in_int64_def min_int64_def
        max_int64_def)
qed

text \<open>
  C34: a page that shows a count is parsed to that count. If the text before the
  seat line contains no capital E, then whatever follows the line, the parser
  returns the number that was printed, for every 64-bit number, negative ones
  included.
\<close>

theorem parse_rendered_count:
  assumes "list_all (\<lambda>c. c \<noteq> CHR ''E'') pre"
  shows "parseAvailableSeats (pre @ seats_prefix @ Itoa n @ seats_suffix @ rest) = Ok n"
  using assms
  by (simp add: parseAvailableSeats_scan scan_seats_skip scan_seats_hit group_at_count)

theorem parse_rendered_count_witness:
  "parseAvailableSeats (''<td> '' @ seats_prefix @ ''-3'' @ seats_suffix @ ''</td>'') = Ok (- 3)"
proof -
  have "Itoa (- 3) = ''-3''"
    by (simp add: Itoa_def nat_digits.simps)
  with parse_rendered_count [of "''<td> ''" "- 3" "''</td>''"] show ?thesis
    by simp
qed

text \<open>
  C35: the parser reports that it could not find the seats exactly when the
  page has no occurrence of the seat line with a count in it.
\<close>

theorem parse_not_found_iff:
  "parseAvailableSeats html = Err (ErrorString ''could not find available seats in HTML'') \<longleftrightarrow>
   \<not> (\<exists>pre g rest. is_count g \<and> html = pre @ seats_prefix @ g @ seats_suffix @ rest)"
proof -
  have found: "scan_seats html = None \<longleftrightarrow>
      \<not> (\<exists>pre g rest. is_count g \<and> html = pre @ seats_prefix @ g @ seats_suffix @ rest)"
    unfolding scan_seats_None_iff
    by (metis group_at_SomeD group_at_count not_None_eq option.distinct(1))
  have atoi: "Atoi g \<noteq> Err (ErrorString m)" for g m
    using Atoi_error_is_NumError [of g] by auto
  show ?thesis
  proof (cases "scan_seats html")
    case None
    with found show ?thesis by (simp add: parseAvailableSeats_scan)
  next
    case (Some g)
    with found atoi show ?thesis by (simp add: parseAvailableSeats_scan)
  qed
qed

theorem parse_not_found_iff_witness:
  "\<not> (\<exists>pre g rest. is_count g \<and>
        ''<html>Error</html>'' = pre @ seats_prefix @ g @ seats_suffix @ rest)"
proof -
  have "scan_seats ''<html>Error</html>'' = None"
    by (simp add: seats_prefix_def group_at_def)
  then show ?thesis
    using parse_not_found_iff [of "''<html>Error</html>''"] by (simp add: parseAvailableSeats_scan)
qed

text \<open>
  C36: a count that does not fit into 64 bits is an error of the parser: the
  seat line is found, and \<^verbatim>\<open>Atoi\<close> fails with a range error.
\<close>

theorem parse_range_error:
  assumes "ds \<noteq> []" "list_all is_digit ds" "\<not> in_int64 (int (digits_val ds))"
  shows "parseAvailableSeats (seats_prefix @ ds @ seats_suffix @ rest) =
     Err (NumError ''Atoi'' ds ErrRange)"
proof -
  from assms(1,2) have "is_count ([] @ ds)" by (intro is_countI) simp_all
  then have "parseAvailableSeats (seats_prefix @ ds @ seats_suffix @ rest) = Atoi ds"
    using parseAvailableSeats_count [of ds rest] by simp
  with assms show ?thesis by (simp add: Atoi_digits)
qed

theorem parse_range_error_witness:
  "parseAvailableSeats (seats_prefix @ ''9223372036854775808'' @ seats_suffix) =
     Err (NumError ''Atoi'' ''9223372036854775808'' ErrRange)"
  using parse_range_error [of "''9223372036854775808''" "[]"]
  by (simp add: is_digit_def digits_val_def digit_val_def in_int64_def max_int64_def min_int64_def)

end
