(* ===== verification/Notifier.thy ===== *)
theory Notifier
  imports Strconv
begin

text \<open>
  \<^verbatim>\<open>sendEmailNotification\<close>: the message it builds, the call of \<^verbatim>\<open>smtp.SendMail\<close>
  it makes and the line it logs. Whether the mail server accepts the message is
  decided outside the program, so the outcome of \<^verbatim>\<open>smtp.SendMail\<close> is an
  argument of the model. Log lines are kept as the operand lists handed to
  \<^verbatim>\<open>log.Println\<close>.
\<close>

section \<open>Log lines and mails\<close>

datatype log_arg = LStr string | LErr go_error

type_synonym log_entry = "log_arg list"

record smtp_auth =
  a_identity :: string
  a_username :: string
  a_password :: string
  a_host :: string

record mail =
  m_addr :: string
  m_auth :: smtp_auth
  m_from :: string
  m_to :: "string list"
  m_msg :: string

definition PlainAuth :: "string \<Rightarrow> string \<Rightarrow> string \<Rightarrow> string \<Rightarrow> smtp_auth" where
  "PlainAuth identity username password host =
     \<lparr>a_identity = identity, a_username = username, a_password = password, a_host = host\<rparr>"

definition crlf :: string where
  "crlf = [CHR 0x0D, CHR 0x0A]"

section \<open>sendEmailNotification\<close>

definition notification_message :: "go_int \<Rightarrow> string \<Rightarrow> string" where
  "notification_message availableSeats crn =
     ''Subject: Course Slot Available'' @ crlf @ crlf @ ''A slot is available. There are ''
       @ Itoa availableSeats @ '' seats available for you subscribe course: '' @ crn"

definition notification_mail :: "string \<Rightarrow> go_int \<Rightarrow> string \<Rightarrow> mail" where
  "notification_mail email availableSeats crn =
     (let from = ''jianznucheck@gmail.com'';
          password = ''kpuqoqjynyiplkqh'';
          smtpHost = ''smtp.gmail.com'';
          smtpPort = ''587''
      in \<lparr>m_addr = smtpHost @ '':'' @ smtpPort,
          m_auth = PlainAuth [] from password smtpHost,
          m_from = from,
          m_to = [email],
          m_msg = notification_message availableSeats crn\<rparr>)"

definition sendEmailNotification ::
    "string \<Rightarrow> go_int \<Rightarrow> string \<Rightarrow> go_error option \<Rightarrow> mail \<times> log_entry" where
  "sendEmailNotification email availableSeats crn sendMail =
     (notification_mail email availableSeats crn,
      case sendMail of
        Some err \<Rightarrow> [LStr ''Error sending email: '', LErr err]
      | None \<Rightarrow> [LStr ''Send Notification to'', LStr email, LStr ''Successfully''])"

section \<open>Basic facts\<close>

lemma sendEmailNotification_mail [simp]:
  "fst (sendEmailNotification email n crn r) = notification_mail email n crn"
  by (simp add: sendEmailNotification_def)

lemma notification_mail_to [simp]: "m_to (notification_mail email n crn) = [email]"
  by (simp add: notification_mail_def Let_def)

lemma notification_mail_msg [simp]:
  "m_msg (notification_mail email n crn) = notification_message n crn"
  by (simp add: notification_mail_def Let_def)

end
