(* ===== verification/Banner.thy ===== *)
theory Banner
  imports NuPrelude "HOL-Library.Char_ord" "HOL-Library.List_Lexorder"
begin

text \<open>
  The request that one poll sends to the registration system: the form built with
  \<^verbatim>\<open>url.Values\<close>, its encoding (\<^verbatim>\<open>Values.Encode\<close> sorts the keys and escapes
  keys and values with \<^verbatim>\<open>url.QueryEscape\<close>), the request made by
  \<^verbatim>\<open>http.NewRequest\<close> with its content type header, and the ways the exchange
  can end. What the remote server answers is decided outside the program, so the
  outcome of the exchange is an argument of the watcher's model.
\<close>

section \<open>Query escaping\<close>

definition upperhex :: string where
  "upperhex = ''0123456789ABCDEF''"

definition is_alnum :: "char \<Rightarrow> bool" where
  "is_alnum c \<longleftrightarrow> (let n = (of_char c :: nat) in
     (48 \<le> n \<and> n \<le> 57) \<or> (65 \<le> n \<and> n \<le> 90) \<or> (97 \<le> n \<and> n \<le> 122))"

definition shouldEscape :: "char \<Rightarrow> bool" where
  "shouldEscape c \<longleftrightarrow> \<not> (is_alnum c \<or> c \<in> {CHR ''-'', CHR ''_'', CHR ''.'', CHR ''~''})"

fun QueryEscape :: "string \<Rightarrow> string" where
  "QueryEscape [] = []"
| "QueryEscape (c # s) =
     (if c = CHR '' '' then CHR ''+'' # QueryEscape s
      else if shouldEscape c
        then CHR ''%'' # upperhex ! (of_char c div 16) # upperhex ! (of_char c mod 16) # QueryEscape s
      else c # QueryEscape s)"

section \<open>Form values\<close>

text \<open>
  \<^verbatim>\<open>url.Values\<close> is a map from keys to lists of values; it is kept as an
  association list with distinct keys. \<^verbatim>\<open>Add\<close> appends to the key's list.
\<close>

type_synonym url_values = "(string \<times> string list) list"

fun Add :: "url_values \<Rightarrow> string \<Rightarrow> string \<Rightarrow> url_values" where
  "Add [] k v = [(k, [v])]"
| "Add ((k', vs) # m) k v = (if k' = k then (k', vs @ [v]) # m else (k', vs) # Add m k v)"

definition encode_key :: "string \<times> string list \<Rightarrow> string list" where
  "encode_key kv = map (\<lambda>v. QueryEscape (fst kv) @ ''='' @ QueryEscape v) (snd kv)"

fun join_amp :: "string list \<Rightarrow> string" where
  "join_amp [] = []"
| "join_amp [x] = x"
| "join_amp (x # y # xs) = x @ ''&'' @ join_amp (y # xs)"

definition Encode :: "url_values \<Rightarrow> string" where
  "Encode m = join_amp (concat (map encode_key (sort_key fst m)))"

section \<open>The enrollment request\<close>

record http_request =
  r_method :: string
  r_url :: string
  r_header :: "(string \<times> string) list"
  r_body :: string

definition apiUrl :: string where
  "apiUrl = ''https://nubanner.neu.edu/StudentRegistrationSsb/ssb/searchResults/getEnrollmentInfo''"

definition enrollment_form :: "string \<Rightarrow> url_values" where
  "enrollment_form crn = Add (Add [] ''term'' ''202430'') ''courseReferenceNumber'' crn"

definition enrollment_request :: "string \<Rightarrow> http_request" where
  "enrollment_request crn =
     \<lparr>r_method = ''POST'', r_url = apiUrl,
      r_header = [(''Content-Type'', ''application/x-www-form-urlencoded'')],
      r_body = Encode (enrollment_form crn)\<rparr>"

text \<open>
  How one exchange ends: \<^verbatim>\<open>http.NewRequest\<close> fails, \<^verbatim>\<open>client.Do\<close> fails,
  reading the body fails, or the body is read.
\<close>

datatype fetch_outcome =
    NewRequestFailed go_error
  | DoFailed go_error
  | ReadFailed go_error
  | BodyRead string

section \<open>The receiving side\<close>

text \<open>
  What a server does with the body: it splits it at \<^verbatim>\<open>&\<close>, cuts each part at
  its first \<^verbatim>\<open>=\<close> and unescapes key and value. These definitions are the
  reference against which the encoding is judged; the program itself never
  decodes a form.
\<close>

definition unhex :: "char \<Rightarrow> nat option" where
  "unhex c = (let n = (of_char c :: nat) in
     if 48 \<le> n \<and> n \<le> 57 then Some (n - 48)
     else if 97 \<le> n \<and> n \<le> 102 then Some (n - 87)
     else if 65 \<le> n \<and> n \<le> 70 then Some (n - 55)
     else None)"

fun QueryUnescape :: "string \<Rightarrow> string option" where
  "QueryUnescape [] = Some []"
| "QueryUnescape (c # s) =
     (if c = CHR ''+'' then map_option (Cons CHR '' '') (QueryUnescape s)
      else if c = CHR ''%'' then
        (case s of
           h1 # h2 # r \<Rightarrow>
             (case (unhex h1, unhex h2) of
                (Some a, Some b) \<Rightarrow> map_option (Cons (char_of (16 * a + b))) (QueryUnescape r)
              | _ \<Rightarrow> None)
         | _ \<Rightarrow> None)
      else map_option (Cons c) (QueryUnescape s))"

fun split_on :: "char \<Rightarrow> string \<Rightarrow> string list" where
  "split_on c [] = [[]]"
| "split_on c (x # xs) =
     (if x = c then [] # split_on c xs
      else (x # hd (split_on c xs)) # tl (split_on c xs))"

definition cut :: "char \<Rightarrow> string \<Rightarrow> string \<times> string" where
  "cut c s = (takeWhile (\<lambda>x. x \<noteq> c) s, drop 1 (dropWhile (\<lambda>x. x \<noteq> c) s))"

definition parse_pair :: "string \<Rightarrow> (string \<times> string) option" where
  "parse_pair s =
     (case (QueryUnescape (fst (cut CHR ''='' s)), QueryUnescape (snd (cut CHR ''='' s))) of
        (Some k, Some v) \<Rightarrow> Some (k, v)
      | _ \<Rightarrow> None)"

definition ParseQuery :: "string \<Rightarrow> (string \<times> string) list option" where
  "ParseQuery s = those (map parse_pair (filter (\<lambda>p. p \<noteq> []) (split_on CHR ''&'' s)))"

definition url_safe :: "char \<Rightarrow> bool" where
  "url_safe c \<longleftrightarrow> is_alnum c \<or> c \<in> {CHR ''-'', CHR ''_'', CHR ''.'', CHR ''~'', CHR ''+'', CHR ''%''}"

section \<open>Basic facts\<close>

lemma QueryEscape_append [simp]: "QueryEscape (a @ b) = QueryEscape a @ QueryEscape b"
  by (induction a) auto

lemma enrollment_form_eq:
  "enrollment_form crn = [(''term'', [''202430'']), (''courseReferenceNumber'', [crn])]"
  by (simp add: enrollment_form_def)

lemma Encode_enrollment_form:
  "Encode (enrollment_form crn) = ''courseReferenceNumber='' @ QueryEscape crn @ ''&term=202430''"
  by (simp add: enrollment_form_eq Encode_def encode_key_def shouldEscape_def is_alnum_def
      less_eq_char_def less_char_def)

section \<open>Escaping and its inverse\<close>

lemma hex_digit:
  assumes "k < 16"
  shows "unhex (upperhex ! k) = Some k" "is_alnum (upperhex ! k)"
  using assms
  by (auto simp: less_Suc_eq numeral_eq_Suc upperhex_def unhex_def is_alnum_def)

lemma char_nibbles: "char_of (16 * (of_char c div 16) + of_char c mod 16 :: nat) = c"
  by simp

lemma unescaped_plain: "\<not> shouldEscape c \<Longrightarrow> c \<noteq> CHR ''+'' \<and> c \<noteq> CHR ''%''"
  by (auto simp: shouldEscape_def is_alnum_def)

lemma of_char_nibble: "(of_char c :: nat) div 16 < 16" "(of_char c :: nat) mod 16 < 16"
  using nat_of_char_less_256 [of c] by presburger+

lemma QueryUnescape_QueryEscape [simp]: "QueryUnescape (QueryEscape s) = Some s"
  by (induction s) (simp_all add: hex_digit of_char_nibble unescaped_plain)

lemma QueryEscape_safe: "c \<in> set (QueryEscape s) \<Longrightarrow> url_safe c"
  by (induction s)
     (auto simp: url_safe_def shouldEscape_def hex_digit of_char_nibble split: if_splits)

lemma QueryEscape_no_separator [simp]:
  "CHR ''&'' \<notin> set (QueryEscape s)" "CHR ''='' \<notin> set (QueryEscape s)"
  by (auto dest!: QueryEscape_safe simp: url_safe_def is_alnum_def)

lemma split_on_append:
  "c \<notin> set a \<Longrightarrow> split_on c (a @ c # b) = a # split_on c b"
  by (induction a) auto

lemma split_on_none: "c \<notin> set a \<Longrightarrow> split_on c a = [a]"
  by (induction a) auto

lemma cut_append: "c \<notin> set a \<Longrightarrow> cut c (a @ c # b) = (a, b)"
  by (induction a) (auto simp: cut_def)

lemma parse_pair_escaped [simp]:
  "parse_pair (QueryEscape k @ CHR ''='' # QueryEscape v) = Some (k, v)"
  by (simp add: parse_pair_def cut_append)

lemma ParseQuery_two:
  "ParseQuery (QueryEscape k @ ''='' @ QueryEscape v @ ''&'' @ QueryEscape k' @ ''='' @ QueryEscape v') =
     Some [(k, v), (k', v')]"
proof -
  let ?a = "QueryEscape k @ ''='' @ QueryEscape v" and ?b = "QueryEscape k' @ ''='' @ QueryEscape v'"
  have "split_on CHR ''&'' (?a @ CHR ''&'' # ?b) = [?a, ?b]"
    by (simp add: split_on_append split_on_none del: append_assoc)
  then show ?thesis by (simp add: ParseQuery_def)
qed

section \<open>Properties\<close>

text \<open>
  C38: the form survives the encoding. Whatever the course number of the
  request is, the body of the poll is the key \<^verbatim>\<open>courseReferenceNumber\<close> with
  the escaped course number, then the term, and a server that decodes the body
  reads exactly these two fields: no character of the course number can add a
  field, end one or change the term.
\<close>

theorem enrollment_body:
  "r_body (enrollment_request crn) =
     ''courseReferenceNumber='' @ QueryEscape crn @ ''&term=202430'' \<and>
   ParseQuery (r_body (enrollment_request crn)) =
     Some [(''courseReferenceNumber'', crn), (''term'', ''202430'')]"
proof -
  have e: "QueryEscape ''courseReferenceNumber'' = ''courseReferenceNumber''"
    "QueryEscape ''term'' = ''term''" "QueryEscape ''202430'' = ''202430''"
    by (simp_all add: shouldEscape_def is_alnum_def)
  have body: "r_body (enrollment_request crn) =
      ''courseReferenceNumber='' @ QueryEscape crn @ ''&term=202430''"
    by (simp add: enrollment_request_def Encode_enrollment_form)
  from ParseQuery_two [of "''courseReferenceNumber''" crn "''term''" "''202430''"]
  have "ParseQuery (''courseReferenceNumber='' @ QueryEscape crn @ ''&term=202430'') =
      Some [(''courseReferenceNumber'', crn), (''term'', ''202430'')]"
    by (simp only: e append.simps append_assoc)
  with body show ?thesis by (simp only: simp_thms)
qed

theorem enrollment_body_witness:
  "r_body (enrollment_request ''1&x=2'') = ''courseReferenceNumber=1%26x%3D2&term=202430'' \<and>
   ParseQuery ''courseReferenceNumber=1%26x%3D2&term=202430'' =
     Some [(''courseReferenceNumber'', ''1&x=2''), (''term'', ''202430'')]"
  using enrollment_body [of "''1&x=2''"]
  by (auto simp: shouldEscape_def is_alnum_def upperhex_def)

end
