(* ===== verification/Watcher.thy ===== *)
theory Watcher
  imports SeatsParser Notifier Banner
begin

text \<open>
  \<^verbatim>\<open>checkCourseAvailability\<close>, the goroutine that polls for one subscriber, as
  a state machine of its own: where it stands (\<open>wpc\<close>), what one pass through
  the ticker branch of its \<^verbatim>\<open>select\<close> does (\<open>poll\<close>) and what it leaves
  behind when it returns. The watcher's effects on the outside world (log lines,
  mails, requests) are returned as values; the system theory appends them to the
  global history. The stop channel and the scheduling of the \<^verbatim>\<open>select\<close> belong
  to the system theory, which owns the channel.
\<close>

section \<open>State\<close>

text \<open>
  \<open>WSelect\<close>: blocked in \<^verbatim>\<open>select\<close>; \<open>WPolling\<close>: the ticker case was chosen and
  lines 86 to 120 run; \<open>WStopping\<close>: a value was received from the stop channel;
  \<open>WReturned\<close>: the goroutine has returned. \<open>w_open_bodies\<close> counts the response
  bodies whose \<^verbatim>\<open>Close\<close> is deferred: a \<^verbatim>\<open>defer\<close> inside the loop runs only
  when the function returns.
\<close>

datatype wpc = WSelect | WPolling | WStopping | WReturned

record watcher =
  w_email :: string
  w_crn :: string
  w_pc :: wpc
  w_open_bodies :: nat

record effects =
  fx_logs :: "log_entry list"
  fx_mails :: "mail list"
  fx_requests :: "http_request list"

definition no_effects :: effects where
  "no_effects = \<lparr>fx_logs = [], fx_mails = [], fx_requests = []\<rparr>"

definition new_watcher :: "string \<Rightarrow> string \<Rightarrow> watcher" where
  "new_watcher email crn = \<lparr>w_email = email, w_crn = crn, w_pc = WSelect, w_open_bodies = 0\<rparr>"

definition live :: "watcher \<Rightarrow> bool" where
  "live w \<longleftrightarrow> w_pc w = WSelect \<or> w_pc w = WPolling"

section \<open>Steps\<close>

text \<open>Returning runs the deferred calls: every open body is closed, the ticker stops.\<close>

definition returned :: "watcher \<Rightarrow> watcher" where
  "returned w = w\<lparr>w_pc := WReturned, w_open_bodies := 0\<rparr>"

definition on_tick :: "watcher \<Rightarrow> watcher option" where
  "on_tick w = (if w_pc w = WSelect then Some (w\<lparr>w_pc := WPolling\<rparr>) else None)"

text \<open>
  One pass through the ticker branch, given how the exchange with the server ends
  and what \<^verbatim>\<open>smtp.SendMail\<close> returns should a mail be sent.
\<close>

definition poll :: "watcher \<Rightarrow> fetch_outcome \<Rightarrow> go_error option \<Rightarrow> watcher \<times> effects" where
  "poll w outcome sendMail =
    (let req = enrollment_request (w_crn w) in
     case outcome of
       NewRequestFailed err \<Rightarrow>
         (returned w, no_effects\<lparr>fx_logs := [[LStr ''Error creating request: '', LErr err]]\<rparr>)
     | DoFailed err \<Rightarrow>
         (returned w, no_effects\<lparr>fx_logs := [[LStr ''Error making request: '', LErr err]],
                                 fx_requests := [req]\<rparr>)
     | ReadFailed err \<Rightarrow>
         (returned w, no_effects\<lparr>fx_logs := [[LStr ''Error reading response body: '', LErr err]],
                                 fx_requests := [req]\<rparr>)
     | BodyRead body \<Rightarrow>
         (case parseAvailableSeats body of
            Inl err \<Rightarrow>
              (returned w, no_effects\<lparr>fx_logs := [[LStr ''Error parsing available seats: '', LErr err]],
                                      fx_requests := [req]\<rparr>)
          | Inr availableSeats \<Rightarrow>
              if 0 < sint availableSeats
              then (let (m, l) = sendEmailNotification (w_email w) availableSeats (w_crn w) sendMail
                    in (w\<lparr>w_pc := WSelect, w_open_bodies := Suc (w_open_bodies w)\<rparr>,
                        \<lparr>fx_logs = [l], fx_mails = [m], fx_requests = [req]\<rparr>))
              else (w\<lparr>w_pc := WSelect, w_open_bodies := Suc (w_open_bodies w)\<rparr>,
                    no_effects\<lparr>fx_requests := [req]\<rparr>)))"

definition on_poll :: "watcher \<Rightarrow> fetch_outcome \<Rightarrow> go_error option \<Rightarrow> (watcher \<times> effects) option" where
  "on_poll w outcome sendMail = (if w_pc w = WPolling then Some (poll w outcome sendMail) else None)"

text \<open>The outcomes on which the ticker branch ends in one of its four \<^verbatim>\<open>return\<close>s.\<close>

definition poll_fails :: "fetch_outcome \<Rightarrow> bool" where
  "poll_fails outcome \<longleftrightarrow>
     (case outcome of BodyRead body \<Rightarrow> isl (parseAvailableSeats body) | _ \<Rightarrow> True)"

text \<open>Receiving from the stop channel, and the branch that follows it.\<close>

definition on_stop :: "watcher \<Rightarrow> watcher option" where
  "on_stop w = (if w_pc w = WSelect then Some (w\<lparr>w_pc := WStopping\<rparr>) else None)"

definition on_exit :: "watcher \<Rightarrow> (watcher \<times> effects) option" where
  "on_exit w =
     (if w_pc w = WStopping
      then Some (returned w, no_effects\<lparr>fx_logs := [[LStr ''Stopping course check for'', LStr (w_email w)]]\<rparr>)
      else None)"

text \<open>
  The loop as long as only ticks arrive: each element of the list is the outcome
  of one pass through the ticker case. A watcher that has returned takes no
  further pass.
\<close>

fun polls :: "watcher \<Rightarrow> (fetch_outcome \<times> go_error option) list \<Rightarrow> watcher" where
  "polls w [] = w"
| "polls w ((outcome, sendMail) # rest) =
     (case on_tick w of
        None \<Rightarrow> w
      | Some w1 \<Rightarrow> polls (fst (poll w1 outcome sendMail)) rest)"

section \<open>Frame and control facts\<close>

lemma live_new_watcher [simp]: "live (new_watcher email crn)"
  by (simp add: live_def new_watcher_def)

lemma new_watcher_fields [simp]:
  "w_email (new_watcher email crn) = email" "w_crn (new_watcher email crn) = crn"
  "w_pc (new_watcher email crn) = WSelect" "w_open_bodies (new_watcher email crn) = 0"
  by (simp_all add: new_watcher_def)

lemma returned_fields [simp]:
  "w_email (returned w) = w_email w" "w_crn (returned w) = w_crn w"
  "w_pc (returned w) = WReturned" "w_open_bodies (returned w) = 0"
  by (simp_all add: returned_def)

lemma not_live_returned [simp]: "\<not> live (returned w)"
  by (simp add: live_def)

lemma poll_identity [simp]:
  "w_email (fst (poll w outcome sendMail)) = w_email w"
  "w_crn (fst (poll w outcome sendMail)) = w_crn w"
  by (auto simp: poll_def Let_def split: fetch_outcome.splits sum.splits prod.splits)

lemma poll_pc: "w_pc (fst (poll w outcome sendMail)) \<in> {WSelect, WReturned}"
  by (auto simp: poll_def Let_def split: fetch_outcome.splits sum.splits prod.splits)

lemma poll_pc_cases:
  "w_pc (fst (poll w outcome sendMail)) = WSelect \<or> w_pc (fst (poll w outcome sendMail)) = WReturned"
  using poll_pc [of w outcome sendMail] by auto

lemma on_tick_Some [simp]:
  "on_tick w = Some w' \<longleftrightarrow> w_pc w = WSelect \<and> w' = w\<lparr>w_pc := WPolling\<rparr>"
  by (auto simp: on_tick_def)

lemma on_stop_Some [simp]:
  "on_stop w = Some w' \<longleftrightarrow> w_pc w = WSelect \<and> w' = w\<lparr>w_pc := WStopping\<rparr>"
  by (auto simp: on_stop_def)

lemma on_poll_Some [simp]:
  "on_poll w outcome sendMail = Some r \<longleftrightarrow> w_pc w = WPolling \<and> r = poll w outcome sendMail"
  by (auto simp: on_poll_def)

lemma on_exit_Some:
  "on_exit w = Some r \<longleftrightarrow> w_pc w = WStopping \<and>
     r = (returned w, no_effects\<lparr>fx_logs := [[LStr ''Stopping course check for'', LStr (w_email w)]]\<rparr>)"
  by (auto simp: on_exit_def)

lemma poll_fails_returned: "poll_fails outcome \<Longrightarrow> fst (poll w outcome sendMail) = returned w"
  by (auto simp: poll_fails_def poll_def Let_def split: fetch_outcome.splits sum.splits)

lemma poll_fails_effects:
  "poll_fails outcome \<Longrightarrow> fx_mails (snd (poll w outcome sendMail)) = []"
  by (auto simp: poll_fails_def poll_def Let_def no_effects_def split: fetch_outcome.splits sum.splits)

lemma poll_succeeds:
  assumes "\<not> poll_fails outcome"
  shows "fst (poll w outcome sendMail) = w\<lparr>w_pc := WSelect, w_open_bodies := Suc (w_open_bodies w)\<rparr>"
  using assms
  by (auto simp: poll_fails_def poll_def Let_def split: fetch_outcome.splits sum.splits prod.splits)

lemma polls_step:
  "w_pc w = WSelect \<Longrightarrow>
   polls w ((outcome, sendMail) # rest) = polls (fst (poll (w\<lparr>w_pc := WPolling\<rparr>) outcome sendMail)) rest"
  by (simp add: on_tick_def)

lemma polls_returned [simp]: "w_pc w = WReturned \<Longrightarrow> polls w ps = w"
  by (cases ps) (auto simp: on_tick_def)

lemma polls_succeed:
  assumes "w_pc w = WSelect" "list_all (\<lambda>p. \<not> poll_fails (fst p)) ps"
  shows "polls w ps = w\<lparr>w_open_bodies := w_open_bodies w + length ps\<rparr>"
  using assms
proof (induction ps arbitrary: w)
  case Nil
  then show ?case by simp
next
  case (Cons p ps)
  obtain outcome sendMail where p: "p = (outcome, sendMail)" by (cases p)
  let ?w = "w\<lparr>w_pc := WSelect, w_open_bodies := Suc (w_open_bodies w)\<rparr>"
  from Cons.prems p have "polls w (p # ps) = polls ?w ps"
    by (simp add: polls_step poll_succeeds del: polls.simps)
  also from Cons.prems have "\<dots> = ?w\<lparr>w_open_bodies := w_open_bodies ?w + length ps\<rparr>"
    by (intro Cons.IH) simp_all
  finally show ?case using Cons.prems(1) by simp
qed

section \<open>Properties\<close>

text \<open>
  C27: a positive count is notified once. When the page is read and parses to a
  positive number, the pass sends one request, hands exactly one mail to
  \<^verbatim>\<open>smtp.SendMail\<close>, addressed to the subscriber and naming count and course,
  logs the result of the delivery, and the watcher waits for the next tick
  whether or not the delivery failed.
\<close>

theorem poll_notifies:
  assumes "parseAvailableSeats body = Ok n" "0 < sint n"
  shows "poll w (BodyRead body) sendMail =
     (w\<lparr>w_pc := WSelect, w_open_bodies := Suc (w_open_bodies w)\<rparr>,
      \<lparr>fx_logs = [snd (sendEmailNotification (w_email w) n (w_crn w) sendMail)],
       fx_mails = [notification_mail (w_email w) n (w_crn w)],
       fx_requests = [enrollment_request (w_crn w)]\<rparr>)"
  using assms by (simp add: poll_def Let_def split_beta)

theorem poll_notifies_witness:
  "poll (new_watcher ''a@neu.edu'' ''12345'') (BodyRead (seats_prefix @ ''7'' @ seats_suffix))
        (Some (ErrorString ''535 authentication failed'')) =
     ((new_watcher ''a@neu.edu'' ''12345'')\<lparr>w_open_bodies := 1\<rparr>,
      \<lparr>fx_logs = [[LStr ''Error sending email: '', LErr (ErrorString ''535 authentication failed'')]],
       fx_mails = [notification_mail ''a@neu.edu'' 7 ''12345''],
       fx_requests = [enrollment_request ''12345'']\<rparr>)"
proof -
  have "parseAvailableSeats (seats_prefix @ ''7'' @ seats_suffix) = Ok 7"
    using parseAvailableSeats_Itoa [of "7" "[]"] by (simp add: Itoa_def nat_digits.simps)
  from poll_notifies [OF this, of "new_watcher ''a@neu.edu'' ''12345''"
      "Some (ErrorString ''535 authentication failed'')"]
  show ?thesis by (simp add: new_watcher_def sendEmailNotification_def)
qed

text \<open>
  C28: a count of zero or below is not notified. The pass sends its request,
  sends no mail, logs nothing, and the watcher waits for the next tick.
\<close>

theorem poll_quiet:
  assumes "parseAvailableSeats body = Ok n" "sint n \<le> 0"
  shows "poll w (BodyRead body) sendMail =
     (w\<lparr>w_pc := WSelect, w_open_bodies := Suc (w_open_bodies w)\<rparr>,
      \<lparr>fx_logs = [], fx_mails = [], fx_requests = [enrollment_request (w_crn w)]\<rparr>)"
  using assms by (simp add: poll_def Let_def no_effects_def)

theorem poll_quiet_witness:
  "poll (new_watcher ''a@neu.edu'' ''12345'') (BodyRead (seats_prefix @ ''-2'' @ seats_suffix)) None =
     ((new_watcher ''a@neu.edu'' ''12345'')\<lparr>w_open_bodies := 1\<rparr>,
      \<lparr>fx_logs = [], fx_mails = [], fx_requests = [enrollment_request ''12345'']\<rparr>)"
proof -
  have "parseAvailableSeats (seats_prefix @ ''-2'' @ seats_suffix) = Ok (- 2)"
    using parseAvailableSeats_Itoa [of "- 2" "[]"] by (simp add: Itoa_def nat_digits.simps)
  from poll_quiet [OF this, of "new_watcher ''a@neu.edu'' ''12345''" None]
  show ?thesis by (simp add: new_watcher_def)
qed

text \<open>
  C29: a failed pass ends the watcher. If the request cannot be built or sent,
  the body cannot be read or the page cannot be parsed, the watcher returns
  (its deferred calls run), sends no mail and logs exactly one line; a request
  was sent unless building it failed.
\<close>

theorem poll_failure_returns:
  assumes "poll_fails outcome"
  shows "fst (poll w outcome sendMail) = returned w \<and>
     fx_mails (snd (poll w outcome sendMail)) = [] \<and>
     length (fx_logs (snd (poll w outcome sendMail))) = 1 \<and>
     fx_requests (snd (poll w outcome sendMail)) =
       (case outcome of NewRequestFailed e \<Rightarrow> [] | _ \<Rightarrow> [enrollment_request (w_crn w)])"
  using assms
  by (auto simp: poll_fails_def poll_def Let_def no_effects_def split: fetch_outcome.splits sum.splits)

theorem poll_failure_returns_witness:
  "poll_fails (BodyRead ''<html>session expired</html>'') \<and>
   poll (new_watcher ''a@neu.edu'' ''12345'') (BodyRead ''<html>session expired</html>'') None =
     (returned (new_watcher ''a@neu.edu'' ''12345''),
      \<lparr>fx_logs = [[LStr ''Error parsing available seats: '',
                    LErr (ErrorString ''could not find available seats in HTML'')]],
       fx_mails = [], fx_requests = [enrollment_request ''12345'']\<rparr>)"
proof -
  have p: "parseAvailableSeats ''<html>session expired</html>'' =
      Err (ErrorString ''could not find available seats in HTML'')"
    by (simp add: parseAvailableSeats_scan group_at_not_E)
  then have f: "poll_fails (BodyRead ''<html>session expired</html>'')"
    by (simp add: poll_fails_def)
  from poll_failure_returns [OF f, of "new_watcher ''a@neu.edu'' ''12345''" None] f p
  show ?thesis by (simp add: poll_def Let_def no_effects_def)
qed

text \<open>
  C31: response bodies stay open while the watcher runs. \<^verbatim>\<open>defer
  resp.Body.Close()\<close> stands inside the loop, so the bodies are closed only when
  the function returns: after any number of successful passes the watcher holds
  one open body per pass, and the first failed pass closes them all.
\<close>

theorem open_bodies_accumulate:
  assumes "w_pc w = WSelect" "list_all (\<lambda>p. \<not> poll_fails (fst p)) ps"
  shows "w_open_bodies (polls w ps) = w_open_bodies w + length ps \<and>
     (poll_fails outcome \<longrightarrow>
        polls w (ps @ (outcome, sendMail) # rest) = returned w \<and>
        w_open_bodies (polls w (ps @ (outcome, sendMail) # rest)) = 0)"
proof -
  have grow: "polls w ps = w\<lparr>w_open_bodies := w_open_bodies w + length ps\<rparr>"
    using assms by (rule polls_succeed)
  have "polls w (ps @ (outcome, sendMail) # rest) = returned w" if "poll_fails outcome"
    using assms that
  proof (induction ps arbitrary: w)
    case Nil
    then show ?case by (simp add: polls_step poll_fails_returned returned_def del: polls.simps)
  next
    case (Cons p ps)
    obtain o1 m1 where p: "p = (o1, m1)" by (cases p)
    let ?w = "w\<lparr>w_pc := WSelect, w_open_bodies := Suc (w_open_bodies w)\<rparr>"
    from Cons.prems p have "polls w ((p # ps) @ (outcome, sendMail) # rest) =
        polls ?w (ps @ (outcome, sendMail) # rest)"
      by (simp add: polls_step poll_succeeds del: polls.simps)
    also from Cons.prems have "\<dots> = returned ?w" by (intro Cons.IH) simp_all
    finally show ?case by (simp add: returned_def)
  qed
  with grow show ?thesis by simp
qed

theorem open_bodies_accumulate_witness:
  "w_open_bodies (polls (new_watcher ''a@neu.edu'' ''12345'')
      (replicate 3 (BodyRead (seats_prefix @ ''0'' @ seats_suffix), None))) = 3"
proof -
  have "parseAvailableSeats (seats_prefix @ ''0'' @ seats_suffix) = Ok 0"
    using parseAvailableSeats_Itoa [of "0" "[]"] by (simp add: Itoa_def nat_digits.simps)
  then have ok: "list_all (\<lambda>p. \<not> poll_fails (fst p))
      (replicate 3 (BodyRead (seats_prefix @ ''0'' @ seats_suffix), None))"
    by (simp add: poll_fails_def list_all_iff)
  from open_bodies_accumulate [OF _ ok, of "new_watcher ''a@neu.edu'' ''12345''"]
  show ?thesis by simp
qed

end
