(* ===== verification/Registry.thy ===== *)
theory Registry
  imports Watcher
begin

text \<open>
  The shared state of the program and its two request handlers. The state holds
  the global map \<^verbatim>\<open>subscriptions\<close>, the mutex \<^verbatim>\<open>subscriptionsMux\<close>, the
  channels made so far, the handler goroutines that gin has started, the watcher
  goroutines, and the history of what the program did to the outside world.
  \<^verbatim>\<open>startCourseCheckHandler\<close> and \<^verbatim>\<open>stopCourseCheckHandler\<close> are small-step
  functions: a handler stands at a program point, and one call tells where it
  goes next and which operation on the shared state (\<open>op\<close>) the statement at
  that point performs. A result \<open>None\<close> means that the statement blocks in the
  current state (\<^verbatim>\<open>Lock\<close> on a held mutex, a send with no receiver ready);
  a panic is the program point \<open>Panicked\<close>.
\<close>

section \<open>gin requests and responses\<close>

record gin_context =
  c_method :: string
  c_path :: string
  c_query :: "string \<rightharpoonup> string"

definition Query :: "gin_context \<Rightarrow> string \<Rightarrow> string" where
  "Query c key = (case c_query c key of None \<Rightarrow> [] | Some v \<Rightarrow> v)"

datatype body = H string string | Plain string

record response =
  status :: nat
  content :: body

definition StatusOK :: nat where
  "StatusOK = 200"

definition StatusBadRequest :: nat where
  "StatusBadRequest = 400"

definition StatusNotFound :: nat where
  "StatusNotFound = 404"

definition JSON :: "nat \<Rightarrow> body \<Rightarrow> response" where
  "JSON code obj = \<lparr>status = code, content = obj\<rparr>"

text \<open>The six responses of the two handlers (lines 39, 46, 55, 61, 71 and 76).\<close>

definition params_required :: response where
  "params_required = JSON StatusBadRequest (H ''error'' ''Email and CRN are required'')"

definition already_running :: response where
  "already_running = JSON StatusBadRequest (H ''error'' ''A check is already running for this email'')"

definition started :: "string \<Rightarrow> response" where
  "started email = JSON StatusOK (H ''message'' (''Course availability check started for '' @ email))"

definition email_required :: response where
  "email_required = JSON StatusBadRequest (H ''error'' ''Email is required'')"

definition stopped :: "string \<Rightarrow> response" where
  "stopped email = JSON StatusOK (H ''message'' (''Course check stopped for '' @ email))"

definition not_found :: response where
  "not_found = JSON StatusBadRequest (H ''error'' ''No active check found for this email'')"

section \<open>Program points\<close>

type_synonym tid = nat
type_synonym chan = nat

datatype chan_state = ChanOpen | ChanClosed

text \<open>
  One point per statement of a handler that touches shared state; the local
  variable \<^verbatim>\<open>stopChan\<close> is carried by the points at which it is in scope.
\<close>

datatype start_pc =
    StartValidate
  | StartLock
  | StartCheck
  | StartExistsUnlock
  | StartExistsRespond
  | StartMake
  | StartInsert chan
  | StartUnlock chan
  | StartGo chan
  | StartRespond

datatype stop_pc =
    StopValidate
  | StopLock
  | StopLookup
  | StopSend chan
  | StopClose chan
  | StopDelete chan
  | StopUnlock
  | StopRespond
  | StopMissUnlock
  | StopMissRespond

datatype pc = Start start_pc | Stop stop_pc | Done response | Panicked string

record handler =
  h_ctx :: gin_context
  h_pc :: pc

section \<open>The state\<close>

record sys =
  subscriptions :: "string \<rightharpoonup> chan"
  subscriptionsMux :: "tid option"
  chans :: "chan_state list"
  handlers :: "tid \<rightharpoonup> handler"
  watchers :: "chan \<rightharpoonup> watcher"
  logs :: "log_entry list"
  outbox :: "mail list"
  requests :: "http_request list"

definition init_sys :: sys where
  "init_sys = \<lparr>subscriptions = Map.empty, subscriptionsMux = None, chans = [],
     handlers = Map.empty, watchers = Map.empty, logs = [], outbox = [], requests = []\<rparr>"

section \<open>Operations on the shared state\<close>

text \<open>
  What a statement of a handler does to the shared state. \<open>Acquire\<close> and
  \<open>Release\<close> are the effects of \<^verbatim>\<open>Lock\<close> and \<^verbatim>\<open>Unlock\<close>, \<open>MakeChan\<close> of
  \<^verbatim>\<open>make(chan bool)\<close>, \<open>Insert\<close> and \<open>Delete\<close> of the map assignment and of
  \<^verbatim>\<open>delete\<close>, \<open>Spawn\<close> of the \<^verbatim>\<open>go\<close> statement, \<open>Signal\<close> of a completed
  send on a stop channel (the receiving watcher leaves its \<^verbatim>\<open>select\<close>) and
  \<open>CloseChan\<close> of \<^verbatim>\<open>close\<close>.
\<close>

datatype op =
    Skip
  | Acquire tid
  | Release
  | MakeChan
  | Insert string chan
  | Delete string
  | Spawn chan watcher
  | Signal chan
  | CloseChan chan

fun apply_op :: "op \<Rightarrow> sys \<Rightarrow> sys" where
  "apply_op Skip s = s"
| "apply_op (Acquire t) s = s\<lparr>subscriptionsMux := Some t\<rparr>"
| "apply_op Release s = s\<lparr>subscriptionsMux := None\<rparr>"
| "apply_op MakeChan s = s\<lparr>chans := chans s @ [ChanOpen]\<rparr>"
| "apply_op (Insert k c) s = s\<lparr>subscriptions := (subscriptions s)(k \<mapsto> c)\<rparr>"
| "apply_op (Delete k) s = s\<lparr>subscriptions := (subscriptions s)(k := None)\<rparr>"
| "apply_op (Spawn c w) s = s\<lparr>watchers := (watchers s)(c \<mapsto> w)\<rparr>"
| "apply_op (Signal c) s =
     s\<lparr>watchers := (watchers s)(c := map_option (\<lambda>w. w\<lparr>w_pc := WStopping\<rparr>) (watchers s c))\<rparr>"
| "apply_op (CloseChan c) s = s\<lparr>chans := (chans s)[c := ChanClosed]\<rparr>"

definition goto :: "tid \<Rightarrow> handler \<Rightarrow> pc \<Rightarrow> sys \<Rightarrow> sys" where
  "goto t h p s = s\<lparr>handlers := (handlers s)(t \<mapsto> h\<lparr>h_pc := p\<rparr>)\<rparr>"

section \<open>Mutex and channel statements\<close>

text \<open>
  Each statement takes the program point that follows it. A \<^verbatim>\<open>sync.Mutex\<close>
  has no owner: \<^verbatim>\<open>Unlock\<close> releases it whoever calls, and unlocking an unlocked
  mutex is a fatal error. The holder recorded in the state is the goroutine whose
  \<^verbatim>\<open>Lock\<close> succeeded last.
\<close>

definition Lock :: "tid \<Rightarrow> pc \<Rightarrow> sys \<Rightarrow> (pc \<times> op) option" where
  "Lock t next s = (if subscriptionsMux s = None then Some (next, Acquire t) else None)"

definition Unlock :: "pc \<Rightarrow> sys \<Rightarrow> (pc \<times> op) option" where
  "Unlock next s =
     (if subscriptionsMux s = None then Some (Panicked ''sync: unlock of unlocked mutex'', Skip)
      else Some (next, Release))"

definition is_closed :: "sys \<Rightarrow> chan \<Rightarrow> bool" where
  "is_closed s c \<longleftrightarrow> c < length (chans s) \<and> chans s ! c = ChanClosed"

definition close_chan :: "chan \<Rightarrow> pc \<Rightarrow> sys \<Rightarrow> (pc \<times> op) option" where
  "close_chan c next s =
     (if is_closed s c then Some (Panicked ''close of closed channel'', Skip)
      else Some (next, CloseChan c))"

text \<open>
  A send on an unbuffered channel completes together with a receive: the watcher
  that owns the channel must stand in its \<^verbatim>\<open>select\<close>. A send on a closed
  channel panics. Otherwise the send blocks.
\<close>

definition receiver_ready :: "sys \<Rightarrow> chan \<Rightarrow> bool" where
  "receiver_ready s c \<longleftrightarrow> (case watchers s c of None \<Rightarrow> False | Some w \<Rightarrow> w_pc w = WSelect)"

definition send_stop :: "chan \<Rightarrow> pc \<Rightarrow> sys \<Rightarrow> (pc \<times> op) option" where
  "send_stop c next s =
     (if is_closed s c then Some (Panicked ''send on closed channel'', Skip)
      else if receiver_ready s c then Some (next, Signal c)
      else None)"

section \<open>startCourseCheckHandler\<close>

fun startCourseCheckHandler :: "tid \<Rightarrow> handler \<Rightarrow> start_pc \<Rightarrow> sys \<Rightarrow> (pc \<times> op) option" where
  "startCourseCheckHandler t h StartValidate s =
     (if Query (h_ctx h) ''email'' = [] \<or> Query (h_ctx h) ''CRN'' = []
      then Some (Done params_required, Skip)
      else Some (Start StartLock, Skip))"
| "startCourseCheckHandler t h StartLock s = Lock t (Start StartCheck) s"
| "startCourseCheckHandler t h StartCheck s =
     (if subscriptions s (Query (h_ctx h) ''email'') \<noteq> None
      then Some (Start StartExistsUnlock, Skip)
      else Some (Start StartMake, Skip))"
| "startCourseCheckHandler t h StartExistsUnlock s = Unlock (Start StartExistsRespond) s"
| "startCourseCheckHandler t h StartExistsRespond s =
     Some (Done already_running, Skip)"
| "startCourseCheckHandler t h StartMake s =
     Some (Start (StartInsert (length (chans s))), MakeChan)"
| "startCourseCheckHandler t h (StartInsert stopChan) s =
     Some (Start (StartUnlock stopChan), Insert (Query (h_ctx h) ''email'') stopChan)"
| "startCourseCheckHandler t h (StartUnlock stopChan) s = Unlock (Start (StartGo stopChan)) s"
| "startCourseCheckHandler t h (StartGo stopChan) s =
     Some (Start StartRespond,
           Spawn stopChan (new_watcher (Query (h_ctx h) ''email'') (Query (h_ctx h) ''CRN'')))"
| "startCourseCheckHandler t h StartRespond s =
     Some (Done (started (Query (h_ctx h) ''email'')), Skip)"

section \<open>stopCourseCheckHandler\<close>

fun stopCourseCheckHandler :: "tid \<Rightarrow> handler \<Rightarrow> stop_pc \<Rightarrow> sys \<Rightarrow> (pc \<times> op) option" where
  "stopCourseCheckHandler t h StopValidate s =
     (if Query (h_ctx h) ''email'' = []
      then Some (Done email_required, Skip)
      else Some (Stop StopLock, Skip))"
| "stopCourseCheckHandler t h StopLock s = Lock t (Stop StopLookup) s"
| "stopCourseCheckHandler t h StopLookup s =
     (case subscriptions s (Query (h_ctx h) ''email'') of
        Some stopChan \<Rightarrow> Some (Stop (StopSend stopChan), Skip)
      | None \<Rightarrow> Some (Stop StopMissUnlock, Skip))"
| "stopCourseCheckHandler t h (StopSend stopChan) s = send_stop stopChan (Stop (StopClose stopChan)) s"
| "stopCourseCheckHandler t h (StopClose stopChan) s = close_chan stopChan (Stop (StopDelete stopChan)) s"
| "stopCourseCheckHandler t h (StopDelete stopChan) s =
     Some (Stop StopUnlock, Delete (Query (h_ctx h) ''email''))"
| "stopCourseCheckHandler t h StopUnlock s = Unlock (Stop StopRespond) s"
| "stopCourseCheckHandler t h StopRespond s =
     Some (Done (stopped (Query (h_ctx h) ''email'')), Skip)"
| "stopCourseCheckHandler t h StopMissUnlock s = Unlock (Stop StopMissRespond) s"
| "stopCourseCheckHandler t h StopMissRespond s =
     Some (Done not_found, Skip)"

section \<open>Routing and scheduling of the handlers\<close>

text \<open>
  \<^verbatim>\<open>main\<close> registers the two handlers for \<^verbatim>\<open>POST\<close>; gin answers any other
  request with 404. \<open>serve\<close> starts the goroutine of a new request and
  \<open>handler_step\<close> lets one handler execute the statement it stands at.
\<close>

definition route :: "gin_context \<Rightarrow> pc" where
  "route c =
     (if c_method c = ''POST'' \<and> c_path c = ''/start-course-check'' then Start StartValidate
      else if c_method c = ''POST'' \<and> c_path c = ''/stop-course-check'' then Stop StopValidate
      else Done (JSON StatusNotFound (Plain ''404 page not found'')))"

definition serve :: "tid \<Rightarrow> gin_context \<Rightarrow> sys \<Rightarrow> sys option" where
  "serve t c s =
     (if handlers s t = None
      then Some (s\<lparr>handlers := (handlers s)(t \<mapsto> \<lparr>h_ctx = c, h_pc = route c\<rparr>)\<rparr>)
      else None)"

definition statement :: "tid \<Rightarrow> handler \<Rightarrow> sys \<Rightarrow> (pc \<times> op) option" where
  "statement t h s =
     (case h_pc h of
        Start p \<Rightarrow> startCourseCheckHandler t h p s
      | Stop p \<Rightarrow> stopCourseCheckHandler t h p s
      | Done r \<Rightarrow> None
      | Panicked msg \<Rightarrow> None)"

definition handler_step :: "tid \<Rightarrow> sys \<Rightarrow> sys option" where
  "handler_step t s =
     (case handlers s t of
        None \<Rightarrow> None
      | Some h \<Rightarrow> map_option (\<lambda>(p, u). goto t h p (apply_op u s)) (statement t h s))"

section \<open>Field lemmas\<close>

lemmas response_defs [nu_defs] = params_required_def already_running_def started_def
  email_required_def stopped_def not_found_def

lemma goto_fields [simp]:
  "handlers (goto t h p s) = (handlers s)(t \<mapsto> h\<lparr>h_pc := p\<rparr>)"
  "subscriptions (goto t h p s) = subscriptions s"
  "subscriptionsMux (goto t h p s) = subscriptionsMux s"
  "chans (goto t h p s) = chans s"
  "watchers (goto t h p s) = watchers s"
  "logs (goto t h p s) = logs s"
  "outbox (goto t h p s) = outbox s"
  "requests (goto t h p s) = requests s"
  by (simp_all add: goto_def)

lemma apply_op_handlers [simp]: "handlers (apply_op u s) = handlers s"
  by (cases u) simp_all

lemma apply_op_history [simp]:
  "logs (apply_op u s) = logs s" "outbox (apply_op u s) = outbox s"
  "requests (apply_op u s) = requests s"
  by (cases u; simp)+

lemma is_closed_simps [simp]:
  "is_closed (s\<lparr>chans := chans s @ [ChanOpen]\<rparr>) c = is_closed s c"
  "is_closed (s\<lparr>chans := (chans s)[c0 := ChanClosed]\<rparr>) c = (is_closed s c \<or> (c = c0 \<and> c0 < length (chans s)))"
  "is_closed (s\<lparr>subscriptions := m\<rparr>) c = is_closed s c"
  "is_closed (s\<lparr>watchers := ws\<rparr>) c = is_closed s c"
  "is_closed (s\<lparr>subscriptionsMux := mx\<rparr>) c = is_closed s c"
  "is_closed (s\<lparr>handlers := hs\<rparr>) c = is_closed s c"
  "is_closed (goto t h p s) c = is_closed s c"
  by (cases "c0 < length (chans s)"; cases "c = c0";
      auto simp: is_closed_def nth_append list_update_beyond)+

lemma Lock_Some [simp]:
  "Lock t next s = Some r \<longleftrightarrow> subscriptionsMux s = None \<and> r = (next, Acquire t)"
  by (auto simp: Lock_def)

lemma Unlock_held [simp]:
  "subscriptionsMux s = Some t \<Longrightarrow> Unlock next s = Some (next, Release)"
  by (simp add: Unlock_def)

lemma close_chan_open [simp]:
  "\<not> is_closed s c \<Longrightarrow> close_chan c next s = Some (next, CloseChan c)"
  by (simp add: close_chan_def)

lemma send_stop_open [simp]:
  "\<not> is_closed s c \<Longrightarrow>
   send_stop c next s = Some r \<longleftrightarrow> receiver_ready s c \<and> r = (next, Signal c)"
  by (auto simp: send_stop_def)

end
