(* ===== verification/System.thy ===== *)
theory System
  imports Registry
begin

text \<open>
  The running program: the goroutines of the handlers and the watchers take steps
  one at a time, in any order. An \<open>action\<close> names who moves and, for a watcher's
  poll, what the outside world answers; \<open>fire\<close> executes one action and \<open>run\<close>
  a list of them. The reachable states are those a run from \<open>init_sys\<close> can end
  in. The invariant \<open>sys_inv\<close> relates the mutex, the map, the channels and the
  program points of all goroutines; every later safety property follows from it.
\<close>

section \<open>Actions\<close>

datatype action =
    Serve tid gin_context
  | Handler tid
  | Tick chan
  | Poll chan fetch_outcome "go_error option"
  | RecvClosed chan
  | Exit chan

definition apply_effects :: "effects \<Rightarrow> sys \<Rightarrow> sys" where
  "apply_effects fx s = s\<lparr>logs := logs s @ fx_logs fx, outbox := outbox s @ fx_mails fx,
     requests := requests s @ fx_requests fx\<rparr>"

definition watcher_step :: "chan \<Rightarrow> (watcher \<Rightarrow> (watcher \<times> effects) option) \<Rightarrow> sys \<Rightarrow> sys option" where
  "watcher_step c f s =
     (case watchers s c of
        None \<Rightarrow> None
      | Some w \<Rightarrow> (case f w of
                     None \<Rightarrow> None
                   | Some (w', fx) \<Rightarrow> Some (apply_effects fx (s\<lparr>watchers := (watchers s)(c \<mapsto> w')\<rparr>))))"

definition silent :: "watcher option \<Rightarrow> (watcher \<times> effects) option" where
  "silent r = map_option (\<lambda>w'. (w', no_effects)) r"

fun fire :: "action \<Rightarrow> sys \<Rightarrow> sys option" where
  "fire (Serve t c) s = serve t c s"
| "fire (Handler t) s = handler_step t s"
| "fire (Tick c) s = watcher_step c (\<lambda>w. silent (on_tick w)) s"
| "fire (Poll c outcome sendMail) s = watcher_step c (\<lambda>w. on_poll w outcome sendMail) s"
| "fire (RecvClosed c) s =
     (if is_closed s c then watcher_step c (\<lambda>w. silent (on_stop w)) s else None)"
| "fire (Exit c) s = watcher_step c on_exit s"

fun run :: "action list \<Rightarrow> sys \<Rightarrow> sys option" where
  "run [] s = Some s"
| "run (a # as) s = (case fire a s of None \<Rightarrow> None | Some s' \<Rightarrow> run as s')"

inductive reachable :: "sys \<Rightarrow> bool" where
  init: "reachable init_sys"
| step: "reachable s \<Longrightarrow> fire a s = Some s' \<Longrightarrow> reachable s'"

section \<open>Assertions at the program points\<close>

definition email_of :: "handler \<Rightarrow> string" where
  "email_of h = Query (h_ctx h) ''email''"

fun start_holds :: "start_pc \<Rightarrow> bool" where
  "start_holds StartCheck = True"
| "start_holds StartExistsUnlock = True"
| "start_holds StartMake = True"
| "start_holds (StartInsert c) = True"
| "start_holds (StartUnlock c) = True"
| "start_holds p = False"

fun stop_holds :: "stop_pc \<Rightarrow> bool" where
  "stop_holds StopLookup = True"
| "stop_holds (StopSend c) = True"
| "stop_holds (StopClose c) = True"
| "stop_holds (StopDelete c) = True"
| "stop_holds StopUnlock = True"
| "stop_holds StopMissUnlock = True"
| "stop_holds p = False"

fun holds_lock :: "pc \<Rightarrow> bool" where
  "holds_lock (Start p) = start_holds p"
| "holds_lock (Stop p) = stop_holds p"
| "holds_lock p = False"

text \<open>The channel a start handler has made and not yet handed to its watcher.\<close>

fun owned :: "pc \<Rightarrow> chan option" where
  "owned (Start (StartInsert c)) = Some c"
| "owned (Start (StartUnlock c)) = Some c"
| "owned (Start (StartGo c)) = Some c"
| "owned p = None"

definition fresh_chan :: "sys \<Rightarrow> chan \<Rightarrow> bool" where
  "fresh_chan s c \<longleftrightarrow> c < length (chans s) \<and> \<not> is_closed s c \<and> watchers s c = None"

definition stopped_watcher :: "sys \<Rightarrow> chan \<Rightarrow> bool" where
  "stopped_watcher s c \<longleftrightarrow> (case watchers s c of None \<Rightarrow> False | Some w \<Rightarrow> \<not> live w)"

fun start_at :: "sys \<Rightarrow> string \<Rightarrow> start_pc \<Rightarrow> bool" where
  "start_at s k StartMake = (subscriptions s k = None)"
| "start_at s k (StartInsert c) =
     (subscriptions s k = None \<and> fresh_chan s c \<and> (\<forall>k'. subscriptions s k' \<noteq> Some c))"
| "start_at s k (StartUnlock c) = (subscriptions s k = Some c \<and> fresh_chan s c)"
| "start_at s k (StartGo c) = (subscriptions s k = Some c \<and> fresh_chan s c)"
| "start_at s k p = True"

fun stop_at :: "sys \<Rightarrow> string \<Rightarrow> stop_pc \<Rightarrow> bool" where
  "stop_at s k (StopSend c) = (subscriptions s k = Some c \<and> \<not> is_closed s c)"
| "stop_at s k (StopClose c) = (subscriptions s k = Some c \<and> \<not> is_closed s c \<and> stopped_watcher s c)"
| "stop_at s k (StopDelete c) = (subscriptions s k = Some c \<and> is_closed s c \<and> stopped_watcher s c)"
| "stop_at s k p = True"

fun pc_at :: "sys \<Rightarrow> string \<Rightarrow> pc \<Rightarrow> bool" where
  "pc_at s k (Start p) = start_at s k p"
| "pc_at s k (Stop p) = stop_at s k p"
| "pc_at s k (Done r) = True"
| "pc_at s k (Panicked msg) = False"

section \<open>The invariant\<close>

definition inv_mutex :: "sys \<Rightarrow> bool" where
  "inv_mutex s \<longleftrightarrow>
     (\<forall>t h. handlers s t = Some h \<longrightarrow> (holds_lock (h_pc h) \<longleftrightarrow> subscriptionsMux s = Some t)) \<and>
     (\<forall>t. subscriptionsMux s = Some t \<longrightarrow> handlers s t \<noteq> None)"

definition inv_points :: "sys \<Rightarrow> bool" where
  "inv_points s \<longleftrightarrow> (\<forall>t h. handlers s t = Some h \<longrightarrow> pc_at s (email_of h) (h_pc h))"

definition inv_owner :: "sys \<Rightarrow> bool" where
  "inv_owner s \<longleftrightarrow>
     (\<forall>t t' h h' c. handlers s t = Some h \<and> handlers s t' = Some h' \<and>
        owned (h_pc h) = Some c \<and> owned (h_pc h') = Some c \<longrightarrow> t = t')"

definition inv_alloc :: "sys \<Rightarrow> bool" where
  "inv_alloc s \<longleftrightarrow>
     (\<forall>k c. subscriptions s k = Some c \<longrightarrow> c < length (chans s)) \<and>
     (\<forall>c w. watchers s c = Some w \<longrightarrow> c < length (chans s))"

definition inv_inj :: "sys \<Rightarrow> bool" where
  "inv_inj s \<longleftrightarrow>
     (\<forall>k k' c. subscriptions s k = Some c \<and> subscriptions s k' = Some c \<longrightarrow> k = k')"

definition inv_live :: "sys \<Rightarrow> bool" where
  "inv_live s \<longleftrightarrow>
     (\<forall>c w. watchers s c = Some w \<and> live w \<longrightarrow> subscriptions s (w_email w) = Some c)"

definition inv_closed :: "sys \<Rightarrow> bool" where
  "inv_closed s \<longleftrightarrow>
     (\<forall>c. is_closed s c \<longrightarrow> stopped_watcher s c \<and>
        ((\<forall>k. subscriptions s k \<noteq> Some c) \<or>
         (\<exists>t h. handlers s t = Some h \<and> h_pc h = Stop (StopDelete c))))"

definition sys_inv :: "sys \<Rightarrow> bool" where
  "sys_inv s \<longleftrightarrow> inv_mutex s \<and> inv_points s \<and> inv_owner s \<and> inv_alloc s \<and> inv_inj s \<and>
     inv_live s \<and> inv_closed s"

section \<open>What a handler may do, and when\<close>

text \<open>
  The guarantee of a handler \<open>h\<close> run by goroutine \<open>t\<close>: the condition under
  which it performs each operation. The assertions of the other goroutines are
  stable under every permitted operation.
\<close>

fun permitted :: "tid \<Rightarrow> handler \<Rightarrow> sys \<Rightarrow> op \<Rightarrow> bool" where
  "permitted t h s Skip = True"
| "permitted t h s (Acquire t') = (t' = t \<and> subscriptionsMux s = None)"
| "permitted t h s Release = (subscriptionsMux s = Some t)"
| "permitted t h s MakeChan = (subscriptionsMux s = Some t)"
| "permitted t h s (Insert k c) =
     (subscriptionsMux s = Some t \<and> k = email_of h \<and> owned (h_pc h) = Some c \<and>
      subscriptions s k = None \<and> fresh_chan s c \<and> (\<forall>k'. subscriptions s k' \<noteq> Some c))"
| "permitted t h s (Delete k) =
     (subscriptionsMux s = Some t \<and> k = email_of h \<and>
      (\<exists>c. h_pc h = Stop (StopDelete c) \<and> subscriptions s k = Some c \<and> stopped_watcher s c))"
| "permitted t h s (Spawn c w) =
     (owned (h_pc h) = Some c \<and> fresh_chan s c \<and> subscriptions s (w_email w) = Some c)"
| "permitted t h s (Signal c) = (subscriptionsMux s = Some t \<and> receiver_ready s c)"
| "permitted t h s (CloseChan c) =
     (subscriptionsMux s = Some t \<and> c < length (chans s) \<and> \<not> is_closed s c \<and> stopped_watcher s c)"

text \<open>
  What the step from \<open>h_pc h\<close> to \<open>p'\<close> with operation \<open>u\<close> owes to the
  invariant on its own account: the assertion at \<open>p'\<close> holds afterwards, \<open>p'\<close>
  is inside the critical section exactly if \<open>t\<close> then holds the mutex, a channel
  owned at \<open>p'\<close> was owned before or has just been made, and the point after a
  \<^verbatim>\<open>close\<close> is left only by the \<^verbatim>\<open>delete\<close>.
\<close>

definition local_ok :: "tid \<Rightarrow> handler \<Rightarrow> sys \<Rightarrow> pc \<Rightarrow> op \<Rightarrow> bool" where
  "local_ok t h s p' u \<longleftrightarrow>
     pc_at (apply_op u s) (email_of h) p' \<and>
     (holds_lock p' \<longleftrightarrow> subscriptionsMux (apply_op u s) = Some t) \<and>
     (owned p' = None \<or> owned p' = owned (h_pc h) \<or> (u = MakeChan \<and> owned p' = Some (length (chans s)))) \<and>
     (case u of CloseChan c \<Rightarrow> p' = Stop (StopDelete c) | _ \<Rightarrow> True) \<and>
     (case h_pc h of Stop (StopDelete c) \<Rightarrow> u = Delete (email_of h) | _ \<Rightarrow> True)"

section \<open>Unfolding the invariant\<close>

lemmas inv_defs [nu_inv] =
  inv_mutex_def inv_points_def inv_owner_def inv_alloc_def inv_inj_def inv_live_def inv_closed_def

end
