(* ===== verification/Invariants.thy ===== *)
theory Invariants
  imports System
begin

text \<open>
  Proof that \<open>sys_inv\<close> holds in every reachable state, in the style of Owicki
  and Gries. The assertions at the program points are stable under every
  operation another goroutine is permitted to perform (\<open>pc_at_rely\<close>); each
  statement of a handler is permitted where it stands and establishes the
  assertion of the point it leads to (\<open>start_obligations\<close>, \<open>stop_obligations\<close>);
  the global clauses are kept by every permitted operation. \<open>sys_inv_step\<close>
  combines the three for one handler step, \<open>fire_inv\<close> covers all actions and
  \<open>reachable_inv\<close> is the induction over the reachable states.
\<close>

section \<open>Frame\<close>

lemma email_of_pc [simp]: "email_of (h\<lparr>h_pc := p\<rparr>) = email_of h"
  by (simp add: email_of_def)

lemma fresh_chan_cong:
  "chans s' = chans s \<Longrightarrow> watchers s' = watchers s \<Longrightarrow> fresh_chan s' c = fresh_chan s c"
  by (simp add: fresh_chan_def is_closed_def)

lemma stopped_watcher_cong:
  "watchers s' = watchers s \<Longrightarrow> stopped_watcher s' c = stopped_watcher s c"
  by (simp add: stopped_watcher_def)

lemma is_closed_cong: "chans s' = chans s \<Longrightarrow> is_closed s' c = is_closed s c"
  by (simp add: is_closed_def)

lemma start_at_cong:
  "subscriptions s' = subscriptions s \<Longrightarrow> chans s' = chans s \<Longrightarrow> watchers s' = watchers s \<Longrightarrow>
   start_at s' k p = start_at s k p"
  by (cases p) (simp_all add: fresh_chan_cong [of s' s])

lemma stop_at_cong:
  "subscriptions s' = subscriptions s \<Longrightarrow> chans s' = chans s \<Longrightarrow> watchers s' = watchers s \<Longrightarrow>
   stop_at s' k p = stop_at s k p"
  by (cases p) (simp_all add: is_closed_cong [of s' s] stopped_watcher_cong [of s' s])

lemma pc_at_cong:
  "subscriptions s' = subscriptions s \<Longrightarrow> chans s' = chans s \<Longrightarrow> watchers s' = watchers s \<Longrightarrow>
   pc_at s' k p = pc_at s k p"
  by (cases p) (simp_all add: start_at_cong [of s' s] stop_at_cong [of s' s])

lemma pc_at_frame [simp]:
  "pc_at (goto t h p s) k q = pc_at s k q"
  "pc_at (s\<lparr>subscriptionsMux := m\<rparr>) k q = pc_at s k q"
  "pc_at (s\<lparr>handlers := hs\<rparr>) k q = pc_at s k q"
  "pc_at (apply_effects fx s) k q = pc_at s k q"
  by (rule pc_at_cong; simp add: apply_effects_def)+

section \<open>Stability of the assertions under each operation\<close>

lemma receiver_readyD:
  "receiver_ready s c \<Longrightarrow> \<exists>w. watchers s c = Some w \<and> w_pc w = WSelect \<and> live w"
  by (auto simp: receiver_ready_def live_def split: option.splits)

lemma stopped_watcherD:
  "stopped_watcher s c \<Longrightarrow> \<exists>w. watchers s c = Some w \<and> \<not> live w"
  by (auto simp: stopped_watcher_def split: option.splits)

lemma start_at_stable:
  assumes "start_at s k p"
  shows "start_at (apply_op Skip s) k p"
    and "start_at (apply_op (Acquire t) s) k p"
    and "start_at (apply_op Release s) k p"
    and "start_at (apply_op MakeChan s) k p"
    and "\<not> start_holds p \<Longrightarrow> subscriptions s k0 = None \<Longrightarrow> start_at (apply_op (Insert k0 c0) s) k p"
    and "\<not> start_holds p \<Longrightarrow> subscriptions s k0 = Some c0 \<Longrightarrow> watchers s c0 \<noteq> None \<Longrightarrow>
         start_at (apply_op (Delete k0) s) k p"
    and "owned (Start p) \<noteq> Some c0 \<Longrightarrow> watchers s c0 = None \<Longrightarrow> start_at (apply_op (Spawn c0 w) s) k p"
    and "watchers s c0 \<noteq> None \<Longrightarrow> start_at (apply_op (Signal c0) s) k p"
    and "\<not> start_holds p \<Longrightarrow> watchers s c0 \<noteq> None \<Longrightarrow> start_at (apply_op (CloseChan c0) s) k p"
  using assms by (cases p; auto simp: fresh_chan_def)+

lemma stop_at_stable:
  assumes "stop_at s k p"
  shows "stop_at (apply_op Skip s) k p"
    and "stop_at (apply_op (Acquire t) s) k p"
    and "stop_at (apply_op Release s) k p"
    and "stop_at (apply_op MakeChan s) k p"
    and "\<not> stop_holds p \<Longrightarrow> stop_at (apply_op (Insert k0 c0) s) k p"
    and "\<not> stop_holds p \<Longrightarrow> stop_at (apply_op (Delete k0) s) k p"
    and "watchers s c0 = None \<Longrightarrow> stop_at (apply_op (Spawn c0 w) s) k p"
    and "receiver_ready s c0 \<Longrightarrow> stop_at (apply_op (Signal c0) s) k p"
    and "\<not> stop_holds p \<Longrightarrow> stop_at (apply_op (CloseChan c0) s) k p"
  using assms by (cases p; auto simp: stopped_watcher_def dest!: receiver_readyD)+

text \<open>
  Rely: an operation that goroutine \<open>t\<close> is permitted to perform keeps the
  assertion of any goroutine that stands outside the critical section while
  \<open>t\<close> holds the mutex and that does not own the channel \<open>t\<close> owns.
\<close>

lemma pc_at_rely:
  assumes "permitted t h s u" and "pc_at s k q"
    and "subscriptionsMux s = Some t \<Longrightarrow> \<not> holds_lock q"
    and "owned q = None \<or> owned q \<noteq> owned (h_pc h)"
  shows "pc_at (apply_op u s) k q"
proof (cases q)
  case (Start p)
  with assms show ?thesis
    by (cases u) (auto dest!: stopped_watcherD simp: start_at_stable fresh_chan_def receiver_ready_def
        simp del: apply_op.simps split: option.splits)
next
  case (Stop p)
  with assms show ?thesis
    by (cases u) (auto simp: stop_at_stable fresh_chan_def simp del: apply_op.simps)
qed (use assms in auto)


section \<open>The global clauses under a permitted operation\<close>

lemma owned_alloc: "pc_at s k q \<Longrightarrow> owned q = Some c \<Longrightarrow> c < length (chans s)"
  by (cases q; cases "case q of Start p \<Rightarrow> p") (auto simp: fresh_chan_def)

lemma inv_frame [simp]:
  "inv_alloc (goto t h p s) = inv_alloc s"
  "inv_inj (goto t h p s) = inv_inj s"
  "inv_live (goto t h p s) = inv_live s"
  by (simp_all add: inv_defs)

lemma inv_alloc_op: "permitted t h s u \<Longrightarrow> inv_alloc s \<Longrightarrow> inv_alloc (apply_op u s)"
  by (cases u) (auto simp: inv_alloc_def fresh_chan_def less_Suc_eq dest!: receiver_readyD)

lemma inv_inj_op: "permitted t h s u \<Longrightarrow> inv_inj s \<Longrightarrow> inv_inj (apply_op u s)"
  by (cases u) (auto simp: inv_inj_def dest!: receiver_readyD)

lemma inv_live_op: "permitted t h s u \<Longrightarrow> inv_live s \<Longrightarrow> inv_live (apply_op u s)"
  by (cases u; fastforce simp: inv_live_def live_def stopped_watcher_def fresh_chan_def
      dest!: receiver_readyD split: option.splits)


section \<open>One step of a handler keeps the invariant\<close>

lemma sys_invD:
  assumes "sys_inv s"
  shows "inv_mutex s" "inv_points s" "inv_owner s" "inv_alloc s" "inv_inj s" "inv_live s" "inv_closed s"
  using assms by (simp_all add: sys_inv_def)

lemma inv_pointsD: "inv_points s \<Longrightarrow> handlers s t = Some h \<Longrightarrow> pc_at s (email_of h) (h_pc h)"
  by (simp add: inv_points_def)

lemma inv_mutex_holds:
  "inv_mutex s \<Longrightarrow> handlers s t = Some h \<Longrightarrow> holds_lock (h_pc h) \<longleftrightarrow> subscriptionsMux s = Some t"
  by (simp add: inv_mutex_def)

lemma inv_ownerD:
  "inv_owner s \<Longrightarrow> handlers s t = Some h \<Longrightarrow> handlers s t' = Some h' \<Longrightarrow> t' \<noteq> t \<Longrightarrow>
   owned (h_pc h') = None \<or> owned (h_pc h') \<noteq> owned (h_pc h)"
  unfolding inv_owner_def by (metis not_None_eq)

lemma step_mutex:
  assumes "inv_mutex s" "handlers s t = Some h" "permitted t h s u" "local_ok t h s p' u"
  shows "inv_mutex (goto t h p' (apply_op u s))"
  using assms by (cases u) (auto simp: inv_mutex_def local_ok_def)

lemma step_points:
  assumes "sys_inv s" "handlers s t = Some h" "permitted t h s u" "local_ok t h s p' u"
  shows "inv_points (goto t h p' (apply_op u s))"
  unfolding inv_points_def
proof (intro allI impI)
  fix t' h'
  assume h': "handlers (goto t h p' (apply_op u s)) t' = Some h'"
  show "pc_at (goto t h p' (apply_op u s)) (email_of h') (h_pc h')"
  proof (cases "t' = t")
    case True
    with h' assms(4) show ?thesis by (auto simp: local_ok_def)
  next
    case False
    with h' have old: "handlers s t' = Some h'" by simp
    from assms(1) old have "pc_at s (email_of h') (h_pc h')"
      by (simp add: sys_invD inv_pointsD)
    moreover from assms(1,2) old False have "subscriptionsMux s = Some t \<Longrightarrow> \<not> holds_lock (h_pc h')"
      by (auto simp: inv_mutex_holds [OF sys_invD(1)])
    moreover from assms(1,2) old False have "owned (h_pc h') = None \<or> owned (h_pc h') \<noteq> owned (h_pc h)"
      by (rule inv_ownerD [OF sys_invD(3)])
    ultimately have "pc_at (apply_op u s) (email_of h') (h_pc h')"
      using assms(3) by (intro pc_at_rely)
    then show ?thesis by simp
  qed
qed


lemma step_owner:
  assumes "sys_inv s" "handlers s t = Some h" "local_ok t h s p' u"
  shows "inv_owner (goto t h p' (apply_op u s))"
  unfolding inv_owner_def
proof (intro allI impI, elim conjE)
  fix a b ha hb c
  assume a: "handlers (goto t h p' (apply_op u s)) a = Some ha"
    and b: "handlers (goto t h p' (apply_op u s)) b = Some hb"
    and oa: "owned (h_pc ha) = Some c" and ob: "owned (h_pc hb) = Some c"
  have other: "x = t" if "handlers s x = Some hx" "owned (h_pc hx) = Some c" "owned p' = Some c" for x hx
  proof (rule ccontr)
    assume "x \<noteq> t"
    from that(1,2) assms(1) have "c < length (chans s)"
      by (auto dest: inv_pointsD [OF sys_invD(2)] owned_alloc)
    moreover from \<open>x \<noteq> t\<close> that(1,2) assms(1,2) have "owned (h_pc h) \<noteq> Some c"
      using inv_ownerD [OF sys_invD(3), of s t h x hx] by auto
    ultimately show False using assms(3) that(3) by (auto simp: local_ok_def)
  qed
  show "a = b"
  proof (cases "a = t"; cases "b = t")
    assume "a \<noteq> t" "b \<noteq> t"
    with a b oa ob assms(1) show ?thesis
      by (auto simp: inv_owner_def dest!: sys_invD(3))
  qed (use a b oa ob other in \<open>auto split: if_splits\<close>)
qed

lemma is_closed_op:
  "is_closed (apply_op u s) c \<Longrightarrow> is_closed s c \<or> u = CloseChan c"
  by (cases u) (auto simp: apply_op.simps(8))

lemma stopped_watcher_op:
  "stopped_watcher s c \<Longrightarrow> permitted t h s u \<Longrightarrow> stopped_watcher (apply_op u s) c"
  by (cases u) (auto simp: stopped_watcher_def fresh_chan_def live_def dest!: receiver_readyD)

lemma unregistered_op:
  "\<forall>k. subscriptions s k \<noteq> Some c \<Longrightarrow> is_closed s c \<Longrightarrow> permitted t h s u \<Longrightarrow>
   \<forall>k. subscriptions (apply_op u s) k \<noteq> Some c"
  by (cases u) (auto simp: fresh_chan_def apply_op.simps(8))

lemma step_closed:
  assumes "sys_inv s" "handlers s t = Some h" "permitted t h s u" "local_ok t h s p' u"
  shows "inv_closed (goto t h p' (apply_op u s))"
  unfolding inv_closed_def
proof (intro allI impI)
  let ?s' = "goto t h p' (apply_op u s)"
  fix c
  assume "is_closed ?s' c"
  then have "is_closed (apply_op u s) c" by simp
  then consider (old) "is_closed s c" | (new) "u = CloseChan c" "\<not> is_closed s c"
    using is_closed_op by blast
  then show "stopped_watcher ?s' c \<and>
     ((\<forall>k. subscriptions ?s' k \<noteq> Some c) \<or> (\<exists>t' h'. handlers ?s' t' = Some h' \<and> h_pc h' = Stop (StopDelete c)))"
  proof cases
    case new
    with assms(3,4) show ?thesis
      by (auto simp: local_ok_def stopped_watcher_def)
  next
    case old
    then have sw: "stopped_watcher s c"
      and reg: "(\<forall>k. subscriptions s k \<noteq> Some c) \<or> (\<exists>x hx. handlers s x = Some hx \<and> h_pc hx = Stop (StopDelete c))"
      using sys_invD(7) [OF assms(1)] unfolding inv_closed_def by blast+
    from sw assms(3) have "stopped_watcher ?s' c"
      using stopped_watcher_op [of s c t h u] by (simp add: stopped_watcher_def)
    moreover from reg have "(\<forall>k. subscriptions ?s' k \<noteq> Some c) \<or>
        (\<exists>t' h'. handlers ?s' t' = Some h' \<and> h_pc h' = Stop (StopDelete c))"
    proof
      assume "\<forall>k. subscriptions s k \<noteq> Some c"
      with old assms(3) show ?thesis
        using unregistered_op [of s c t h u] by simp
    next
      assume "\<exists>x hx. handlers s x = Some hx \<and> h_pc hx = Stop (StopDelete c)"
      then obtain x hx where x: "handlers s x = Some hx" "h_pc hx = Stop (StopDelete c)" by blast
      show ?thesis
      proof (cases "x = t")
        case False
        with x show ?thesis by auto
      next
        case True
        with x assms(2,4) have u: "u = Delete (email_of h)" and pc: "h_pc h = Stop (StopDelete c)"
          by (auto simp: local_ok_def)
        with assms(3) have "subscriptions s (email_of h) = Some c" by auto
        with assms(1) have "\<forall>k. subscriptions ?s' k \<noteq> Some c"
          using u by (auto simp: inv_inj_def dest!: sys_invD(5))
        then show ?thesis ..
      qed
    qed
    ultimately show ?thesis ..
  qed
qed

theorem sys_inv_step:
  assumes "sys_inv s" "handlers s t = Some h" "permitted t h s u" "local_ok t h s p' u"
  shows "sys_inv (goto t h p' (apply_op u s))"
  unfolding sys_inv_def
  using assms
  by (simp add: step_mutex step_points step_owner step_closed sys_invD
      inv_alloc_op inv_inj_op inv_live_op)


section \<open>The handlers meet their obligations\<close>

lemma registered_open:
  assumes "sys_inv s" "handlers s t = Some h" "subscriptionsMux s = Some t"
    and "subscriptions s k = Some c" "\<forall>c'. h_pc h \<noteq> Stop (StopDelete c')"
  shows "\<not> is_closed s c"
proof
  assume "is_closed s c"
  with assms(1,4) obtain x hx where x: "handlers s x = Some hx" "h_pc hx = Stop (StopDelete c)"
    using sys_invD(7) [OF assms(1)] unfolding inv_closed_def by blast
  then have "subscriptionsMux s = Some x"
    using inv_mutex_holds [OF sys_invD(1) [OF assms(1)], of x hx] by simp
  with assms(2,3,5) x show False by auto
qed

lemma inv_alloc_fresh:
  assumes "inv_alloc s"
  shows "watchers s (length (chans s)) = None" "subscriptions s k \<noteq> Some (length (chans s))"
  using assms by (fastforce simp: inv_alloc_def)+

lemma inv_alloc_registered: "inv_alloc s \<Longrightarrow> subscriptions s k = Some c \<Longrightarrow> c < length (chans s)"
  by (auto simp: inv_alloc_def)

lemma start_obligations:
  assumes "sys_inv s" "handlers s t = Some h" "h_pc h = Start p"
    and "startCourseCheckHandler t h p s = Some (p', u)"
  shows "permitted t h s u \<and> local_ok t h s p' u"
proof -
  from assms(1-3) have at: "start_at s (email_of h) p"
    using inv_pointsD [OF sys_invD(2)] by fastforce
  from assms(1-3) have mx: "start_holds p \<longleftrightarrow> subscriptionsMux s = Some t"
    using inv_mutex_holds [OF sys_invD(1)] by fastforce
  from assms(1) have al: "inv_alloc s" by (rule sys_invD)
  show ?thesis
    using assms(3,4) at mx
    by (cases p) (auto simp: local_ok_def email_of_def fresh_chan_def inv_alloc_fresh [OF al]
        Unlock_def is_closed_def split: if_splits)
qed

lemma stop_obligations:
  assumes "sys_inv s" "handlers s t = Some h" "h_pc h = Stop p"
    and "stopCourseCheckHandler t h p s = Some (p', u)"
  shows "permitted t h s u \<and> local_ok t h s p' u"
proof -
  from assms(1-3) have at: "stop_at s (email_of h) p"
    using inv_pointsD [OF sys_invD(2)] by fastforce
  from assms(1-3) have mx: "stop_holds p \<longleftrightarrow> subscriptionsMux s = Some t"
    using inv_mutex_holds [OF sys_invD(1)] by fastforce
  from assms(1) have al: "inv_alloc s" by (rule sys_invD)
  note op = registered_open [OF assms(1,2)]
  show ?thesis
  proof (cases p)
    case StopLookup
    with assms(3,4) at mx op [of "email_of h"] show ?thesis
      by (auto simp: local_ok_def email_of_def split: option.splits)
  next
    case (StopSend c)
    with assms(3,4) at mx show ?thesis
      by (auto simp: local_ok_def stopped_watcher_def live_def dest!: receiver_readyD)
  next
    case (StopClose c)
    with assms(3,4) at mx inv_alloc_registered [OF al, of "email_of h" c] show ?thesis
      by (auto simp: local_ok_def stopped_watcher_def)
  next
    case (StopDelete c)
    with assms(3,4) at mx show ?thesis
      by (auto simp: local_ok_def email_of_def)
  qed (use assms(3,4) at mx in \<open>auto simp: local_ok_def Unlock_def split: if_splits\<close>)
qed


lemma handler_step_inv:
  assumes "sys_inv s" "handler_step t s = Some s'"
  shows "sys_inv s'"
proof -
  from assms(2) obtain h p' u where h: "handlers s t = Some h"
    and st: "statement t h s = Some (p', u)" and s': "s' = goto t h p' (apply_op u s)"
    by (auto simp: handler_step_def split: option.splits)
  from st assms(1) h have "permitted t h s u \<and> local_ok t h s p' u"
    by (auto simp: statement_def split: pc.splits dest: start_obligations stop_obligations)
  with assms(1) h show ?thesis
    unfolding s' by (intro sys_inv_step) auto
qed

section \<open>Steps of the watchers and of gin\<close>

lemma pc_at_watcher:
  assumes "pc_at s k q" "watchers s c = Some w" "live w' \<longrightarrow> live w"
  shows "pc_at (s\<lparr>watchers := (watchers s)(c \<mapsto> w')\<rparr>) k q"
proof (cases q)
  case (Start p)
  with assms show ?thesis by (cases p) (auto simp: fresh_chan_def)
next
  case (Stop p)
  with assms show ?thesis by (cases p) (auto simp: stopped_watcher_def)
qed (use assms in auto)

lemma sys_inv_effects [simp]: "sys_inv (apply_effects fx s) = sys_inv s"
  by (simp add: sys_inv_def inv_defs apply_effects_def is_closed_def stopped_watcher_def
      pc_at_cong [of "s\<lparr>logs := a, outbox := b, requests := c\<rparr>" s for a b c])

lemma sys_inv_watcher:
  assumes "sys_inv s" "watchers s c = Some w" "w_email w' = w_email w" "live w' \<longrightarrow> live w"
  shows "sys_inv (s\<lparr>watchers := (watchers s)(c \<mapsto> w')\<rparr>)"
  unfolding sys_inv_def
proof (intro conjI)
  let ?s' = "s\<lparr>watchers := (watchers s)(c \<mapsto> w')\<rparr>"
  from assms(1) show "inv_mutex ?s'" "inv_owner ?s'" "inv_inj ?s'"
    by (simp_all add: sys_inv_def inv_defs)
  from assms(1,2) show "inv_alloc ?s'"
    by (auto simp: sys_inv_def inv_alloc_def)
  from assms show "inv_points ?s'"
    by (auto simp: sys_inv_def inv_points_def intro: pc_at_watcher)
  from assms show "inv_live ?s'"
    by (auto simp: sys_inv_def inv_live_def)
  from assms show "inv_closed ?s'"
    by (auto simp: sys_inv_def inv_closed_def stopped_watcher_def)
qed


lemma poll_keeps:
  "poll w outcome sendMail = (w', fx) \<Longrightarrow> w_email w' = w_email w \<and> w_crn w' = w_crn w"
  using poll_identity [of w outcome sendMail] by simp

lemma watcher_step_inv:
  assumes "sys_inv s" "watcher_step c f s = Some s'"
    and "\<And>w w' fx. f w = Some (w', fx) \<Longrightarrow> w_email w' = w_email w \<and> (live w' \<longrightarrow> live w)"
  shows "sys_inv s'"
proof -
  from assms(2) obtain w w' fx where "watchers s c = Some w" "f w = Some (w', fx)"
    and "s' = apply_effects fx (s\<lparr>watchers := (watchers s)(c \<mapsto> w')\<rparr>)"
    by (auto simp: watcher_step_def split: option.splits)
  with assms(1,3) show ?thesis
    by (auto intro!: sys_inv_watcher)
qed

lemma serve_inv:
  assumes "sys_inv s" "serve t c s = Some s'"
  shows "sys_inv s'"
proof -
  from assms(2) have new: "handlers s t = None"
    and s': "s' = s\<lparr>handlers := (handlers s)(t \<mapsto> \<lparr>h_ctx = c, h_pc = route c\<rparr>)\<rparr>"
    by (auto simp: serve_def split: if_splits)
  have r: "\<not> holds_lock (route c)" "owned (route c) = None" "pc_at s k (route c)"
    "\<forall>c'. route c \<noteq> Stop (StopDelete c')" for k
    by (simp_all add: route_def)
  let ?s' = "s\<lparr>handlers := (handlers s)(t \<mapsto> \<lparr>h_ctx = c, h_pc = route c\<rparr>)\<rparr>"
  show ?thesis
    unfolding s' sys_inv_def
  proof (intro conjI)
    from assms(1) new r show "inv_mutex ?s'" "inv_points ?s'" "inv_owner ?s'"
      by (auto simp: sys_inv_def inv_mutex_def inv_points_def inv_owner_def)
    from assms(1) show "inv_alloc ?s'" "inv_inj ?s'" "inv_live ?s'"
      by (simp_all add: sys_inv_def inv_alloc_def inv_inj_def inv_live_def)
    show "inv_closed ?s'"
      unfolding inv_closed_def
    proof (intro allI impI)
      fix c'
      assume "is_closed ?s' c'"
      then have sw: "stopped_watcher s c'"
        and reg: "(\<forall>k. subscriptions s k \<noteq> Some c') \<or>
          (\<exists>x hx. handlers s x = Some hx \<and> h_pc hx = Stop (StopDelete c'))"
        using sys_invD(7) [OF assms(1)] unfolding inv_closed_def by simp_all
      from reg have "(\<forall>k. subscriptions ?s' k \<noteq> Some c') \<or>
          (\<exists>x hx. handlers ?s' x = Some hx \<and> h_pc hx = Stop (StopDelete c'))"
      proof
        assume "\<forall>k. subscriptions s k \<noteq> Some c'"
        then show ?thesis by simp
      next
        assume "\<exists>x hx. handlers s x = Some hx \<and> h_pc hx = Stop (StopDelete c')"
        then obtain x hx where x: "handlers s x = Some hx" "h_pc hx = Stop (StopDelete c')"
          by blast
        with new have "handlers ?s' x = Some hx" by auto
        with x(2) show ?thesis by blast
      qed
      with sw show "stopped_watcher ?s' c' \<and> ((\<forall>k. subscriptions ?s' k \<noteq> Some c') \<or>
          (\<exists>x hx. handlers ?s' x = Some hx \<and> h_pc hx = Stop (StopDelete c')))"
        by (simp add: stopped_watcher_def)
    qed
  qed
qed

lemma sys_inv_init: "sys_inv init_sys"
  by (simp add: sys_inv_def inv_defs init_sys_def is_closed_def)

theorem fire_inv:
  assumes "sys_inv s" "fire a s = Some s'"
  shows "sys_inv s'"
proof (cases a)
  case (Serve t c)
  with assms show ?thesis by (auto intro: serve_inv)
next
  case (Handler t)
  with assms show ?thesis by (auto intro: handler_step_inv)
next
  case (Tick c)
  with assms show ?thesis
    by (auto elim!: watcher_step_inv simp: silent_def live_def)
next
  case (Poll c outcome sendMail)
  with assms show ?thesis
    by (auto elim!: watcher_step_inv simp: live_def dest: poll_keeps [OF sym])
next
  case (RecvClosed c)
  with assms show ?thesis
    by (auto elim!: watcher_step_inv simp: silent_def live_def split: if_splits)
next
  case (Exit c)
  with assms show ?thesis
    by (auto elim!: watcher_step_inv simp: on_exit_Some)
qed

theorem reachable_inv: "reachable s \<Longrightarrow> sys_inv s"
  by (induction rule: reachable.induct) (auto intro: sys_inv_init fire_inv)

end
