(* ===== verification/Scenarios.thy ===== *)
theory Scenarios
  imports Invariants
begin

text \<open>
  Concrete requests and runs on which the theorems of the development are
  exercised: a subscriber issues a start request, its watcher polls, a stop
  request arrives. Each run is evaluated by the simplifier from the definitions
  of the model; the final states are reachable states of the system.
\<close>

section \<open>Requests and schedules\<close>

definition start_req :: "string \<Rightarrow> string \<Rightarrow> gin_context" where
  "start_req email crn = \<lparr>c_method = ''POST'', c_path = ''/start-course-check'',
     c_query = [''email'' \<mapsto> email, ''CRN'' \<mapsto> crn]\<rparr>"

definition stop_req :: "string \<Rightarrow> gin_context" where
  "stop_req email = \<lparr>c_method = ''POST'', c_path = ''/stop-course-check'',
     c_query = [''email'' \<mapsto> email]\<rparr>"

text \<open>
  A request served by goroutine \<open>t\<close> whose handler then executes \<open>n\<close>
  statements without interruption. A start request that succeeds takes eight
  statements, as does a stop request that succeeds; a request refused inside the
  critical section takes five.
\<close>

definition request :: "tid \<Rightarrow> gin_context \<Rightarrow> nat \<Rightarrow> action list" where
  "request t c n = Serve t c # replicate n (Handler t)"

definition subscribe :: "tid \<Rightarrow> string \<Rightarrow> string \<Rightarrow> action list" where
  "subscribe t email crn = request t (start_req email crn) 8"

definition unsubscribe :: "tid \<Rightarrow> string \<Rightarrow> action list" where
  "unsubscribe t email = request t (stop_req email) 8"

section \<open>States of a sample run\<close>

text \<open>
  One subscriber: \<open>subscribed\<close> after the start request has been served,
  \<open>inserting\<close> the same request interrupted before its map assignment,
  \<open>polling\<close> with the watcher inside the ticker case, \<open>orphaned\<close> after that
  poll has failed, \<open>stuck\<close> after a stop request for the orphaned entry has
  reached its send, \<open>sending\<close> and \<open>waiting\<close> with a stop request at its send
  while the watcher waits in \<^verbatim>\<open>select\<close> or polls.
\<close>

definition alice :: string where
  "alice = ''a@neu.edu''"

definition subscribed :: sys where
  "subscribed = \<lparr>subscriptions = [alice \<mapsto> 0], subscriptionsMux = None, chans = [ChanOpen],
     handlers = [0 \<mapsto> \<lparr>h_ctx = start_req alice ''12345'',
        h_pc = Done (started alice)\<rparr>],
     watchers = [0 \<mapsto> new_watcher alice ''12345''],
     logs = [], outbox = [], requests = []\<rparr>"

definition inserting :: sys where
  "inserting = \<lparr>subscriptions = Map.empty, subscriptionsMux = Some 0, chans = [ChanOpen],
     handlers = [0 \<mapsto> \<lparr>h_ctx = start_req alice ''12345'', h_pc = Start (StartInsert 0)\<rparr>],
     watchers = Map.empty, logs = [], outbox = [], requests = []\<rparr>"

definition polling :: sys where
  "polling = subscribed\<lparr>watchers := [0 \<mapsto> (new_watcher alice ''12345'')\<lparr>w_pc := WPolling\<rparr>]\<rparr>"

definition timeout_err :: go_error where
  "timeout_err = ErrorString ''context deadline exceeded''"

definition orphaned :: sys where
  "orphaned = subscribed\<lparr>watchers := [0 \<mapsto> returned (new_watcher alice ''12345'')],
     logs := [[LStr ''Error making request: '', LErr timeout_err]],
     requests := [enrollment_request ''12345'']\<rparr>"

definition stuck :: sys where
  "stuck = orphaned\<lparr>subscriptionsMux := Some 1,
     handlers := (handlers orphaned)(1 \<mapsto> \<lparr>h_ctx = stop_req alice, h_pc = Stop (StopSend 0)\<rparr>)\<rparr>"

definition sending :: sys where
  "sending = subscribed\<lparr>subscriptionsMux := Some 1,
     handlers := (handlers subscribed)(1 \<mapsto> \<lparr>h_ctx = stop_req alice, h_pc = Stop (StopSend 0)\<rparr>)\<rparr>"

definition waiting :: sys where
  "waiting = polling\<lparr>subscriptionsMux := Some 1,
     handlers := (handlers polling)(1 \<mapsto> \<lparr>h_ctx = stop_req alice, h_pc = Stop (StopSend 0)\<rparr>)\<rparr>"

section \<open>Evaluation\<close>

lemmas handler_defs [nu_defs] = request_def numeral_eq_Suc serve_def handler_step_def
  statement_def goto_def Lock_def Unlock_def send_stop_def close_chan_def receiver_ready_def

lemmas watcher_defs [nu_defs] = watcher_step_def silent_def apply_effects_def no_effects_def
  on_tick_def on_stop_def on_poll_def on_exit_def returned_def new_watcher_def

lemma Query_start_req [simp]:
  "Query (start_req email crn) ''email'' = email" "Query (start_req email crn) ''CRN'' = crn"
  by (simp_all add: Query_def start_req_def)

lemma Query_stop_req [simp]: "Query (stop_req email) ''email'' = email"
  by (simp add: Query_def stop_req_def)

lemma route_reqs [simp]:
  "route (start_req email crn) = Start StartValidate" "route (stop_req email) = Stop StopValidate"
  by (simp_all add: route_def start_req_def stop_req_def)

lemma run_append: "run (as @ bs) s = (case run as s of None \<Rightarrow> None | Some s' \<Rightarrow> run bs s')"
  by (induction as arbitrary: s) (auto split: option.splits)

section \<open>Runs and reachability\<close>

lemma run_snoc: "run (as @ [a]) s = (case run as s of None \<Rightarrow> None | Some s' \<Rightarrow> fire a s')"
  by (simp add: run_append split: option.splits)

lemma run_reachable: "reachable s \<Longrightarrow> run as s = Some s' \<Longrightarrow> reachable s'"
  by (induction as arbitrary: s) (auto split: option.splits intro: reachable.step)

lemma reachable_iff_run: "reachable s \<longleftrightarrow> (\<exists>as. run as init_sys = Some s)"
proof
  assume "reachable s"
  then show "\<exists>as. run as init_sys = Some s"
  proof (induction rule: reachable.induct)
    case init
    have "run [] init_sys = Some init_sys" by simp
    then show ?case by blast
  next
    case (step s a s')
    then obtain as where "run as init_sys = Some s" by blast
    with step.hyps(2) have "run (as @ [a]) init_sys = Some s'" by (simp add: run_snoc)
    then show ?case by blast
  qed
next
  assume "\<exists>as. run as init_sys = Some s"
  then show "reachable s" by (auto intro: run_reachable reachable.init)
qed

lemma run_inv: "sys_inv s \<Longrightarrow> run as s = Some s' \<Longrightarrow> sys_inv s'"
  by (induction as arbitrary: s) (auto split: option.splits intro: fire_inv)

section \<open>A subscription\<close>

lemma run_subscribe: "run (subscribe 0 alice ''12345'') init_sys = Some subscribed"
  by (simp add: subscribe_def subscribed_def alice_def init_sys_def handler_defs)

lemma reachable_subscribed: "reachable subscribed"
  using run_subscribe by (auto simp: reachable_iff_run)

lemma run_inserting: "run (request 0 (start_req alice ''12345'') 4) init_sys = Some inserting"
  by (simp add: inserting_def alice_def init_sys_def handler_defs)

lemma reachable_inserting: "reachable inserting"
  using run_inserting by (auto simp: reachable_iff_run)

section \<open>A poll that fails, and a stop request after it\<close>

lemma fire_tick_subscribed: "fire (Tick 0) subscribed = Some polling"
  by (simp add: subscribed_def polling_def watcher_defs)

lemma fire_poll_polling: "fire (Poll 0 (DoFailed timeout_err) None) polling = Some orphaned"
  by (simp add: subscribed_def polling_def orphaned_def poll_def watcher_defs)

lemma run_stop_orphaned: "run (request 1 (stop_req alice) 3) orphaned = Some stuck"
  by (simp add: stuck_def orphaned_def subscribed_def alice_def handler_defs)

lemma reachable_polling: "reachable polling"
  using reachable_subscribed fire_tick_subscribed by (rule reachable.step)

lemma reachable_orphaned: "reachable orphaned"
  using reachable_polling fire_poll_polling by (rule reachable.step)

lemma reachable_stuck: "reachable stuck"
  using reachable_orphaned run_stop_orphaned by (rule run_reachable)

lemma run_stop_subscribed: "run (request 1 (stop_req alice) 3) subscribed = Some sending"
  by (simp add: sending_def subscribed_def alice_def handler_defs)

lemma run_stop_polling: "run (request 1 (stop_req alice) 3) polling = Some waiting"
  by (simp add: waiting_def polling_def subscribed_def alice_def handler_defs)

lemma reachable_sending: "reachable sending"
  using reachable_subscribed run_stop_subscribed by (rule run_reachable)

lemma reachable_waiting: "reachable waiting"
  using reachable_polling run_stop_polling by (rule run_reachable)

end
