(* ===== verification/Safety.thy ===== *)
theory Safety
  imports Scenarios
begin

text \<open>
  Safety of the running program, for every interleaving of handler and watcher
  steps: no goroutine panics, the mutex excludes, the map changes only under the
  mutex, and each subscriber has at most one live watcher. All of it follows
  from the system invariant.
\<close>

section \<open>Shared consequences of the invariant\<close>

lemma reachable_points: "reachable s \<Longrightarrow> handlers s t = Some h \<Longrightarrow> pc_at s (email_of h) (h_pc h)"
  by (meson reachable_inv sys_invD(2) inv_pointsD)

lemma reachable_holder:
  "reachable s \<Longrightarrow> handlers s t = Some h \<Longrightarrow> holds_lock (h_pc h) \<longleftrightarrow> subscriptionsMux s = Some t"
  by (meson reachable_inv sys_invD(1) inv_mutex_holds)

lemma apply_op_subscriptions:
  "subscriptions (apply_op u s) \<noteq> subscriptions s \<Longrightarrow> (\<exists>k c. u = Insert k c) \<or> (\<exists>k. u = Delete k)"
  by (cases u) auto

lemma apply_op_mux:
  "subscriptionsMux (apply_op u s) \<noteq> subscriptionsMux s \<Longrightarrow> (\<exists>t. u = Acquire t) \<or> u = Release"
  by (cases u) auto

lemma statement_obligations:
  assumes "sys_inv s" "handlers s t = Some h" "statement t h s = Some (p', u)"
  shows "permitted t h s u" "local_ok t h s p' u"
  using assms
  by (auto simp: statement_def split: pc.splits dest: start_obligations stop_obligations)

lemma handler_stepE:
  assumes "handler_step t s = Some s'"
  obtains h p' u where "handlers s t = Some h" "statement t h s = Some (p', u)"
    "s' = goto t h p' (apply_op u s)"
  using assms by (auto simp: handler_step_def split: option.splits)

lemma watcher_stepE:
  assumes "watcher_step c f s = Some s'"
  obtains w w' fx where "watchers s c = Some w" "f w = Some (w', fx)"
    "s' = apply_effects fx (s\<lparr>watchers := (watchers s)(c \<mapsto> w')\<rparr>)"
  using assms by (auto simp: watcher_step_def split: option.splits)

lemma apply_effects_fields [simp]:
  "subscriptions (apply_effects fx s) = subscriptions s"
  "subscriptionsMux (apply_effects fx s) = subscriptionsMux s"
  "chans (apply_effects fx s) = chans s"
  "handlers (apply_effects fx s) = handlers s"
  "watchers (apply_effects fx s) = watchers s"
  "logs (apply_effects fx s) = logs s @ fx_logs fx"
  "outbox (apply_effects fx s) = outbox s @ fx_mails fx"
  "requests (apply_effects fx s) = requests s @ fx_requests fx"
  by (simp_all add: apply_effects_def)

lemma is_closed_effects [simp]: "is_closed (apply_effects fx s) c = is_closed s c"
  by (simp add: is_closed_def)

lemma fire_registry_frame:
  assumes "fire a s = Some s'" "\<forall>t. a \<noteq> Handler t"
  shows "subscriptions s' = subscriptions s" "subscriptionsMux s' = subscriptionsMux s"
    "chans s' = chans s"
  using assms
  by (cases a; auto simp: serve_def split: if_splits elim!: watcher_stepE)+

section \<open>Properties\<close>

text \<open>
  C1: in no reachable state has a handler panicked. The handlers never unlock a
  mutex that is not locked, never send on a closed stop channel and never close
  a stop channel twice, however the requests and the watchers interleave.
\<close>

theorem no_panic:
  assumes "reachable s" "handlers s t = Some h"
  shows "h_pc h \<noteq> Panicked msg"
  using reachable_points [OF assms] by auto

theorem no_panic_witness:
  "reachable subscribed \<and> handlers subscribed 0 \<noteq> None \<and>
   h_pc (the (handlers subscribed 0)) \<noteq> Panicked ''close of closed channel''"
proof -
  have h: "handlers subscribed 0 = Some (the (handlers subscribed 0))"
    by (simp add: subscribed_def)
  from no_panic [OF reachable_subscribed h] reachable_subscribed h show ?thesis
    by blast
qed

text \<open>
  C2: mutual exclusion. Two handlers that stand inside the critical section
  (between \<^verbatim>\<open>Lock\<close> and \<^verbatim>\<open>Unlock\<close>) are the same goroutine, and the mutex
  records it as the holder.
\<close>

theorem mutual_exclusion:
  assumes "reachable s" "handlers s t = Some h" "handlers s t' = Some h'"
    and "holds_lock (h_pc h)" "holds_lock (h_pc h')"
  shows "t = t' \<and> subscriptionsMux s = Some t"
  using reachable_holder [OF assms(1,2)] reachable_holder [OF assms(1,3)] assms(4,5) by simp

theorem mutual_exclusion_witness:
  "reachable inserting \<and> holds_lock (Start (StartInsert 0)) \<and> subscriptionsMux inserting = Some 0"
proof -
  have h: "handlers inserting 0 =
      Some \<lparr>h_ctx = start_req alice ''12345'', h_pc = Start (StartInsert 0)\<rparr>"
    by (simp add: inserting_def)
  from mutual_exclusion [OF reachable_inserting h h] reachable_inserting show ?thesis
    by simp
qed

text \<open>
  C4: the map \<^verbatim>\<open>subscriptions\<close> changes only in a step of the handler that
  holds \<^verbatim>\<open>subscriptionsMux\<close>, and that handler still holds it afterwards.
\<close>

theorem map_changes_under_lock:
  assumes "reachable s" "fire a s = Some s'" "subscriptions s' \<noteq> subscriptions s"
  shows "\<exists>t. a = Handler t \<and> subscriptionsMux s = Some t \<and> subscriptionsMux s' = Some t"
proof -
  from assms(2,3) obtain t where a: "a = Handler t"
    using fire_registry_frame(1) by blast
  with assms(2) obtain h p' u where h: "handlers s t = Some h"
    and st: "statement t h s = Some (p', u)" and s': "s' = goto t h p' (apply_op u s)"
    by (auto elim: handler_stepE)
  from assms(3) s' have u: "(\<exists>k c. u = Insert k c) \<or> (\<exists>k. u = Delete k)"
    by (auto dest: apply_op_subscriptions)
  from statement_obligations(1) [OF reachable_inv [OF assms(1)] h st] u
  have "subscriptionsMux s = Some t" by auto
  with a s' u show ?thesis by auto
qed

theorem map_changes_under_lock_witness:
  "reachable inserting \<and> fire (Handler 0) inserting \<noteq> None \<and>
   subscriptions (the (fire (Handler 0) inserting)) \<noteq> subscriptions inserting \<and>
   subscriptionsMux (the (fire (Handler 0) inserting)) = Some 0"
proof -
  have f: "fire (Handler 0) inserting = Some (the (fire (Handler 0) inserting))"
    by (simp add: inserting_def handler_defs)
  have n: "subscriptions (the (fire (Handler 0) inserting)) \<noteq> subscriptions inserting"
    by (simp add: inserting_def handler_defs alice_def)
  from map_changes_under_lock [OF reachable_inserting f n] reachable_inserting f n show ?thesis
    by (auto simp del: fire.simps)
qed

text \<open>
  C3: at most one live watcher per subscriber. Two watcher goroutines that have
  not been told to stop and have not returned, and that poll for the same
  email address, are one goroutine; its stop channel is the one registered under
  that address.
\<close>

theorem one_live_watcher:
  assumes "reachable s" "watchers s c = Some w" "watchers s c' = Some w'"
    and "live w" "live w'" "w_email w = w_email w'"
  shows "c = c' \<and> subscriptions s (w_email w) = Some c"
proof -
  from reachable_inv [OF assms(1)] have "inv_live s" by (rule sys_invD)
  with assms(2-5) have "subscriptions s (w_email w) = Some c" "subscriptions s (w_email w') = Some c'"
    by (auto simp: inv_live_def)
  with assms(6) show ?thesis by simp
qed

theorem one_live_watcher_witness:
  "reachable subscribed \<and> live (new_watcher alice ''12345'') \<and> subscriptions subscribed alice = Some 0"
proof -
  have w: "watchers subscribed 0 = Some (new_watcher alice ''12345'')"
    by (simp add: subscribed_def)
  from one_live_watcher [OF reachable_subscribed w w] reachable_subscribed show ?thesis
    by simp
qed

end
