(* ===== verification/Deadlock.thy ===== *)
theory Deadlock
  imports Safety
begin

text \<open>
  What happens to a subscription whose watcher has returned on its own. The
  watcher returns when a poll fails (lines 90, 100, 107 and 113 of the source)
  and leaves its entry in \<^verbatim>\<open>subscriptions\<close>. A later stop request for that
  subscriber finds the entry and sends on the stop channel while it holds the
  mutex; nobody receives any more, so the handler blocks for ever and the
  mutex is never released: the state is \<open>wedged\<close>. From then on no request that
  passes validation is answered.
\<close>

section \<open>Wedged states\<close>

definition wedged :: "sys \<Rightarrow> tid \<Rightarrow> chan \<Rightarrow> bool" where
  "wedged s t c \<longleftrightarrow>
     subscriptionsMux s = Some t \<and>
     map_option h_pc (handlers s t) = Some (Stop (StopSend c)) \<and>
     \<not> is_closed s c \<and>
     map_option w_pc (watchers s c) = Some WReturned"

text \<open>The program points a request can reach while another goroutine keeps the mutex.\<close>

fun starved :: "pc \<Rightarrow> bool" where
  "starved (Start StartValidate) = True"
| "starved (Start StartLock) = True"
| "starved (Stop StopValidate) = True"
| "starved (Stop StopLock) = True"
| "starved (Done r) = (status r \<noteq> StatusOK)"
| "starved p = False"

definition starved_at :: "sys \<Rightarrow> tid \<Rightarrow> bool" where
  "starved_at s t \<longleftrightarrow> (case handlers s t of None \<Rightarrow> True | Some h \<Rightarrow> starved (h_pc h))"

definition zombie :: "sys \<Rightarrow> string \<Rightarrow> chan \<Rightarrow> bool" where
  "zombie s k c \<longleftrightarrow> subscriptions s k = Some c \<and> map_option w_pc (watchers s c) = Some WReturned"

section \<open>A wedged state stays wedged\<close>

lemma wedged_holder_blocked: "wedged s t c \<Longrightarrow> fire (Handler t) s = None"
  by (auto simp: wedged_def handler_step_def statement_def send_stop_def receiver_ready_def
      split: option.splits)

lemma wedged_lock_blocked:
  assumes "wedged s t c" "handlers s t' = Some h'"
    and "h_pc h' = Start StartLock \<or> h_pc h' = Stop StopLock"
  shows "fire (Handler t') s = None"
  using assms by (auto simp: wedged_def handler_step_def statement_def Lock_def)

lemma wedged_watcher_blocked:
  assumes "wedged s t c" "a = Tick c \<or> a = Poll c outcome sendMail \<or> a = RecvClosed c \<or> a = Exit c"
  shows "fire a s = None"
  using assms
  by (auto simp: wedged_def watcher_step_def silent_def on_tick_def on_stop_def on_poll_def
      on_exit_def split: option.splits)

lemma wedged_other_op:
  assumes "wedged s t c" "t' \<noteq> t" "permitted t' h' s u"
  shows "u = Skip \<or> (\<exists>c' w. u = Spawn c' w \<and> c' \<noteq> c)"
  using assms by (cases u) (auto simp: wedged_def fresh_chan_def)

lemma wedged_goto:
  assumes "wedged s t c" "t' \<noteq> t" "u = Skip \<or> (\<exists>c' w. u = Spawn c' w \<and> c' \<noteq> c)"
  shows "wedged (goto t' h' p' (apply_op u s)) t c"
  using assms by (auto simp: wedged_def)

lemma wedged_fire:
  assumes "sys_inv s" "wedged s t c" "fire a s = Some s'"
  shows "wedged s' t c"
proof (cases a)
  case (Serve t' ctx)
  with assms(2,3) show ?thesis
    by (auto simp: wedged_def serve_def split: if_splits)
next
  case (Handler t')
  with assms(2,3) have neq: "t' \<noteq> t"
    using wedged_holder_blocked by fastforce
  from Handler assms(3) obtain h' p' u where h': "handlers s t' = Some h'"
    and st: "statement t' h' s = Some (p', u)" and s': "s' = goto t' h' p' (apply_op u s)"
    by (auto elim: handler_stepE)
  from statement_obligations(1) [OF assms(1) h' st] have "permitted t' h' s u" .
  from wedged_other_op [OF assms(2) neq this] s' assms(2) neq show ?thesis
    by (simp add: wedged_goto)
next
  case (Tick c')
  with assms(2,3) have "c' \<noteq> c" using wedged_watcher_blocked by fastforce
  with Tick assms(2,3) show ?thesis by (auto simp: wedged_def elim!: watcher_stepE)
next
  case (Poll c' outcome sendMail)
  with assms(2,3) have "c' \<noteq> c" using wedged_watcher_blocked by fastforce
  with Poll assms(2,3) show ?thesis by (auto simp: wedged_def elim!: watcher_stepE)
next
  case (RecvClosed c')
  with assms(2,3) have "c' \<noteq> c" using wedged_watcher_blocked by fastforce
  with RecvClosed assms(2,3) show ?thesis
    by (auto simp: wedged_def split: if_splits elim!: watcher_stepE)
next
  case (Exit c')
  with assms(2,3) have "c' \<noteq> c" using wedged_watcher_blocked by fastforce
  with Exit assms(2,3) show ?thesis by (auto simp: wedged_def elim!: watcher_stepE)
qed

lemma wedged_run:
  "sys_inv s \<Longrightarrow> wedged s t c \<Longrightarrow> run as s = Some s' \<Longrightarrow> wedged s' t c \<and> sys_inv s'"
  by (induction as arbitrary: s) (auto split: option.splits dest: wedged_fire fire_inv)

section \<open>Requests that arrive later\<close>

lemma starved_route [simp]: "starved (route ctx)"
  by (simp add: route_def JSON_def StatusOK_def StatusNotFound_def)

lemma starved_statement:
  assumes "subscriptionsMux s \<noteq> None" "starved (h_pc h)" "statement t h s = Some (p', u)"
  shows "starved p'"
proof (cases "h_pc h")
  case (Start p)
  with assms show ?thesis
    by (cases p) (auto simp: statement_def response_defs JSON_def StatusOK_def StatusBadRequest_def split: if_splits)
next
  case (Stop p)
  with assms show ?thesis
    by (cases p) (auto simp: statement_def response_defs JSON_def StatusOK_def StatusBadRequest_def split: if_splits)
qed (use assms in \<open>auto simp: statement_def\<close>)

lemma starved_fire:
  assumes "wedged s t c" "starved_at s t'" "fire a s = Some s'"
  shows "starved_at s' t'"
proof (cases a)
  case (Serve x ctx)
  with assms(2,3) show ?thesis
    by (auto simp: starved_at_def serve_def split: if_splits option.splits)
next
  case (Handler x)
  with assms(3) obtain h p' u where h: "handlers s x = Some h"
    and st: "statement x h s = Some (p', u)" and s': "s' = goto x h p' (apply_op u s)"
    by (auto elim: handler_stepE)
  show ?thesis
  proof (cases "x = t'")
    case True
    with assms(1,2) h have "subscriptionsMux s \<noteq> None" "starved (h_pc h)"
      by (auto simp: wedged_def starved_at_def)
    from starved_statement [OF this st] s' True show ?thesis
      by (simp add: starved_at_def)
  next
    case False
    with assms(2) s' show ?thesis by (simp add: starved_at_def)
  qed
qed (use assms(2,3) in \<open>auto simp: starved_at_def split: if_splits elim!: watcher_stepE\<close>)

lemma starved_run:
  assumes "sys_inv s" "wedged s t c" "starved_at s t'" "run as s = Some s'"
  shows "starved_at s' t'"
  using assms
proof (induction as arbitrary: s)
  case Nil
  then show ?case by simp
next
  case (Cons a as)
  from Cons.prems(4) obtain s1 where s1: "fire a s = Some s1" "run as s1 = Some s'"
    by (auto split: option.splits)
  from Cons.prems(1,2) s1(1) have "sys_inv s1" "wedged s1 t c"
    by (auto intro: fire_inv wedged_fire)
  moreover from Cons.prems(2,3) s1(1) have "starved_at s1 t'" by (rule starved_fire)
  ultimately show ?case using s1(2) by (rule Cons.IH)
qed

section \<open>How a subscription is orphaned\<close>

lemma registered_open_idle:
  assumes "sys_inv s" "subscriptionsMux s = None" "subscriptions s k = Some c"
  shows "\<not> is_closed s c"
proof
  assume "is_closed s c"
  with assms(1,3) obtain x hx where x: "handlers s x = Some hx" "h_pc hx = Stop (StopDelete c)"
    using sys_invD(7) unfolding inv_closed_def by blast
  with inv_mutex_holds [OF sys_invD(1) [OF assms(1)] x(1)] assms(2) show False by simp
qed

section \<open>Properties\<close>

text \<open>
  C9: a watcher whose poll fails (the request cannot be built or sent, the body
  cannot be read, or the seat count cannot be parsed) returns, and its entry
  stays in \<^verbatim>\<open>subscriptions\<close>: the subscriber is left registered with no
  goroutine behind the entry. The code has no step that removes the entry when
  the watcher ends on its own.
\<close>

theorem failed_poll_orphans_entry:
  assumes "reachable s" "watchers s c = Some w" "w_pc w = WPolling" "poll_fails outcome"
  shows "\<exists>s'. fire (Poll c outcome sendMail) s = Some s' \<and> zombie s' (w_email w) c \<and>
           subscriptions s' = subscriptions s"
proof -
  from reachable_inv [OF assms(1)] have "inv_live s" by (rule sys_invD)
  with assms(2,3) have "subscriptions s (w_email w) = Some c"
    by (auto simp: inv_live_def live_def)
  with assms(2-4) poll_fails_returned [OF assms(4), of w sendMail] show ?thesis
    by (cases "poll w outcome sendMail") (auto simp: watcher_step_def on_poll_def zombie_def)
qed

theorem failed_poll_orphans_entry_witness:
  "reachable polling \<and> poll_fails (DoFailed timeout_err) \<and>
   (\<exists>s'. fire (Poll 0 (DoFailed timeout_err) None) polling = Some s' \<and> zombie s' alice 0 \<and>
      subscriptions s' = subscriptions polling)"
  using failed_poll_orphans_entry [OF reachable_polling, of 0
      "(new_watcher alice ''12345'')\<lparr>w_pc := WPolling\<rparr>" "DoFailed timeout_err" None]
  by (simp add: reachable_polling poll_fails_def) (simp add: polling_def)

text \<open>
  C7: a stop request for an orphaned entry wedges the server. The handler passes
  validation, takes the mutex, finds the entry and stands at the send
  \<^verbatim>\<open>stopChan <- true\<close> with the mutex held and no receiver left.
\<close>

theorem stop_on_orphan_wedges:
  assumes "reachable s" "zombie s k c" "subscriptionsMux s = None" "handlers s t = None" "k \<noteq> []"
  shows "\<exists>s'. run (request t (stop_req k) 3) s = Some s' \<and> wedged s' t c"
proof -
  from assms(2) have k: "subscriptions s k = Some c" by (simp add: zombie_def)
  from registered_open_idle [OF reachable_inv [OF assms(1)] assms(3) k] assms(2-5) show ?thesis
    by (auto simp: zombie_def wedged_def handler_defs)
qed

theorem stop_on_orphan_wedges_witness:
  "reachable orphaned \<and> zombie orphaned alice 0 \<and>
   (\<exists>s'. run (request 1 (stop_req alice) 3) orphaned = Some s' \<and> wedged s' 1 0)"
  using stop_on_orphan_wedges [OF reachable_orphaned, of alice 0 1]
  by (simp add: reachable_orphaned) (simp add: orphaned_def subscribed_def zombie_def returned_def alice_def)

text \<open>
  C8: a wedged server stays wedged. Whatever steps follow, the mutex is still
  held by the same stop handler, that handler cannot move, and neither can any
  handler that waits at \<^verbatim>\<open>subscriptionsMux.Lock()\<close>.
\<close>

theorem wedged_forever:
  assumes "reachable s" "wedged s t c" "run as s = Some s'"
  shows "wedged s' t c \<and> fire (Handler t) s' = None \<and>
     (\<forall>t' h'. handlers s' t' = Some h' \<and> (h_pc h' = Start StartLock \<or> h_pc h' = Stop StopLock)
        \<longrightarrow> fire (Handler t') s' = None)"
proof -
  from wedged_run [OF reachable_inv [OF assms(1)] assms(2,3)] have w: "wedged s' t c" ..
  then show ?thesis
    using wedged_holder_blocked wedged_lock_blocked by blast
qed

theorem wedged_forever_witness:
  "reachable stuck \<and> wedged stuck 1 0 \<and>
   run (request 2 (start_req ''b@neu.edu'' ''54321'') 1) stuck \<noteq> None \<and>
   fire (Handler 2) (the (run (request 2 (start_req ''b@neu.edu'' ''54321'') 1) stuck)) = None"
proof -
  let ?as = "request 2 (start_req ''b@neu.edu'' ''54321'') 1"
  have w: "wedged stuck 1 0"
    by (simp add: wedged_def stuck_def orphaned_def subscribed_def is_closed_def returned_def)
  have r: "run ?as stuck = Some (the (run ?as stuck))"
    by (simp add: stuck_def orphaned_def subscribed_def handler_defs)
  have h: "map_option h_pc (handlers (the (run ?as stuck)) 2) = Some (Start StartLock)"
    by (simp add: stuck_def orphaned_def subscribed_def handler_defs)
  from wedged_forever [OF reachable_stuck w r] h reachable_stuck w r show ?thesis
    by (auto simp del: run.simps fire.simps)
qed

text \<open>
  C10: once the server is wedged, no request that arrives later is ever answered
  with status 200: such a request is either rejected by validation (400) or
  routing (404) or waits for the mutex for ever.
\<close>

theorem no_service_after_wedge:
  assumes "reachable s" "wedged s t c" "handlers s t' = None" "run as s = Some s'"
    and "handlers s' t' = Some h'"
  shows "starved (h_pc h') \<and> (\<forall>r. h_pc h' = Done r \<longrightarrow> status r \<noteq> StatusOK)"
proof -
  from assms(3) have "starved_at s t'" by (simp add: starved_at_def)
  from starved_run [OF reachable_inv [OF assms(1)] assms(2) this assms(4)] assms(5)
  have "starved (h_pc h')" by (simp add: starved_at_def)
  then show ?thesis by auto
qed

theorem no_service_after_wedge_witness:
  "reachable stuck \<and> wedged stuck 1 0 \<and>
   map_option h_pc (handlers (the (run (request 2 (start_req ''b@neu.edu'' ''54321'') 1) stuck)) 2)
     = Some (Start StartLock) \<and> starved (Start StartLock)"
proof -
  let ?as = "request 2 (start_req ''b@neu.edu'' ''54321'') 1"
  have w: "wedged stuck 1 0"
    by (simp add: wedged_def stuck_def orphaned_def subscribed_def is_closed_def returned_def)
  have n: "handlers stuck 2 = None"
    by (simp add: stuck_def orphaned_def subscribed_def)
  have r: "run ?as stuck = Some (the (run ?as stuck))"
    by (simp add: stuck_def orphaned_def subscribed_def handler_defs)
  have h: "handlers (the (run ?as stuck)) 2 = Some \<lparr>h_ctx = start_req ''b@neu.edu'' ''54321'', h_pc = Start StartLock\<rparr>"
    by (simp add: stuck_def orphaned_def subscribed_def handler_defs)
  from no_service_after_wedge [OF reachable_stuck w n r h] reachable_stuck w h show ?thesis
    by (simp del: run.simps)
qed

end
