(* ===== verification/Sequential.thy ===== *)
theory Sequential
  imports Scenarios
begin

text \<open>
  What a request does when its handler runs from routing to the response with
  no other goroutine taking the mutex in between: the outcome of every branch
  of \<^verbatim>\<open>startCourseCheckHandler\<close> and \<^verbatim>\<open>stopCourseCheckHandler\<close> as one equation
  on the state, and the sequences of requests built from them.
\<close>

section \<open>Responses\<close>

definition answer :: "sys \<Rightarrow> tid \<Rightarrow> response option" where
  "answer s t = (case handlers s t of Some h \<Rightarrow> (case h_pc h of Done r \<Rightarrow> Some r | _ \<Rightarrow> None) | None \<Rightarrow> None)"

section \<open>Properties\<close>

text \<open>
  C19: a start request with both parameters, for an email address that is not
  registered, makes a new stop channel, registers it under the address, starts
  one watcher on it and answers 200.
\<close>

theorem start_fresh:
  assumes "handlers s t = None" "route c = Start StartValidate" "subscriptionsMux s = None"
    and "Query c ''email'' = k" "k \<noteq> []" "Query c ''CRN'' = crn" "crn \<noteq> []"
    and "subscriptions s k = None"
  shows "run (request t c 8) s =
     Some (s\<lparr>subscriptions := (subscriptions s)(k \<mapsto> length (chans s)),
             chans := chans s @ [ChanOpen],
             handlers := (handlers s)(t \<mapsto> \<lparr>h_ctx = c, h_pc = Done (started k)\<rparr>),
             watchers := (watchers s)(length (chans s) \<mapsto> new_watcher k crn)\<rparr>)"
  using assms by (simp add: handler_defs)

theorem start_fresh_witness:
  "run (request 0 (start_req alice ''12345'') 8) init_sys =
     Some (init_sys\<lparr>subscriptions := [alice \<mapsto> 0], chans := [ChanOpen],
       handlers := [0 \<mapsto> \<lparr>h_ctx = start_req alice ''12345'', h_pc = Done (started alice)\<rparr>],
       watchers := [0 \<mapsto> new_watcher alice ''12345'']\<rparr>)"
  using start_fresh [of init_sys 0 "start_req alice ''12345''" alice "''12345''"]
  by (simp add: init_sys_def alice_def)

text \<open>
  C21: a start request for an address that is registered changes nothing but
  its own response, which is 400 with the message that a check is already
  running.
\<close>

theorem start_registered:
  assumes "handlers s t = None" "route c = Start StartValidate" "subscriptionsMux s = None"
    and "Query c ''email'' = k" "k \<noteq> []" "Query c ''CRN'' \<noteq> []"
    and "subscriptions s k = Some ch"
  shows "run (request t c 5) s =
     Some (s\<lparr>handlers := (handlers s)(t \<mapsto> \<lparr>h_ctx = c, h_pc = Done already_running\<rparr>)\<rparr>)"
  using assms by (simp add: handler_defs)

theorem start_registered_witness:
  "run (request 1 (start_req alice ''99999'') 5) subscribed =
     Some (subscribed\<lparr>handlers := (handlers subscribed)
       (1 \<mapsto> \<lparr>h_ctx = start_req alice ''99999'', h_pc = Done already_running\<rparr>)\<rparr>)"
  using start_registered [of subscribed 1 "start_req alice ''99999''" alice 0]
  by (simp add: subscribed_def alice_def)

text \<open>
  C20: a stop request for a registered address whose watcher waits in its
  \<^verbatim>\<open>select\<close> hands the stop signal to the watcher, closes the channel,
  removes the entry and answers 200.
\<close>

theorem stop_registered:
  assumes "handlers s t = None" "route c = Stop StopValidate" "subscriptionsMux s = None"
    and "Query c ''email'' = k" "k \<noteq> []" "subscriptions s k = Some ch"
    and "\<not> is_closed s ch" "watchers s ch = Some w" "w_pc w = WSelect"
  shows "run (request t c 8) s =
     Some (s\<lparr>subscriptions := (subscriptions s)(k := None),
             chans := (chans s)[ch := ChanClosed],
             handlers := (handlers s)(t \<mapsto> \<lparr>h_ctx = c, h_pc = Done (stopped k)\<rparr>),
             watchers := (watchers s)(ch \<mapsto> w\<lparr>w_pc := WStopping\<rparr>)\<rparr>)"
  using assms by (simp add: handler_defs)

theorem stop_registered_witness:
  "run (request 1 (stop_req alice) 8) subscribed =
     Some (subscribed\<lparr>subscriptions := Map.empty, chans := [ChanClosed],
       handlers := (handlers subscribed)(1 \<mapsto> \<lparr>h_ctx = stop_req alice, h_pc = Done (stopped alice)\<rparr>),
       watchers := [0 \<mapsto> (new_watcher alice ''12345'')\<lparr>w_pc := WStopping\<rparr>]\<rparr>)"
  using stop_registered [of subscribed 1 "stop_req alice" alice 0 "new_watcher alice ''12345''"]
  by (simp add: subscribed_def alice_def is_closed_def)

text \<open>
  C22: a stop request for an address that is not registered changes nothing
  but its own response, which is 400 with the message that no active check was
  found.
\<close>

theorem stop_unknown:
  assumes "handlers s t = None" "route c = Stop StopValidate" "subscriptionsMux s = None"
    and "Query c ''email'' = k" "k \<noteq> []" "subscriptions s k = None"
  shows "run (request t c 5) s =
     Some (s\<lparr>handlers := (handlers s)(t \<mapsto> \<lparr>h_ctx = c, h_pc = Done not_found\<rparr>)\<rparr>)"
  using assms by (simp add: handler_defs)

theorem stop_unknown_witness:
  "run (request 0 (stop_req alice) 5) init_sys =
     Some (init_sys\<lparr>handlers := [0 \<mapsto> \<lparr>h_ctx = stop_req alice, h_pc = Done not_found\<rparr>]\<rparr>)"
  using stop_unknown [of init_sys 0 "stop_req alice" alice]
  by (simp add: init_sys_def alice_def)

text \<open>
  C37: validation. A start request that lacks the email address or the CRN,
  and a stop request that lacks the email address, are answered 400 by the
  first statement of the handler, before the mutex is touched; the state of the
  registry is not read.
\<close>

theorem missing_parameter_rejected:
  assumes "handlers s t = None"
    and "route c = Start StartValidate \<and> (Query c ''email'' = [] \<or> Query c ''CRN'' = []) \<and>
           r = params_required \<or>
         route c = Stop StopValidate \<and> Query c ''email'' = [] \<and>
           r = email_required"
  shows "run (request t c 1) s = Some (s\<lparr>handlers := (handlers s)(t \<mapsto> \<lparr>h_ctx = c, h_pc = Done r\<rparr>)\<rparr>)"
  using assms by (auto simp: handler_defs)

theorem missing_parameter_rejected_witness:
  "run (request 5 (start_req alice []) 1) stuck =
     Some (stuck\<lparr>handlers := (handlers stuck)(5 \<mapsto> \<lparr>h_ctx = start_req alice [],
        h_pc = Done params_required\<rparr>)\<rparr>)"
  using missing_parameter_rejected [of stuck 5 "start_req alice []" params_required]
  by (simp add: stuck_def orphaned_def subscribed_def)

text \<open>
  C23: at most one check per subscriber. Two start requests for the same
  address, one after the other with no stop request in between: the first is
  answered 200 and gets a watcher, the second is answered 400 and changes
  nothing; exactly one channel was made and one watcher started.
\<close>

theorem double_start:
  assumes "subscriptionsMux s = None" "subscriptions s k = None"
    and "handlers s t1 = None" "handlers s t2 = None" "t1 \<noteq> t2"
    and "k \<noteq> []" "crn \<noteq> []" "crn' \<noteq> []"
  shows "run (subscribe t1 k crn @ request t2 (start_req k crn') 5) s =
     Some (s\<lparr>subscriptions := (subscriptions s)(k \<mapsto> length (chans s)),
             chans := chans s @ [ChanOpen],
             handlers := (handlers s)
               (t1 \<mapsto> \<lparr>h_ctx = start_req k crn, h_pc = Done (started k)\<rparr>,
                t2 \<mapsto> \<lparr>h_ctx = start_req k crn', h_pc = Done already_running\<rparr>),
             watchers := (watchers s)(length (chans s) \<mapsto> new_watcher k crn)\<rparr>)"
  using assms by (simp add: run_append subscribe_def handler_defs)

theorem double_start_witness:
  "run (subscribe 0 alice ''12345'' @ request 1 (start_req alice ''99999'') 5) init_sys =
     Some (subscribed\<lparr>handlers := (handlers subscribed)
       (1 \<mapsto> \<lparr>h_ctx = start_req alice ''99999'', h_pc = Done already_running\<rparr>)\<rparr>)"
  using double_start [of init_sys alice 0 1 "''12345''" "''99999''"]
  by (simp add: init_sys_def subscribed_def alice_def)

text \<open>
  C24: start, stop, stop. After a start request and a stop request for the same
  address, and the watcher's return, the registry is as it was before, the
  channel is closed, the watcher has logged that it stops, and a further stop
  request is answered 400: nothing is left to stop.
\<close>

theorem start_stop_roundtrip:
  assumes "subscriptionsMux s = None" "subscriptions s k = None"
    and "handlers s t1 = None" "handlers s t2 = None" "handlers s t3 = None"
    and "t1 \<noteq> t2" "t1 \<noteq> t3" "t2 \<noteq> t3" "k \<noteq> []" "crn \<noteq> []"
  shows "run (subscribe t1 k crn @ unsubscribe t2 k @ [Exit (length (chans s))] @
              request t3 (stop_req k) 5) s =
     Some (s\<lparr>chans := chans s @ [ChanClosed],
             handlers := (handlers s)
               (t1 \<mapsto> \<lparr>h_ctx = start_req k crn, h_pc = Done (started k)\<rparr>,
                t2 \<mapsto> \<lparr>h_ctx = stop_req k, h_pc = Done (stopped k)\<rparr>,
                t3 \<mapsto> \<lparr>h_ctx = stop_req k, h_pc = Done not_found\<rparr>),
             watchers := (watchers s)(length (chans s) \<mapsto> returned (new_watcher k crn)),
             logs := logs s @ [[LStr ''Stopping course check for'', LStr k]]\<rparr>)"
  using assms
  by (simp add: run_append subscribe_def unsubscribe_def handler_defs watcher_defs
      is_closed_def fun_upd_idem)

theorem start_stop_roundtrip_witness:
  "run (subscribe 0 alice ''12345'' @ unsubscribe 1 alice @ [Exit 0] @ request 2 (stop_req alice) 5)
     init_sys =
     Some (init_sys\<lparr>chans := [ChanClosed],
       handlers := [0 \<mapsto> \<lparr>h_ctx = start_req alice ''12345'', h_pc = Done (started alice)\<rparr>,
                    1 \<mapsto> \<lparr>h_ctx = stop_req alice, h_pc = Done (stopped alice)\<rparr>,
                    2 \<mapsto> \<lparr>h_ctx = stop_req alice, h_pc = Done not_found\<rparr>],
       watchers := [0 \<mapsto> returned (new_watcher alice ''12345'')],
       logs := [[LStr ''Stopping course check for'', LStr alice]]\<rparr>)"
  using start_stop_roundtrip [of init_sys alice 0 1 2 "''12345''"]
  by (simp add: init_sys_def alice_def)

text \<open>
  C25: a subscriber can subscribe again after a stop. Start, stop, start for the
  same address: the second start request is answered 200 and gets a new channel
  and a new watcher, while the first watcher has received the stop signal.
\<close>

theorem resubscribe_after_stop:
  assumes "subscriptionsMux s = None" "subscriptions s k = None"
    and "handlers s t1 = None" "handlers s t2 = None" "handlers s t3 = None"
    and "t1 \<noteq> t2" "t1 \<noteq> t3" "t2 \<noteq> t3" "k \<noteq> []" "crn \<noteq> []" "crn' \<noteq> []"
  shows "run (subscribe t1 k crn @ unsubscribe t2 k @ subscribe t3 k crn') s =
     Some (s\<lparr>subscriptions := (subscriptions s)(k \<mapsto> Suc (length (chans s))),
             chans := chans s @ [ChanClosed, ChanOpen],
             handlers := (handlers s)
               (t1 \<mapsto> \<lparr>h_ctx = start_req k crn, h_pc = Done (started k)\<rparr>,
                t2 \<mapsto> \<lparr>h_ctx = stop_req k, h_pc = Done (stopped k)\<rparr>,
                t3 \<mapsto> \<lparr>h_ctx = start_req k crn', h_pc = Done (started k)\<rparr>),
             watchers := (watchers s)
               (length (chans s) \<mapsto> (new_watcher k crn)\<lparr>w_pc := WStopping\<rparr>,
                Suc (length (chans s)) \<mapsto> new_watcher k crn')\<rparr>)"
  using assms
  by (simp add: run_append subscribe_def unsubscribe_def handler_defs is_closed_def)

theorem resubscribe_after_stop_witness:
  "run (subscribe 0 alice ''12345'' @ unsubscribe 1 alice @ subscribe 2 alice ''99999'') init_sys =
     Some (init_sys\<lparr>subscriptions := [alice \<mapsto> 1], chans := [ChanClosed, ChanOpen],
       handlers := [0 \<mapsto> \<lparr>h_ctx = start_req alice ''12345'', h_pc = Done (started alice)\<rparr>,
                    1 \<mapsto> \<lparr>h_ctx = stop_req alice, h_pc = Done (stopped alice)\<rparr>,
                    2 \<mapsto> \<lparr>h_ctx = start_req alice ''99999'', h_pc = Done (started alice)\<rparr>],
       watchers := [0 \<mapsto> (new_watcher alice ''12345'')\<lparr>w_pc := WStopping\<rparr>,
                    1 \<mapsto> new_watcher alice ''99999'']\<rparr>)"
  using resubscribe_after_stop [of init_sys alice 0 1 2 "''12345''" "''99999''"]
  by (simp add: init_sys_def alice_def)

text \<open>
  C26: a failed poll does not free the address. Start, one tick whose poll
  fails, then a new start request for the same address: the watcher has
  returned, yet the request is answered 400 "already running". The entry of a
  watcher that ended on its own blocks the subscriber until the process is
  restarted.
\<close>

theorem failed_poll_blocks_resubscription:
  assumes "subscriptionsMux s = None" "subscriptions s k = None"
    and "handlers s t1 = None" "handlers s t2 = None" "t1 \<noteq> t2"
    and "k \<noteq> []" "crn \<noteq> []" "crn' \<noteq> []" "poll_fails outcome"
  shows "\<exists>s'. run (subscribe t1 k crn @
                   [Tick (length (chans s)), Poll (length (chans s)) outcome sendMail] @
                   request t2 (start_req k crn') 5) s = Some s' \<and>
     answer s' t2 = Some already_running \<and>
     watchers s' (length (chans s)) = Some (returned (new_watcher k crn)) \<and>
     subscriptions s' k = Some (length (chans s)) \<and> outbox s' = outbox s"
  using assms poll_fails_returned [OF assms(9), of "(new_watcher k crn)\<lparr>w_pc := WPolling\<rparr>" sendMail]
    poll_fails_effects [OF assms(9), of "(new_watcher k crn)\<lparr>w_pc := WPolling\<rparr>" sendMail]
  by (simp add: run_append subscribe_def handler_defs watcher_defs answer_def split_beta)

theorem failed_poll_blocks_resubscription_witness:
  "\<exists>s'. run (subscribe 0 alice ''12345'' @ [Tick 0, Poll 0 (DoFailed timeout_err) None] @
              request 1 (start_req alice ''12345'') 5) init_sys = Some s' \<and>
     answer s' 1 = Some already_running \<and>
     watchers s' 0 = Some (returned (new_watcher alice ''12345'')) \<and>
     subscriptions s' alice = Some 0 \<and> outbox s' = []"
  using failed_poll_blocks_resubscription [of init_sys alice 0 1 "''12345''" "''12345''"
      "DoFailed timeout_err" None]
  by (simp add: init_sys_def alice_def poll_fails_def)

end
