(* ===== verification/Cancellation.thy ===== *)
theory Cancellation
  imports Safety
begin

text \<open>
  What the watchers do to the outside world and when they stop doing it: a
  watcher that has received the stop signal or has returned never polls again,
  every mail in the outbox was caused by a page with a positive count read by a
  registered watcher, and a stop request waits, with the mutex held, while the
  watcher it wants to stop is inside a poll.
\<close>

section \<open>A watcher that is not live stays so\<close>

lemma signal_not_live:
  assumes "watchers s c = Some w" "\<not> live w"
  shows "\<exists>w'. watchers (apply_op (Signal c') s) c = Some w' \<and> \<not> live w'"
  using assms by (auto simp: live_def)

lemma dead_watcher_op:
  assumes "watchers s c = Some w" "\<not> live w" "permitted t h s u"
  shows "\<exists>w'. watchers (apply_op u s) c = Some w' \<and> \<not> live w'"
proof (cases u)
  case (Spawn c' w')
  with assms show ?thesis by (auto simp: fresh_chan_def)
next
  case (Signal c')
  with assms(1,2) show ?thesis using signal_not_live by blast
qed (use assms in auto)

lemma dead_watcher_fire:
  assumes "sys_inv s" "watchers s c = Some w" "\<not> live w" "fire a s = Some s'"
  shows "a \<noteq> Tick c \<and> (\<forall>outcome sendMail. a \<noteq> Poll c outcome sendMail) \<and>
     (\<exists>w'. watchers s' c = Some w' \<and> \<not> live w')"
proof (cases a)
  case (Serve t ctx)
  with assms show ?thesis by (auto simp: serve_def split: if_splits)
next
  case (Handler t)
  with assms(4) obtain h p' u where h: "handlers s t = Some h"
    and st: "statement t h s = Some (p', u)" and s': "s' = goto t h p' (apply_op u s)"
    by (auto elim: handler_stepE)
  from dead_watcher_op [OF assms(2,3) statement_obligations(1) [OF assms(1) h st]] Handler s'
  show ?thesis by simp
next
  case (Tick c')
  with assms show ?thesis
    by (cases "c' = c") (auto simp: silent_def live_def elim!: watcher_stepE)
next
  case (Poll c' outcome sendMail)
  with assms show ?thesis
    by (cases "c' = c") (auto simp: live_def elim!: watcher_stepE)
next
  case (RecvClosed c')
  with assms show ?thesis
    by (cases "c' = c") (auto simp: silent_def live_def split: if_splits elim!: watcher_stepE)
next
  case (Exit c')
  with assms show ?thesis
    by (cases "c' = c") (auto simp: on_exit_Some elim!: watcher_stepE)
qed

lemma dead_watcher_run:
  assumes "sys_inv s" "watchers s c = Some w" "\<not> live w" "run as s = Some s'"
  shows "Tick c \<notin> set as \<and> (\<forall>outcome sendMail. Poll c outcome sendMail \<notin> set as) \<and>
     (\<exists>w'. watchers s' c = Some w' \<and> \<not> live w')"
  using assms
proof (induction as arbitrary: s w)
  case Nil
  then show ?case by simp
next
  case (Cons a as)
  from Cons.prems(4) obtain s1 where s1: "fire a s = Some s1" "run as s1 = Some s'"
    by (auto split: option.splits)
  from dead_watcher_fire [OF Cons.prems(1-3) s1(1)] obtain w1 where
    a: "a \<noteq> Tick c" "\<forall>outcome sendMail. a \<noteq> Poll c outcome sendMail"
    and w1: "watchers s1 c = Some w1" "\<not> live w1" by blast
  from Cons.IH [OF fire_inv [OF Cons.prems(1) s1(1)] w1 s1(2)] a show ?case by auto
qed

section \<open>Where mails come from\<close>

lemma poll_mails:
  assumes "fx_mails (snd (poll w outcome sendMail)) \<noteq> []"
  shows "\<exists>body n. outcome = BodyRead body \<and> parseAvailableSeats body = Ok n \<and> 0 < sint n \<and>
     fx_mails (snd (poll w outcome sendMail)) = [notification_mail (w_email w) n (w_crn w)]"
  using assms
  by (auto simp: poll_def Let_def no_effects_def split_beta
      split: fetch_outcome.splits sum.splits if_splits)

section \<open>Properties\<close>

text \<open>
  C11: cancellation ends the polling. Once the send \<^verbatim>\<open>stopChan <- true\<close> of a
  stop handler has completed, the watcher of that channel takes no further tick
  and makes no further pass through the ticker case, whatever the schedule; it
  sends no request and no mail after the signal.
\<close>

theorem stop_ends_polling:
  assumes "reachable s" "handlers s t = Some h" "h_pc h = Stop (StopSend c)"
    and "fire (Handler t) s = Some s1" "run as s1 = Some s'"
  shows "Tick c \<notin> set as \<and> (\<forall>outcome sendMail. Poll c outcome sendMail \<notin> set as) \<and>
     (\<exists>w'. watchers s' c = Some w' \<and> \<not> live w')"
proof -
  from reachable_points [OF assms(1,2)] assms(3) have nc: "\<not> is_closed s c" by simp
  with assms(2-4) have ready: "receiver_ready s c" and s1: "s1 = goto t h (Stop (StopClose c)) (apply_op (Signal c) s)"
    by (auto simp: handler_step_def statement_def)
  from receiver_readyD [OF ready] s1 obtain w1 where "watchers s1 c = Some w1" "\<not> live w1"
    by (auto simp: live_def)
  from dead_watcher_run [OF _ this assms(5)] assms(1,4) show ?thesis
    by (meson reachable.step reachable_inv)
qed

theorem stop_ends_polling_witness:
  "reachable sending \<and> fire (Handler 1) sending \<noteq> None \<and>
   run [Exit 0, Handler 1, Handler 1] (the (fire (Handler 1) sending)) \<noteq> None \<and>
   run [Tick 0] (the (fire (Handler 1) sending)) = None"
proof -
  have h: "handlers sending 1 = Some \<lparr>h_ctx = stop_req alice, h_pc = Stop (StopSend 0)\<rparr>"
    by (simp add: sending_def)
  have f: "fire (Handler 1) sending = Some (the (fire (Handler 1) sending))"
    by (simp add: sending_def subscribed_def is_closed_def handler_defs)
  have r: "run [Exit 0, Handler 1, Handler 1] (the (fire (Handler 1) sending)) =
      Some (the (run [Exit 0, Handler 1, Handler 1] (the (fire (Handler 1) sending))))"
    by (simp add: sending_def subscribed_def is_closed_def handler_defs watcher_defs)
  have n: "run [Tick 0] (the (fire (Handler 1) sending)) = None"
    by (simp add: sending_def subscribed_def is_closed_def handler_defs watcher_defs)
  from stop_ends_polling [OF reachable_sending h _ f r] reachable_sending f r n show ?thesis
    by (metis option.distinct(1))
qed

text \<open>
  C12: every mail has a cause. The outbox grows only in a pass of a watcher
  that is registered under its subscriber's address and has read a page whose
  count parses to a positive number; the one mail added is the notification for
  that subscriber, count and course.
\<close>

theorem mail_only_on_positive_poll:
  assumes "reachable s" "fire a s = Some s'" "outbox s' \<noteq> outbox s"
  shows "\<exists>c body sendMail w n. a = Poll c (BodyRead body) sendMail \<and> watchers s c = Some w \<and>
     subscriptions s (w_email w) = Some c \<and> parseAvailableSeats body = Ok n \<and> 0 < sint n \<and>
     outbox s' = outbox s @ [notification_mail (w_email w) n (w_crn w)]"
proof (cases a)
  case (Poll c outcome sendMail)
  with assms(2) obtain w w' fx where w0: "watchers s c = Some w"
    and p: "on_poll w outcome sendMail = Some (w', fx)"
    and s0: "s' = apply_effects fx (s\<lparr>watchers := (watchers s)(c \<mapsto> w')\<rparr>)"
    by (auto elim!: watcher_stepE)
  from p have w1: "w_pc w = WPolling" and fx: "w' = fst (poll w outcome sendMail)"
    "fx = snd (poll w outcome sendMail)" by (auto simp: on_poll_def split: if_splits)
  note w = w0 w1
  from s0 fx have s': "s' = apply_effects (snd (poll w outcome sendMail))
                   (s\<lparr>watchers := (watchers s)(c \<mapsto> fst (poll w outcome sendMail))\<rparr>)"
    by simp
  from s' assms(3) have "fx_mails (snd (poll w outcome sendMail)) \<noteq> []" by auto
  from poll_mails [OF this] obtain body n where b: "outcome = BodyRead body"
    "parseAvailableSeats body = Ok n" "0 < sint n"
    "fx_mails (snd (poll w outcome sendMail)) = [notification_mail (w_email w) n (w_crn w)]"
    by blast
  from reachable_inv [OF assms(1)] w have "subscriptions s (w_email w) = Some c"
    using sys_invD(6) by (auto simp: inv_live_def live_def)
  with Poll w b s' show ?thesis by auto
qed (use assms(2,3) in \<open>auto simp: serve_def silent_def no_effects_def on_exit_Some
      split: if_splits elim!: watcher_stepE handler_stepE\<close>)

theorem mail_only_on_positive_poll_witness:
  "reachable polling \<and>
   map_option outbox (fire (Poll 0 (BodyRead (seats_prefix @ ''4'' @ seats_suffix)) None) polling) =
     Some [notification_mail alice 4 ''12345'']"
proof -
  let ?a = "Poll 0 (BodyRead (seats_prefix @ ''4'' @ seats_suffix)) None"
  have p: "parseAvailableSeats (seats_prefix @ ''4'' @ seats_suffix) = Ok 4"
    using parseAvailableSeats_Itoa [of 4 "[]"] by (simp add: Itoa_def nat_digits.simps)
  then have f: "fire ?a polling = Some (the (fire ?a polling))"
    and o: "outbox (the (fire ?a polling)) = [notification_mail alice 4 ''12345'']"
    by (simp_all add: polling_def subscribed_def poll_def watcher_defs split_beta)
  then have "outbox (the (fire ?a polling)) \<noteq> outbox polling"
    by (simp add: polling_def subscribed_def)
  from mail_only_on_positive_poll [OF reachable_polling f this] reachable_polling f o
  show ?thesis by (metis option.simps(9))
qed

text \<open>
  C30: a stop request waits for the poll, with the mutex held. While the watcher
  is inside the ticker case (the exchange with the server, the parse, the mail),
  the handler that wants to stop it cannot complete its send, keeps
  \<^verbatim>\<open>subscriptionsMux\<close>, and every handler at \<^verbatim>\<open>Lock\<close> is blocked with it.
\<close>

theorem stop_blocks_during_poll:
  assumes "reachable s" "handlers s t = Some h" "h_pc h = Stop (StopSend c)"
    and "watchers s c = Some w" "w_pc w = WPolling"
  shows "fire (Handler t) s = None \<and> subscriptionsMux s = Some t \<and>
     (\<forall>t' h'. handlers s t' = Some h' \<and> (h_pc h' = Start StartLock \<or> h_pc h' = Stop StopLock)
        \<longrightarrow> fire (Handler t') s = None)"
proof -
  from reachable_points [OF assms(1,2)] assms(3) have "\<not> is_closed s c" by simp
  with assms(2-5) have "fire (Handler t) s = None"
    by (simp add: handler_step_def statement_def send_stop_def receiver_ready_def)
  moreover from reachable_holder [OF assms(1,2)] assms(3) have "subscriptionsMux s = Some t"
    by simp
  ultimately show ?thesis
    by (auto simp: handler_step_def statement_def Lock_def)
qed

theorem stop_blocks_during_poll_witness:
  "reachable waiting \<and> fire (Handler 1) waiting = None \<and> subscriptionsMux waiting = Some 1"
proof -
  have h: "handlers waiting 1 = Some \<lparr>h_ctx = stop_req alice, h_pc = Stop (StopSend 0)\<rparr>"
    and w: "watchers waiting 0 = Some ((new_watcher alice ''12345'')\<lparr>w_pc := WPolling\<rparr>)"
    by (simp_all add: waiting_def polling_def subscribed_def)
  from stop_blocks_during_poll [OF reachable_waiting h _ w] reachable_waiting show ?thesis
    by simp
qed

end
