(* ===== verification/Refinement.thy ===== *)
theory Refinement
  imports Safety
begin

text \<open>
  The contract of the registry and the proof that the handlers implement it.
  The abstract registry is a set of active subscriber keys with two atomic
  operations, \<open>CallStart\<close> and \<open>CallStop\<close>, each returning one of four verdicts.
  Every step of the program either leaves the set of registered addresses
  unchanged or is the linearization point of one request, at which the set
  changes as the abstract operation says and the handler commits to the
  abstract verdict; the response it sends later is the rendering of that verdict.
\<close>

section \<open>The abstract registry\<close>

datatype call = CallStart string | CallStop string

datatype verdict = Started | AlreadyActive | Stopped | NotFound

fun registry_spec :: "call \<Rightarrow> string set \<Rightarrow> verdict \<times> string set" where
  "registry_spec (CallStart k) A = (if k \<in> A then (AlreadyActive, A) else (Started, insert k A))"
| "registry_spec (CallStop k) A = (if k \<in> A then (Stopped, A - {k}) else (NotFound, A))"

definition active :: "sys \<Rightarrow> string set" where
  "active s = dom (subscriptions s)"

fun render :: "verdict \<Rightarrow> string \<Rightarrow> response" where
  "render Started k = started k"
| "render AlreadyActive k = already_running"
| "render Stopped k = stopped k"
| "render NotFound k = not_found"

section \<open>Linearization points\<close>

text \<open>
  A start request takes effect at its map assignment, or at its lookup when the
  address is registered; a stop request at its \<^verbatim>\<open>delete\<close>, or at its lookup
  when the address is not registered.
\<close>

fun lin_start :: "start_pc \<Rightarrow> sys \<Rightarrow> string \<Rightarrow> call option" where
  "lin_start StartCheck s k = (if subscriptions s k \<noteq> None then Some (CallStart k) else None)"
| "lin_start (StartInsert c) s k = Some (CallStart k)"
| "lin_start p s k = None"

fun lin_stop :: "stop_pc \<Rightarrow> sys \<Rightarrow> string \<Rightarrow> call option" where
  "lin_stop StopLookup s k = (if subscriptions s k = None then Some (CallStop k) else None)"
| "lin_stop (StopDelete c) s k = Some (CallStop k)"
| "lin_stop p s k = None"

fun lin_pc :: "pc \<Rightarrow> sys \<Rightarrow> string \<Rightarrow> call option" where
  "lin_pc (Start p) s k = lin_start p s k"
| "lin_pc (Stop p) s k = lin_stop p s k"
| "lin_pc p s k = None"

fun lin :: "action \<Rightarrow> sys \<Rightarrow> (tid \<times> call) option" where
  "lin (Handler t) s =
     (case handlers s t of
        None \<Rightarrow> None
      | Some h \<Rightarrow> map_option (Pair t) (lin_pc (h_pc h) s (email_of h)))"
| "lin a s = None"

text \<open>The verdict a handler has committed to, read off its program point.\<close>

fun committed_start :: "start_pc \<Rightarrow> verdict option" where
  "committed_start StartExistsUnlock = Some AlreadyActive"
| "committed_start StartExistsRespond = Some AlreadyActive"
| "committed_start (StartUnlock c) = Some Started"
| "committed_start (StartGo c) = Some Started"
| "committed_start StartRespond = Some Started"
| "committed_start p = None"

fun committed_stop :: "stop_pc \<Rightarrow> verdict option" where
  "committed_stop StopUnlock = Some Stopped"
| "committed_stop StopRespond = Some Stopped"
| "committed_stop StopMissUnlock = Some NotFound"
| "committed_stop StopMissRespond = Some NotFound"
| "committed_stop p = None"

fun committed :: "pc \<Rightarrow> string \<Rightarrow> verdict \<Rightarrow> bool" where
  "committed (Start p) k v = (committed_start p = Some v)"
| "committed (Stop p) k v = (committed_stop p = Some v)"
| "committed (Done r) k v = (r = render v k)"
| "committed (Panicked m) k v = False"

text \<open>The calls that take effect along a schedule, in order.\<close>

fun calls :: "action list \<Rightarrow> sys \<Rightarrow> call list" where
  "calls [] s = []"
| "calls (a # as) s =
     (case fire a s of
        None \<Rightarrow> []
      | Some s' \<Rightarrow> (case lin a s of None \<Rightarrow> [] | Some (t, c) \<Rightarrow> [c]) @ calls as s')"

definition spec_run :: "call list \<Rightarrow> string set \<Rightarrow> string set" where
  "spec_run cs A = fold (\<lambda>c A. snd (registry_spec c A)) cs A"

text \<open>
  The history of a schedule: each call that took effect, with the verdict its
  handler committed to in that step. A history is legal from a set of keys if
  the abstract registry, executing the calls in order, returns these verdicts.
\<close>

fun verdict_at :: "pc \<Rightarrow> verdict option" where
  "verdict_at (Start p) = committed_start p"
| "verdict_at (Stop p) = committed_stop p"
| "verdict_at p = None"

fun history :: "action list \<Rightarrow> sys \<Rightarrow> (call \<times> verdict option) list" where
  "history [] s = []"
| "history (a # as) s =
     (case fire a s of
        None \<Rightarrow> []
      | Some s' \<Rightarrow>
          (case lin a s of
             None \<Rightarrow> []
           | Some (t, c) \<Rightarrow> [(c, Option.bind (handlers s' t) (\<lambda>h. verdict_at (h_pc h)))])
          @ history as s')"

text \<open>
  Two start requests for one address that arrive together: the second handler
  reads its parameters before the first takes the mutex and runs when the first
  has answered.
\<close>

definition storm :: "string \<Rightarrow> string \<Rightarrow> string \<Rightarrow> action list" where
  "storm k crn crn' =
     [Serve 0 (start_req k crn), Serve 1 (start_req k crn'), Handler 1] @
     replicate 8 (Handler 0) @ replicate 4 (Handler 1)"

fun legal :: "(call \<times> verdict option) list \<Rightarrow> string set \<Rightarrow> bool" where
  "legal [] A = True"
| "legal ((c, v) # h) A = (v = Some (fst (registry_spec c A)) \<and> legal h (snd (registry_spec c A)))"

section \<open>One statement of a handler\<close>

lemma active_frame [simp]:
  "active (goto t h p s) = active s" "active (apply_effects fx s) = active s"
  "active (s\<lparr>watchers := ws\<rparr>) = active s" "active (s\<lparr>handlers := hs\<rparr>) = active s"
  by (simp_all add: active_def)

lemma active_op [simp]:
  "active (apply_op (Insert k c) s) = insert k (active s)"
  "active (apply_op (Delete k) s) = active s - {k}"
  "active (apply_op Skip s) = active s" "active (apply_op (Acquire t) s) = active s"
  "active (apply_op Release s) = active s" "active (apply_op MakeChan s) = active s"
  "active (apply_op (Spawn c w) s) = active s" "active (apply_op (Signal c) s) = active s"
  "active (apply_op (CloseChan c) s) = active s"
  by (auto simp: active_def)

lemma render_inj: "render v k = render v' k \<Longrightarrow> v = v'"
  by (cases v; cases v') (auto simp: response_defs JSON_def StatusOK_def StatusBadRequest_def)

text \<open>
  What a statement owes to the contract: at a linearization point the abstract
  call gives the new set of addresses and the verdict the handler commits to;
  at any other statement the set stays and a commitment made earlier is kept.
\<close>

definition refines :: "handler \<Rightarrow> sys \<Rightarrow> pc \<Rightarrow> op \<Rightarrow> bool" where
  "refines h s p' u \<longleftrightarrow>
     (case lin_pc (h_pc h) s (email_of h) of
        None \<Rightarrow> active (apply_op u s) = active s \<and>
                (\<forall>v. committed (h_pc h) (email_of h) v \<longrightarrow> committed p' (email_of h) v)
      | Some c \<Rightarrow> (\<forall>v. \<not> committed (h_pc h) (email_of h) v) \<and>
                  (\<exists>v. registry_spec c (active s) = (v, active (apply_op u s)) \<and>
                       committed p' (email_of h) v))"

lemma start_refines:
  assumes "sys_inv s" "handlers s t = Some h" "h_pc h = Start p"
    and "startCourseCheckHandler t h p s = Some (p', u)"
  shows "refines h s p' u"
proof -
  from assms(1-3) have at: "start_at s (email_of h) p"
    using inv_pointsD [OF sys_invD(2)] by fastforce
  from assms(1-3) have mx: "start_holds p \<longleftrightarrow> subscriptionsMux s = Some t"
    using inv_mutex_holds [OF sys_invD(1)] by fastforce
  show ?thesis
    using assms(3,4) at mx
    by (cases p) (auto simp: refines_def email_of_def active_def Unlock_def split: if_splits)
qed

lemma stop_refines:
  assumes "sys_inv s" "handlers s t = Some h" "h_pc h = Stop p"
    and "stopCourseCheckHandler t h p s = Some (p', u)"
  shows "refines h s p' u"
proof -
  from assms(1-3) have at: "stop_at s (email_of h) p"
    using inv_pointsD [OF sys_invD(2)] by fastforce
  from assms(1-3) have mx: "stop_holds p \<longleftrightarrow> subscriptionsMux s = Some t"
    using inv_mutex_holds [OF sys_invD(1)] by fastforce
  show ?thesis
    using assms(3,4) at mx
    by (cases p)
       (auto simp: refines_def email_of_def active_def Unlock_def send_stop_def close_chan_def
          split: if_splits option.splits)
qed

lemma statement_refines:
  assumes "sys_inv s" "handlers s t = Some h" "statement t h s = Some (p', u)"
  shows "refines h s p' u"
  using assms
  by (auto simp: statement_def split: pc.splits intro: start_refines stop_refines)

lemma fire_other_frame:
  assumes "fire a s = Some s'" "\<forall>t. a \<noteq> Handler t"
  shows "active s' = active s" "lin a s = None"
  using assms
  by (cases a; auto simp: serve_def split: if_splits elim!: watcher_stepE)+

lemma spec_run_append [simp]: "spec_run (cs @ ds) A = spec_run ds (spec_run cs A)"
  by (simp add: spec_run_def)

lemma spec_run_simps [simp]:
  "spec_run [] A = A" "spec_run (c # cs) A = spec_run cs (snd (registry_spec c A))"
  by (simp_all add: spec_run_def)

lemma fire_refines:
  assumes "sys_inv s" "fire a s = Some s'"
  shows "active s' = spec_run (case lin a s of None \<Rightarrow> [] | Some (t, c) \<Rightarrow> [c]) (active s)"
proof (cases "\<exists>t. a = Handler t")
  case True
  then obtain t where a: "a = Handler t" ..
  with assms(2) obtain h p' u where h: "handlers s t = Some h"
    and st: "statement t h s = Some (p', u)" and s': "s' = goto t h p' (apply_op u s)"
    by (auto elim: handler_stepE)
  from statement_refines [OF assms(1) h st] a h s' show ?thesis
    by (auto simp: refines_def split: option.splits)
next
  case False
  with fire_other_frame [OF assms(2)] show ?thesis by simp
qed

lemma lin_continues:
  assumes "statement t h s = Some (p', u)" "lin_pc (h_pc h) s k = Some c"
  shows "p' \<noteq> Done r"
  using assms
  by (auto simp: statement_def split: pc.splits if_splits option.splits
      elim!: lin_start.elims lin_stop.elims)

lemma fire_history:
  assumes "sys_inv s" "fire a s = Some s'"
  shows "legal (history [a] s) (active s)"
proof (cases "\<exists>t. a = Handler t")
  case True
  then obtain t where a: "a = Handler t" ..
  with assms(2) obtain h p' u where h: "handlers s t = Some h"
    and st: "statement t h s = Some (p', u)" and s': "s' = goto t h p' (apply_op u s)"
    by (auto elim: handler_stepE)
  from statement_refines [OF assms(1) h st] lin_continues [OF st] a h s' assms(2) show ?thesis
    by (cases p') (auto simp: refines_def split: option.splits)
next
  case False
  with fire_other_frame [OF assms(2)] assms(2) show ?thesis by simp
qed

lemma calls_history: "calls as s = map fst (history as s)"
  by (induction as arbitrary: s) (auto split: option.splits)

lemma legal_append: "legal (h @ h') A \<longleftrightarrow> legal h A \<and> legal h' (spec_run (map fst h) A)"
proof (induction h arbitrary: A)
  case Nil
  then show ?case by simp
next
  case (Cons e h)
  then show ?case by (cases e) simp
qed

lemma run_legal:
  assumes "sys_inv s" "run as s = Some s'"
  shows "legal (history as s) (active s) \<and> active s' = spec_run (calls as s) (active s)"
  using assms
proof (induction as arbitrary: s)
  case Nil
  then show ?case by simp
next
  case (Cons a as)
  from Cons.prems(2) obtain s1 where s1: "fire a s = Some s1" "run as s1 = Some s'"
    by (auto split: option.splits)
  from s1(1) have split: "history (a # as) s = history [a] s @ history as s1"
    by (simp split: option.splits)
  from fire_refines [OF Cons.prems(1) s1(1)] s1(1)
  have "active s1 = spec_run (map fst (history [a] s)) (active s)"
    by (simp split: option.splits)
  with Cons.IH [OF fire_inv [OF Cons.prems(1) s1(1)] s1(2)] fire_history [OF Cons.prems(1) s1(1)]
  have "legal (history [a] s @ history as s1) (active s) \<and>
      active s' = spec_run (map fst (history [a] s @ history as s1)) (active s)"
    by (simp add: legal_append calls_history del: history.simps)
  then show ?case by (simp only: calls_history split [symmetric])
qed

lemma spec_run_storm:
  "CallStop k \<notin> set cs \<Longrightarrow> k \<in> spec_run cs A \<longleftrightarrow> k \<in> A \<or> CallStart k \<in> set cs"
proof (induction cs arbitrary: A)
  case Nil
  then show ?case by simp
next
  case (Cons c cs)
  then show ?case by (cases c) auto
qed

text \<open>In a legal history without a stop for a key, the key is started at most once.\<close>

lemma legal_storm:
  assumes "legal h A" "CallStop k \<notin> fst ` set h"
  shows "count_list h (CallStart k, Some Started) =
           (if k \<notin> A \<and> CallStart k \<in> fst ` set h then 1 else 0) \<and>
         (\<forall>e \<in> set h. fst e = CallStart k \<longrightarrow> snd e = Some Started \<or> snd e = Some AlreadyActive)"
  using assms
proof (induction h arbitrary: A)
  case Nil
  then show ?case by simp
next
  case (Cons e h)
  obtain c v where e: "e = (c, v)" by (cases e)
  from Cons.prems e have v: "v = Some (fst (registry_spec c A))"
    and rest: "legal h (snd (registry_spec c A))" "CallStop k \<notin> fst ` set h" and c: "c \<noteq> CallStop k"
    by auto
  from Cons.IH [OF rest] e v c show ?case
    by (cases c) (auto split: if_splits)
qed

section \<open>Properties\<close>

text \<open>
  C5: every step refines the abstract registry. A step that is not a
  linearization point leaves the set of registered addresses unchanged. At a
  linearization point the handler had not committed to a verdict before, the
  set changes exactly as the abstract \<open>Start\<close> or \<open>Stop\<close> prescribes, and the
  handler commits to the verdict the abstract operation returns.
\<close>

theorem registry_refines_spec:
  assumes "reachable s" "fire a s = Some s'"
  shows "case lin a s of
           None \<Rightarrow> active s' = active s
         | Some (t, c) \<Rightarrow>
             (\<exists>h h' v. handlers s t = Some h \<and> handlers s' t = Some h' \<and>
                (\<forall>v'. \<not> committed (h_pc h) (email_of h) v') \<and>
                registry_spec c (active s) = (v, active s') \<and>
                committed (h_pc h') (email_of h) v)"
proof (cases "\<exists>t. a = Handler t")
  case True
  then obtain t where a: "a = Handler t" ..
  with assms(2) obtain h p' u where h: "handlers s t = Some h"
    and st: "statement t h s = Some (p', u)" and s': "s' = goto t h p' (apply_op u s)"
    by (auto elim: handler_stepE)
  from statement_refines [OF reachable_inv [OF assms(1)] h st] a h s' show ?thesis
    by (auto simp: refines_def split: option.splits)
next
  case False
  with fire_other_frame [OF assms(2)] show ?thesis by simp
qed

theorem registry_refines_spec_witness:
  "reachable inserting \<and> lin (Handler 0) inserting = Some (0, CallStart alice) \<and>
   registry_spec (CallStart alice) (active inserting) = (Started, {alice}) \<and>
   map_option active (fire (Handler 0) inserting) = Some {alice}"
proof -
  have f: "fire (Handler 0) inserting = Some (the (fire (Handler 0) inserting))"
    by (simp add: inserting_def handler_defs)
  have l: "lin (Handler 0) inserting = Some (0, CallStart alice)"
    by (simp add: inserting_def email_of_def)
  have a: "active inserting = {}" by (simp add: active_def inserting_def)
  from registry_refines_spec [OF reachable_inserting f] l a reachable_inserting f show ?thesis
    by (auto simp del: fire.simps lin.simps)
qed

text \<open>
  C15: a commitment is kept. Once a handler has committed to a verdict, every
  later step leaves it committed to the same verdict for the same address; when
  it has answered, its response is the rendering of that verdict.
\<close>

theorem commitment_kept:
  assumes "reachable s" "fire a s = Some s'" "handlers s t = Some h"
    and "committed (h_pc h) (email_of h) v"
  shows "\<exists>h'. handlers s' t = Some h' \<and> email_of h' = email_of h \<and>
     committed (h_pc h') (email_of h') v \<and>
     (\<forall>r. h_pc h' = Done r \<longrightarrow> r = render v (email_of h))"
proof -
  have "\<exists>h'. handlers s' t = Some h' \<and> email_of h' = email_of h \<and> committed (h_pc h') (email_of h) v"
  proof (cases "a = Handler t")
    case True
    with assms(2,3) obtain p' u where st: "statement t h s = Some (p', u)"
      and s': "s' = goto t h p' (apply_op u s)"
      by (auto elim: handler_stepE)
    from statement_refines [OF reachable_inv [OF assms(1)] assms(3) st] assms(4) s' show ?thesis
      by (auto simp: refines_def email_of_def split: option.splits)
  next
    case False
    with assms(2,3) have "handlers s' t = Some h"
      by (cases a) (auto simp: serve_def split: if_splits elim!: watcher_stepE handler_stepE)
    with assms(4) show ?thesis by simp
  qed
  then show ?thesis by (cases "h_pc (the (handlers s' t))") auto
qed

theorem commitment_kept_witness:
  "reachable subscribed \<and> committed (Done (started alice)) alice Started \<and>
   fire (Tick 0) subscribed = Some polling \<and>
   map_option h_pc (handlers polling 0) = Some (Done (render Started alice))"
proof -
  let ?h = "\<lparr>h_ctx = start_req alice ''12345'', h_pc = Done (started alice)\<rparr>"
  have h: "handlers subscribed 0 = Some ?h" "handlers polling 0 = Some ?h"
    by (simp_all add: polling_def subscribed_def)
  have c: "committed (h_pc ?h) (email_of ?h) Started"
    by (simp add: email_of_def)
  from commitment_kept [OF reachable_subscribed fire_tick_subscribed h(1) c] h(2)
    fire_tick_subscribed reachable_subscribed
  show ?thesis by simp
qed

text \<open>
  C6: a run of the program is a run of the abstract registry. After any
  schedule the set of registered addresses is the one the abstract registry
  reaches by executing, in order, the calls that took effect along the
  schedule, and the verdicts the handlers committed to are the ones the
  abstract registry returns for these calls.
\<close>

theorem run_refines_spec:
  assumes "reachable s" "run as s = Some s'"
  shows "active s' = spec_run (calls as s) (active s) \<and> legal (history as s) (active s)"
  using run_legal [OF reachable_inv [OF assms(1)] assms(2)] by simp

theorem run_refines_spec_witness:
  "calls (subscribe 0 alice ''12345'' @ unsubscribe 1 alice) init_sys = [CallStart alice, CallStop alice] \<and>
   map_option active (run (subscribe 0 alice ''12345'' @ unsubscribe 1 alice) init_sys) = Some {}"
proof -
  let ?as = "subscribe 0 alice ''12345'' @ unsubscribe 1 alice"
  have "\<exists>s'. run ?as init_sys = Some s'"
    by (simp add: run_append subscribe_def unsubscribe_def init_sys_def alice_def is_closed_def
        handler_defs)
  then obtain s' where r: "run ?as init_sys = Some s'" ..
  have c: "calls ?as init_sys = [CallStart alice, CallStop alice]"
    by (simp add: subscribe_def unsubscribe_def init_sys_def alice_def is_closed_def
        handler_defs email_of_def)
  from run_refines_spec [OF reachable.init r] c have "active s' = {}"
    by (simp add: active_def init_sys_def)
  with r c show ?thesis by simp
qed

text \<open>
  C13: a storm of start requests. Whatever the interleaving, if an address is
  not registered, no stop request for it takes effect and at least one start
  request for it does, then exactly one of the start requests is answered
  \<open>Started\<close>, every other one \<open>AlreadyActive\<close>, and the address is registered
  at the end.
\<close>

theorem start_storm:
  assumes "reachable s" "run as s = Some s'" "k \<notin> active s"
    and "CallStop k \<notin> set (calls as s)" "CallStart k \<in> set (calls as s)"
  shows "count_list (history as s) (CallStart k, Some Started) = 1 \<and>
     (\<forall>e \<in> set (history as s). fst e = CallStart k \<longrightarrow>
        snd e = Some Started \<or> snd e = Some AlreadyActive) \<and>
     k \<in> active s'"
proof -
  from run_legal [OF reachable_inv [OF assms(1)] assms(2)]
  have l: "legal (history as s) (active s)" and a: "active s' = spec_run (calls as s) (active s)"
    by simp_all
  from legal_storm [OF l, of k] assms(3-5) spec_run_storm [of k "calls as s" "active s"] a
  show ?thesis by (simp add: calls_history)
qed

theorem start_storm_witness:
  "history (storm alice ''12345'' ''99999'') init_sys =
     [(CallStart alice, Some Started), (CallStart alice, Some AlreadyActive)] \<and>
   map_option active (run (storm alice ''12345'' ''99999'') init_sys) = Some {alice}"
proof -
  let ?as = "storm alice ''12345'' ''99999''"
  have "\<exists>s'. run ?as init_sys = Some s'"
    by (simp add: storm_def run_append init_sys_def alice_def handler_defs)
  then obtain s' where r: "run ?as init_sys = Some s'" ..
  have h: "history ?as init_sys =
      [(CallStart alice, Some Started), (CallStart alice, Some AlreadyActive)]"
    by (simp add: storm_def init_sys_def alice_def handler_defs email_of_def)
  from start_storm [OF reachable.init r, of alice] h have "alice \<in> active s'"
    by (simp add: calls_history active_def init_sys_def)
  moreover from run_legal [OF reachable_inv [OF reachable.init] r] h
  have "active s' \<subseteq> {alice}" by (simp add: calls_history active_def init_sys_def)
  ultimately show ?thesis using r h by auto
qed

end
