(* ===== verification/Progress.thy ===== *)
theory Progress
  imports Safety
begin

text \<open>
  Termination of the handlers. Neither handler has a loop: each statement moves
  the handler to a program point of lower rank, so a request executes at most
  eight statements under any schedule, and then it has answered, has panicked
  or is blocked.
\<close>

section \<open>Ranks\<close>

fun start_rank :: "start_pc \<Rightarrow> nat" where
  "start_rank StartValidate = 8"
| "start_rank StartLock = 7"
| "start_rank StartCheck = 6"
| "start_rank StartMake = 5"
| "start_rank (StartInsert c) = 4"
| "start_rank (StartUnlock c) = 3"
| "start_rank (StartGo c) = 2"
| "start_rank StartRespond = 1"
| "start_rank StartExistsUnlock = 2"
| "start_rank StartExistsRespond = 1"

fun stop_rank :: "stop_pc \<Rightarrow> nat" where
  "stop_rank StopValidate = 8"
| "stop_rank StopLock = 7"
| "stop_rank StopLookup = 6"
| "stop_rank (StopSend c) = 5"
| "stop_rank (StopClose c) = 4"
| "stop_rank (StopDelete c) = 3"
| "stop_rank StopUnlock = 2"
| "stop_rank StopRespond = 1"
| "stop_rank StopMissUnlock = 2"
| "stop_rank StopMissRespond = 1"

fun rank :: "pc \<Rightarrow> nat" where
  "rank (Start p) = start_rank p"
| "rank (Stop p) = stop_rank p"
| "rank (Done r) = 0"
| "rank (Panicked m) = 0"

definition rank_of :: "sys \<Rightarrow> tid \<Rightarrow> nat" where
  "rank_of s t = (case handlers s t of None \<Rightarrow> 8 | Some h \<Rightarrow> rank (h_pc h))"

section \<open>Every statement lowers the rank\<close>

lemma rank_route: "rank (route c) \<le> 8"
  by (simp add: route_def)

lemma start_rank_decreases:
  "startCourseCheckHandler t h p s = Some (p', u) \<Longrightarrow> rank p' < start_rank p"
  by (cases p) (auto simp: Unlock_def split: if_splits)

lemma stop_rank_decreases:
  "stopCourseCheckHandler t h p s = Some (p', u) \<Longrightarrow> rank p' < stop_rank p"
  by (cases p) (auto simp: Unlock_def send_stop_def close_chan_def split: if_splits option.splits)

lemma statement_rank: "statement t h s = Some (p', u) \<Longrightarrow> rank p' < rank (h_pc h)"
  by (auto simp: statement_def split: pc.splits dest: start_rank_decreases stop_rank_decreases)

lemma fire_rank:
  assumes "fire a s = Some s'"
  shows "rank_of s' t + (if a = Handler t then 1 else 0) \<le> rank_of s t"
proof (cases a)
  case (Serve t' c)
  with assms rank_route [of c] show ?thesis
    by (auto simp: rank_of_def serve_def split: if_splits)
next
  case (Handler t')
  with assms obtain h p' u where h: "handlers s t' = Some h"
    and st: "statement t' h s = Some (p', u)" and s': "s' = goto t' h p' (apply_op u s)"
    by (auto elim: handler_stepE)
  from statement_rank [OF st] Handler h s' show ?thesis
    by (auto simp: rank_of_def)
qed (insert assms, auto simp: rank_of_def split: if_splits elim!: watcher_stepE)

lemma run_rank: "run as s = Some s' \<Longrightarrow> count_list as (Handler t) + rank_of s' t \<le> rank_of s t"
proof (induction as arbitrary: s)
  case Nil
  then show ?case by simp
next
  case (Cons a as)
  from Cons.prems obtain s1 where s1: "fire a s = Some s1" "run as s1 = Some s'"
    by (auto split: option.splits)
  from Cons.IH [OF s1(2)] fire_rank [OF s1(1), of t] show ?case
    by (auto split: if_splits)
qed

section \<open>Properties\<close>

text \<open>
  C14: the handlers terminate. In any schedule that the program can execute,
  the handler of one request executes at most eight statements; counted from any
  state, it executes at most the rank of the point it stands at.
\<close>

theorem handler_terminates:
  assumes "run as s = Some s'"
  shows "count_list as (Handler t) \<le> rank_of s t \<and> rank_of s t \<le> 8"
proof -
  have "rank p \<le> 8" for p
  proof (cases p)
    case (Start x)
    then show ?thesis by (cases x) simp_all
  next
    case (Stop x)
    then show ?thesis by (cases x) simp_all
  qed simp_all
  then have "rank_of s t \<le> 8" by (simp add: rank_of_def split: option.splits)
  with run_rank [OF assms, of t] show ?thesis by simp
qed

theorem handler_terminates_witness:
  "run (subscribe 0 alice ''12345'') init_sys = Some subscribed \<and>
   count_list (subscribe 0 alice ''12345'') (Handler 0) = 8 \<and> rank_of init_sys 0 = 8 \<and>
   fire (Handler 0) subscribed = None"
proof -
  have "count_list (subscribe 0 alice ''12345'') (Handler 0) = 8"
    by (simp add: subscribe_def request_def numeral_eq_Suc)
  moreover have "fire (Handler 0) subscribed = None"
    by (simp add: subscribed_def handler_step_def statement_def)
  moreover have "rank_of init_sys 0 = 8" by (simp add: rank_of_def init_sys_def)
  ultimately show ?thesis
    using handler_terminates [OF run_subscribe, of 0] run_subscribe by simp
qed

end
