(* ===== verification/Runtime.thy ===== *)
theory Runtime
  imports Safety
begin

text \<open>
  The process around the goroutines: \<^verbatim>\<open>main\<close>, real time and the tickers.
  A \<open>world\<close> is the state of the program together with the clock, one
  \<^verbatim>\<open>time.Ticker\<close> per watcher, what \<^verbatim>\<open>main\<close> has logged and the exit status of
  the process. An \<open>event\<close> is a step of a goroutine, the passing of time, or the
  return of \<^verbatim>\<open>router.Run\<close>. A watcher takes the ticker case of its
  \<^verbatim>\<open>select\<close> only when its ticker has a tick waiting; the theory of the
  untimed system allows that case at any moment, so every run of the world is a
  run of that system.
\<close>

section \<open>Tickers\<close>

definition Second :: nat where
  "Second = 1000000000"

text \<open>The argument of \<^verbatim>\<open>time.NewTicker\<close> at line 80, in nanoseconds.\<close>

definition period :: nat where
  "period = 60 * Second"

text \<open>
  A ticker sends on a channel with room for one tick: \<open>t_pending\<close> says that a
  tick waits there, \<open>t_next\<close> is the time of the next firing. A firing that
  finds the channel full is dropped.
\<close>

record ticker =
  t_next :: nat
  t_pending :: bool
  t_running :: bool

definition NewTicker :: "nat \<Rightarrow> nat \<Rightarrow> ticker" where
  "NewTicker now d = \<lparr>t_next = now + d, t_pending = False, t_running = True\<rparr>"

definition ticker_Stop :: "ticker \<Rightarrow> ticker" where
  "ticker_Stop tk = tk\<lparr>t_running := False\<rparr>"

text \<open>The clock reaches \<open>now\<close>: a running ticker that is due fires and is set to its next period.\<close>

definition advance :: "nat \<Rightarrow> nat \<Rightarrow> ticker \<Rightarrow> ticker" where
  "advance d now tk =
     (if t_running tk \<and> t_next tk \<le> now
      then tk\<lparr>t_pending := True, t_next := t_next tk + d * (1 + (now - t_next tk) div d)\<rparr>
      else tk)"

text \<open>The receive \<^verbatim>\<open><-ticker.C\<close>.\<close>

definition receive_tick :: "ticker \<Rightarrow> ticker option" where
  "receive_tick tk = (if t_pending tk then Some (tk\<lparr>t_pending := False\<rparr>) else None)"

section \<open>The process\<close>

record world =
  w_sys :: sys
  w_now :: nat
  w_tickers :: "chan \<rightharpoonup> ticker"
  w_fatal :: "log_entry list"
  w_exit :: "nat option"

text \<open>
  \<^verbatim>\<open>main\<close> up to the call of \<^verbatim>\<open>router.Run\<close>: the routes are registered, no
  request has arrived.
\<close>

definition main :: world where
  "main = \<lparr>w_sys = init_sys, w_now = 0, w_tickers = Map.empty, w_fatal = [], w_exit = None\<rparr>"

datatype event = Act action | Elapse nat | RunReturns "go_error option"

text \<open>
  A watcher that starts creates its ticker (line 80); a watcher that returns
  stops it (the deferred call of line 81).
\<close>

definition sync_tickers :: "nat \<Rightarrow> sys \<Rightarrow> sys \<Rightarrow> (chan \<rightharpoonup> ticker) \<Rightarrow> (chan \<rightharpoonup> ticker)" where
  "sync_tickers now s s' tks =
     (\<lambda>c. case watchers s' c of
             None \<Rightarrow> tks c
           | Some w' \<Rightarrow>
               (case watchers s c of
                  None \<Rightarrow> Some (NewTicker now period)
                | Some w \<Rightarrow> if w_pc w' = WReturned then map_option ticker_Stop (tks c) else tks c))"

text \<open>
  When \<^verbatim>\<open>router.Run\<close> returns an error, \<^verbatim>\<open>log.Fatal\<close> logs it and ends the
  process with status 1; when it returns \<^verbatim>\<open>nil\<close>, \<^verbatim>\<open>main\<close> returns and the
  process ends with status 0. After either no goroutine takes a step.
\<close>

definition run_returns :: "go_error option \<Rightarrow> world \<Rightarrow> world" where
  "run_returns r w =
     (case r of
        Some err \<Rightarrow> w\<lparr>w_fatal := w_fatal w @ [[LStr ''Failed to run server: '', LErr err]],
                       w_exit := Some 1\<rparr>
      | None \<Rightarrow> w\<lparr>w_exit := Some 0\<rparr>)"

definition elapse :: "nat \<Rightarrow> world \<Rightarrow> world" where
  "elapse d w = w\<lparr>w_now := w_now w + d,
     w_tickers := (\<lambda>c. map_option (advance period (w_now w + d)) (w_tickers w c))\<rparr>"

fun act :: "action \<Rightarrow> world \<Rightarrow> world option" where
  "act (Tick c) w =
     (case Option.bind (w_tickers w c) receive_tick of
        None \<Rightarrow> None
      | Some tk \<Rightarrow> map_option (\<lambda>s'. w\<lparr>w_sys := s', w_tickers := (w_tickers w)(c \<mapsto> tk)\<rparr>)
                     (fire (Tick c) (w_sys w)))"
| "act a w =
     map_option (\<lambda>s'. w\<lparr>w_sys := s', w_tickers := sync_tickers (w_now w) (w_sys w) s' (w_tickers w)\<rparr>)
       (fire a (w_sys w))"

fun world_step :: "event \<Rightarrow> world \<Rightarrow> world option" where
  "world_step (Act a) w = (if w_exit w = None then act a w else None)"
| "world_step (Elapse d) w = (if w_exit w = None then Some (elapse d w) else None)"
| "world_step (RunReturns r) w = (if w_exit w = None then Some (run_returns r w) else None)"

fun world_run :: "event list \<Rightarrow> world \<Rightarrow> world option" where
  "world_run [] w = Some w"
| "world_run (e # es) w = (case world_step e w of None \<Rightarrow> None | Some w' \<Rightarrow> world_run es w')"


text \<open>
  What a ticker has in hand at time \<open>now\<close>: a full period if a tick waits, and
  the time since it last fired.
\<close>

definition credit :: "ticker \<Rightarrow> nat \<Rightarrow> nat" where
  "credit tk now = (if t_pending tk then period else 0) + (now + period - t_next tk)"

definition credit_of :: "world \<Rightarrow> chan \<Rightarrow> nat" where
  "credit_of w c = (case w_tickers w c of None \<Rightarrow> 0 | Some tk \<Rightarrow> credit tk (w_now w))"

text \<open>One subscriber and the first minute of its watch; then the server fails.\<close>

definition first_minute :: "event list" where
  "first_minute = map Act (subscribe 0 alice ''12345'') @ [Elapse period, Act (Tick 0)]"


section \<open>Tickers: what a firing and a receive cost\<close>

lemma period_pos [simp]: "0 < period"
  by (simp add: period_def Second_def)

lemma credit_NewTicker [simp]: "credit (NewTicker now period) now = 0"
  by (simp add: credit_def NewTicker_def)

lemma credit_Stop [simp]: "credit (ticker_Stop tk) now = credit tk now"
  by (simp add: credit_def ticker_Stop_def)

lemma credit_receive: "receive_tick tk = Some tk' \<Longrightarrow> credit tk' now + period = credit tk now"
  by (auto simp: receive_tick_def credit_def split: if_splits)

lemma credit_advance: "credit (advance period (now + d) tk) (now + d) \<le> credit tk now + d"
proof (cases "t_running tk \<and> t_next tk \<le> now + d")
  case False
  then show ?thesis by (auto simp: advance_def credit_def)
next
  case True
  define k where "k = now + d - t_next tk"
  from True have nd: "now + d = t_next tk + k" by (simp add: k_def)
  have "k = period * (k div period) + k mod period" by simp
  then have "t_next tk + period * (1 + k div period) + k mod period = now + d + period"
    using nd by (simp add: algebra_simps)
  then have fired: "now + d + period - (t_next tk + period * (1 + k div period)) = k mod period"
    by linarith
  have "k mod period \<le> k" by simp
  have "period + k mod period \<le> (now + period - t_next tk) + d"
  proof (cases "t_next tk \<le> now + period")
    case True
    with nd \<open>k mod period \<le> k\<close> show ?thesis by linarith
  next
    case False
    with nd have "period + k < d" by linarith
    with \<open>k mod period \<le> k\<close> show ?thesis by linarith
  qed
  with True fired show ?thesis
    by (simp add: advance_def credit_def k_def)
qed

section \<open>Steps of the world\<close>

lemmas world_defs [nu_defs] = main_def elapse_def run_returns_def sync_tickers_def advance_def
  receive_tick_def NewTicker_def ticker_Stop_def

lemma act_sys: "act a w = Some w' \<Longrightarrow> fire a (w_sys w) = Some (w_sys w') \<and> w_now w' = w_now w"
  by (cases a) (auto split: option.splits if_splits)




lemma sync_tickers_credit:
  "credit_of (w\<lparr>w_sys := s', w_tickers := sync_tickers (w_now w) (w_sys w) s' (w_tickers w)\<rparr>) c
     \<le> credit_of w c"
  by (auto simp: credit_of_def sync_tickers_def split: option.splits)

lemma act_credit:
  assumes "act a w = Some w'"
  shows "credit_of w' c + (if a = Tick c then period else 0) \<le> credit_of w c"
proof (cases "\<exists>c'. a = Tick c'")
  case True
  then obtain c' where a: "a = Tick c'" ..
  with assms obtain tk tk' s' where tk: "w_tickers w c' = Some tk" "receive_tick tk = Some tk'"
    and w': "w' = w\<lparr>w_sys := s', w_tickers := (w_tickers w)(c' \<mapsto> tk')\<rparr>"
    by (auto split: option.splits bind_splits)
  from credit_receive [OF tk(2), of "w_now w"] a tk(1) w' show ?thesis
    by (auto simp: credit_of_def split: option.splits)
next
  case False
  with assms obtain s' where
    "w' = w\<lparr>w_sys := s', w_tickers := sync_tickers (w_now w) (w_sys w) s' (w_tickers w)\<rparr>"
    by (cases a) auto
  with False sync_tickers_credit [of w s' c] show ?thesis by auto
qed

lemma world_step_credit:
  assumes "world_step e w = Some w'"
  shows "credit_of w' c + (if e = Act (Tick c) then period else 0) + w_now w \<le> credit_of w c + w_now w'"
proof (cases e)
  case (Act a)
  with assms have a: "act a w = Some w'" by (simp split: if_splits)
  from act_credit [OF a, of c] act_sys [OF a] Act show ?thesis by auto
next
  case (Elapse d)
  with assms credit_advance [of "w_now w" d] show ?thesis
    by (auto simp: elapse_def credit_of_def split: if_splits option.splits)
next
  case (RunReturns r)
  with assms show ?thesis
    by (auto simp: run_returns_def credit_of_def split: if_splits option.splits)
qed

lemma world_run_credit:
  "world_run es w = Some w' \<Longrightarrow>
   count_list es (Act (Tick c)) * period + credit_of w' c + w_now w \<le> credit_of w c + w_now w'"
proof (induction es arbitrary: w)
  case Nil
  then show ?case by simp
next
  case (Cons e es)
  from Cons.prems obtain w1 where w1: "world_step e w = Some w1" "world_run es w1 = Some w'"
    by (auto split: option.splits)
  from world_step_credit [OF w1(1), of c] Cons.IH [OF w1(2)] show ?case
    by (auto split: if_splits)
qed

lemma world_run_first_minute:
  "world_run first_minute main =
     Some \<lparr>w_sys = polling, w_now = period,
           w_tickers = [0 \<mapsto> \<lparr>t_next = 2 * period, t_pending = False, t_running = True\<rparr>],
           w_fatal = [], w_exit = None\<rparr>"
  by (simp add: first_minute_def subscribe_def world_defs polling_def subscribed_def init_sys_def
      alice_def handler_defs watcher_defs fun_eq_iff)

section \<open>Properties\<close>



text \<open>
  C18: a watcher polls at most once per minute on average. In any run of the
  process, the number of times the watcher of a channel takes the ticker case is
  at most the time that has passed since before the watcher was started,
  divided by the period of sixty seconds.
\<close>

theorem tick_rate_bound:
  assumes "world_run es w = Some w'" "w_tickers w c = None"
  shows "count_list es (Act (Tick c)) * period \<le> w_now w' - w_now w"
  using world_run_credit [OF assms(1), of c] assms(2) by (simp add: credit_of_def)

theorem tick_rate_bound_witness:
  "world_run first_minute main \<noteq> None \<and> count_list first_minute (Act (Tick 0)) = 1 \<and>
   w_now (the (world_run first_minute main)) = period \<and>
   world_step (Act (Tick 0)) (the (world_run first_minute main)) = None"
proof -
  have c: "count_list first_minute (Act (Tick 0)) = 1"
    by (simp add: first_minute_def subscribe_def request_def numeral_eq_Suc)
  have n: "world_step (Act (Tick 0)) (the (world_run first_minute main)) = None"
    by (simp add: world_run_first_minute receive_tick_def)
  have m: "w_tickers main 0 = None" by (simp add: main_def)
  from tick_rate_bound [OF world_run_first_minute m] c n show ?thesis
    by (simp add: world_run_first_minute)
qed

end
