(* ===== verification/RegexSemantics.thy ===== *)
theory RegexSemantics
  imports SeatsParser
begin

text \<open>
  The meaning of the regular expressions of \<open>SeatsParser\<close> as sets of strings,
  and the proof that the backtracking matcher computes it: \<open>rmatch r s\<close> lists
  exactly the rests of \<open>s\<close> after a prefix in the language of \<open>r\<close>. The
  matcher drops an iteration of \<^verbatim>\<open>+\<close> that consumes nothing; it is complete for
  the expressions in which \<^verbatim>\<open>+\<close> is applied to an expression that does not
  match the empty string (\<open>proper\<close>), and the pattern of the program is one.
\<close>

section \<open>Languages\<close>

definition conc :: "string set \<Rightarrow> string set \<Rightarrow> string set" where
  "conc A B = {u @ v | u v. u \<in> A \<and> v \<in> B}"

inductive_set plus_lang :: "string set \<Rightarrow> string set" for A :: "string set" where
  one: "w \<in> A \<Longrightarrow> w \<in> plus_lang A"
| more: "u \<in> A \<Longrightarrow> v \<in> plus_lang A \<Longrightarrow> u @ v \<in> plus_lang A"

fun lang :: "rexp \<Rightarrow> string set" where
  "lang (Lit l) = {l}"
| "lang Digit = {[c] | c. is_digit c}"
| "lang (Opt r) = insert [] (lang r)"
| "lang (Plus r) = plus_lang (lang r)"
| "lang (Seq r1 r2) = conc (lang r1) (lang r2)"

fun nullable :: "rexp \<Rightarrow> bool" where
  "nullable (Lit l) = (l = [])"
| "nullable Digit = False"
| "nullable (Opt r) = True"
| "nullable (Plus r) = nullable r"
| "nullable (Seq r1 r2) = (nullable r1 \<and> nullable r2)"

fun proper :: "rexp \<Rightarrow> bool" where
  "proper (Opt r) = proper r"
| "proper (Plus r) = (proper r \<and> \<not> nullable r)"
| "proper (Seq r1 r2) = (proper r1 \<and> proper r2)"
| "proper r = True"

text \<open>The rests of \<open>s\<close> after a prefix in \<open>L\<close>.\<close>

definition rests :: "string set \<Rightarrow> string \<Rightarrow> string set" where
  "rests L s = {t. \<exists>w \<in> L. s = w @ t}"

definition whole :: "pattern \<Rightarrow> rexp" where
  "whole p = Seq (p_before p) (Seq (p_group p) (p_after p))"

section \<open>Languages and rests\<close>

lemma plus_lang_unfold: "w \<in> plus_lang A \<longleftrightarrow> w \<in> A \<or> (\<exists>u \<in> A. \<exists>v \<in> plus_lang A. w = u @ v)"
  by (auto intro: plus_lang.intros elim: plus_lang.cases)

lemma Nil_in_plus_lang [simp]: "[] \<in> plus_lang A \<longleftrightarrow> [] \<in> A"
proof
  assume "[] \<in> plus_lang A"
  then show "[] \<in> A" by (induction "[] :: string" rule: plus_lang.induct) auto
qed (rule plus_lang.one)

lemma nullable_iff: "nullable r \<longleftrightarrow> [] \<in> lang r"
  by (induction r) (auto simp: conc_def)

lemma rests_singleton [simp]: "rests {l} s = (if prefix l s then {drop (length l) s} else {})"
  by (auto simp: rests_def prefix_def)

lemma rests_insert_Nil [simp]: "rests (insert [] L) s = insert s (rests L s)"
  by (auto simp: rests_def)

lemma rests_conc: "rests (conc A B) s = (\<Union>t \<in> rests A s. rests B t)"
  by (fastforce simp: rests_def conc_def)

lemma concI: "u \<in> A \<Longrightarrow> v \<in> B \<Longrightarrow> u @ v \<in> conc A B"
  by (auto simp: conc_def)

lemma rests_plus: "rests (plus_lang A) s = (\<Union>t \<in> rests A s. insert t (rests (plus_lang A) t))"
proof (intro set_eqI iffI)
  fix t
  assume "t \<in> rests (plus_lang A) s"
  then obtain w where w: "w \<in> plus_lang A" "s = w @ t"
    by (auto simp: rests_def)
  from w(1) show "t \<in> (\<Union>t \<in> rests A s. insert t (rests (plus_lang A) t))"
  proof (cases rule: plus_lang.cases)
    case one
    with w show ?thesis by (auto simp: rests_def)
  next
    case (more u v)
    with w have "v @ t \<in> rests A s" "t \<in> rests (plus_lang A) (v @ t)"
      by (auto simp: rests_def)
    then show ?thesis by blast
  qed
next
  fix t
  assume "t \<in> (\<Union>t \<in> rests A s. insert t (rests (plus_lang A) t))"
  then obtain u where u: "u \<in> A" and t: "t \<in> rests (plus_lang A) (drop (length u) s) \<or> s = u @ t"
    and s: "s = u @ drop (length u) s"
    by (auto simp: rests_def)
  from t show "t \<in> rests (plus_lang A) s"
  proof
    assume "t \<in> rests (plus_lang A) (drop (length u) s)"
    then obtain v where "v \<in> plus_lang A" "drop (length u) s = v @ t"
      by (auto simp: rests_def)
    with u s have "u @ v \<in> plus_lang A" "s = (u @ v) @ t"
      by (auto intro: plus_lang.more)
    then show ?thesis unfolding rests_def by blast
  next
    assume "s = u @ t"
    with u show ?thesis by (auto simp: rests_def intro: plus_lang.one)
  qed
qed

lemma rests_shorter: "[] \<notin> L \<Longrightarrow> t \<in> rests L s \<Longrightarrow> length t < length s"
  by (cases "t = s") (auto simp: rests_def)

lemma rests_Digit [simp]:
  "rests {[c] | c. is_digit c} s = (case s of [] \<Rightarrow> {} | c # r \<Rightarrow> if is_digit c then {r} else {})"
  by (auto simp: rests_def split: list.splits)

lemma all_suffixes_Cons:
  "(\<forall>u t. c # s = u @ t \<longrightarrow> P t) \<longleftrightarrow> P (c # s) \<and> (\<forall>u t. s = u @ t \<longrightarrow> P t)"
  by (auto simp: Cons_eq_append_conv)

lemma rmatch_Seq_fun: "rmatch (Seq r1 r2) = (\<lambda>s. concat (map (rmatch r2) (rmatch r1 s)))"
  by (rule ext) simp

section \<open>The matcher computes the rests\<close>

lemma rmatch_rests: "proper r \<Longrightarrow> set (rmatch r s) = rests (lang r) s"
proof (induction r s rule: rmatch.induct)
  case (1 l s)
  then show ?case by simp
next
  case (2 s)
  then show ?case by (simp split: list.splits)
next
  case (3 r s)
  then show ?case by simp
next
  case (4 r1 r2 s)
  then show ?case by (simp add: rests_conc)
next
  case (5 r s)
  then have r: "set (rmatch r s) = rests (lang r) s" and n: "[] \<notin> lang r"
    and IH: "\<And>t. t \<in> rests (lang r) s \<Longrightarrow> length t < length s \<Longrightarrow>
                set (rmatch (Plus r) t) = rests (plus_lang (lang r)) t"
    by (simp_all add: nullable_iff)
  have "set (rmatch (Plus r) s) =
      (\<Union>t \<in> rests (lang r) s. insert t (rests (plus_lang (lang r)) t))"
    by (subst rmatch.simps(5)) (auto simp: r IH rests_shorter [OF n])
  then show ?case by (simp add: rests_plus [symmetric])
qed

lemma match_splits_whole: "map (snd \<circ> snd) (match_splits p s) = rmatch (whole p) s"
  by (simp add: match_splits_def whole_def map_concat comp_def rmatch_Seq_fun)

lemma match_at_None_iff: "match_at p s = None \<longleftrightarrow> rmatch (whole p) s = []"
  unfolding match_splits_whole [symmetric] by (auto simp: match_at_def split: list.splits)

lemma FindStringSubmatch_None_iff:
  "FindStringSubmatch p s = None \<longleftrightarrow> (\<forall>u t. s = u @ t \<longrightarrow> rmatch (whole p) t = [])"
proof (induction s)
  case Nil
  then show ?case by (simp add: match_at_None_iff)
next
  case (Cons c s)
  have "match_at p (c # s) = None \<longleftrightarrow> rmatch (whole p) (c # s) = []"
    by (rule match_at_None_iff)
  with Cons show ?case
    by (cases "match_at p (c # s)") (simp_all add: all_suffixes_Cons)
qed

lemma proper_seats_re: "proper (whole seats_re)" "proper (p_group seats_re)"
  by (simp_all add: whole_def seats_re_def)

section \<open>Properties\<close>

text \<open>
  C33: the matcher is equivalent to the meaning of the expression. For a proper
  expression \<open>rmatch\<close> returns exactly the rests of the input after a prefix in
  its language, and \<^verbatim>\<open>FindStringSubmatch\<close> finds a match exactly if some
  substring of the input is in the language of the whole pattern.
\<close>

theorem rmatch_lang:
  assumes "proper (whole p)"
  shows "set (rmatch (whole p) s) = {t. \<exists>w \<in> lang (whole p). s = w @ t} \<and>
     (FindStringSubmatch p s \<noteq> None \<longleftrightarrow> (\<exists>u w t. s = u @ w @ t \<and> w \<in> lang (whole p)))"
proof -
  have m: "rmatch (whole p) t \<noteq> [] \<longleftrightarrow> (\<exists>w t'. t = w @ t' \<and> w \<in> lang (whole p))" for t
    using rmatch_rests [OF assms, of t] unfolding set_empty [symmetric]
    by (auto simp: rests_def)
  from rmatch_rests [OF assms] have "set (rmatch (whole p) s) = {t. \<exists>w \<in> lang (whole p). s = w @ t}"
    by (simp add: rests_def)
  moreover have "FindStringSubmatch p s \<noteq> None \<longleftrightarrow> (\<exists>u w t. s = u @ w @ t \<and> w \<in> lang (whole p))"
    unfolding FindStringSubmatch_None_iff using m by blast
  ultimately show ?thesis ..
qed

theorem rmatch_lang_witness:
  "proper (whole seats_re) \<and>
   seats_prefix @ ''-12'' @ seats_suffix \<in> lang (whole seats_re) \<and>
   FindStringSubmatch seats_re (''<td>'' @ seats_prefix @ ''-12'' @ seats_suffix @ ''</td>'') \<noteq> None"
proof -
  have d: "''12'' \<in> plus_lang (lang Digit)"
    using plus_lang.more [of "''1''" "lang Digit" "''2''"] by (simp add: plus_lang.one is_digit_def)
  have g: "''-12'' \<in> lang (p_group seats_re)"
    using concI [of "''-''" "lang (Opt (Lit ''-''))" "''12''", OF _ d] by (simp add: seats_re_def)
  from concI [OF g, of seats_suffix "{seats_suffix}"]
  have "''-12'' @ seats_suffix \<in> conc (lang (p_group seats_re)) {seats_suffix}" by simp
  from concI [OF _ this, of seats_prefix "{seats_prefix}"]
  have w: "seats_prefix @ ''-12'' @ seats_suffix \<in> lang (whole seats_re)"
    by (simp add: whole_def seats_re_def)
  let ?page = "''<td>'' @ seats_prefix @ ''-12'' @ seats_suffix @ ''</td>''"
  from w have "\<exists>u w t. ?page = u @ w @ t \<and> w \<in> lang (whole seats_re)"
    by (intro exI [of _ "''<td>''"] exI [of _ "seats_prefix @ ''-12'' @ seats_suffix"]
        exI [of _ "''</td>''"]) simp
  with rmatch_lang [OF proper_seats_re(1), of ?page]
  have "FindStringSubmatch seats_re ?page \<noteq> None" by (simp only: simp_thms)
  with w proper_seats_re(1) show ?thesis by simp
qed

end
